(* ===== verification/Prelude.thy ===== *)
theory Prelude
  imports Main "HOL-Library.Word"
begin

text \<open>
  Shared vocabulary of the development: machine types, zero-initialised C arrays, the C
  \<open>gsize\<close> subtraction, and the generic facts about them that the component proofs use
  through the collections \<open>buf_simps\<close> and \<open>gsize_simps\<close>.
\<close>

named_theorems buf_simps "reading and writing the zero-initialised arrays"
named_theorems gsize_simps "subtraction of 64-bit sizes that does not wrap"
named_theorems step_simps "unfolding equations of the step functions of a component"

type_synonym byte = "8 word"
type_synonym u32 = "32 word"

section \<open>Sizes\<close>

text \<open>
  \<open>gsize\<close> is a 64-bit unsigned integer. Sizes are kept as \<open>nat\<close>; a subtraction whose
  operands are not ordered wraps around, so it is written out. \<open>xdrmem_create\<close> takes its
  size as an \<open>unsigned int\<close>: the 64-bit difference is truncated to 32 bits.
\<close>

definition gsize_minus :: "nat \<Rightarrow> nat \<Rightarrow> nat" where
  "gsize_minus a b = (a + 2 ^ 64 - b) mod 2 ^ 64"

definition u_int_of :: "nat \<Rightarrow> nat" where
  "u_int_of n = n mod 2 ^ 32"

lemma gsize_minus_le [gsize_simps]:
  assumes "b \<le> a" "a < 2 ^ 64"
  shows "gsize_minus a b = a - b"
proof -
  have "a + 2 ^ 64 - b = (a - b) + 2 ^ 64" using assms by simp
  moreover have "a - b < 2 ^ 64"
    by (rule le_less_trans [OF diff_le_self assms(2)])
  ultimately show ?thesis
    unfolding gsize_minus_def by (metis mod_add_self2 mod_less)
qed

lemma u_int_of_small [gsize_simps]: "n < 2 ^ 32 \<Longrightarrow> u_int_of n = n"
  by (simp add: u_int_of_def)

section \<open>Zero-initialised arrays\<close>

text \<open>
  A C array allocated with \<open>g_new0\<close> is the list of the bytes written so far; what was never
  written reads as zero. \<open>buf_read b off n\<close> is the content of the \<open>n\<close> bytes at \<open>off\<close>,
  \<open>buf_write b off bs\<close> stores \<open>bs\<close> at \<open>off\<close>.
\<close>

definition buf_read :: "byte list \<Rightarrow> nat \<Rightarrow> nat \<Rightarrow> byte list" where
  "buf_read b off n = take n (drop off b @ replicate n 0)"

definition buf_write :: "byte list \<Rightarrow> nat \<Rightarrow> byte list \<Rightarrow> byte list" where
  "buf_write b off bs = take off (b @ replicate off 0) @ bs @ drop (off + length bs) b"

lemma length_buf_read [simp, buf_simps]: "length (buf_read b off n) = n"
  by (simp add: buf_read_def)

lemma buf_read_0 [simp, buf_simps]: "buf_read b off 0 = []"
  by (simp add: buf_read_def)

lemma length_buf_write [buf_simps]:
  "length (buf_write b off bs) = max (length b) (off + length bs)"
  by (auto simp: buf_write_def)

lemma buf_read_inside:
  "off + n \<le> length b \<Longrightarrow> buf_read b off n = take n (drop off b)"
  by (simp add: buf_read_def)

lemma buf_read_nth:
  "i < n \<Longrightarrow> buf_read b off n ! i = (if off + i < length b then b ! (off + i) else 0)"
  by (auto simp: buf_read_def nth_append)

lemma buf_read_append:
  "buf_read b off (m + n) = buf_read b off m @ buf_read b (off + m) n"
  by (rule nth_equalityI) (auto simp: buf_read_nth nth_append)

lemma buf_read_take: "m \<le> n \<Longrightarrow> take m (buf_read b off n) = buf_read b off m"
  by (rule nth_equalityI) (auto simp: buf_read_nth)

lemma buf_read_drop: "drop m (buf_read b off n) = buf_read b (off + m) (n - m)"
  by (rule nth_equalityI) (auto simp: buf_read_nth algebra_simps)

lemma buf_write_nth:
  "i < length (buf_write b off bs) \<Longrightarrow> buf_write b off bs ! i =
     (if off \<le> i \<and> i < off + length bs then bs ! (i - off)
      else if i < length b then b ! i else 0)"
  by (auto simp: buf_write_def nth_append min_def)

lemma buf_read_write_same [buf_simps]:
  "n = length bs \<Longrightarrow> buf_read (buf_write b off bs) off n = bs"
  by (rule nth_equalityI) (auto simp: buf_read_nth buf_write_nth length_buf_write)

lemma buf_read_write_before [buf_simps]:
  "off' + n \<le> off \<Longrightarrow> buf_read (buf_write b off bs) off' n = buf_read b off' n"
  by (rule nth_equalityI) (auto simp: buf_read_nth buf_write_nth length_buf_write)

lemma buf_read_write_after [buf_simps]:
  "off + length bs \<le> off' \<Longrightarrow> buf_read (buf_write b off bs) off' n = buf_read b off' n"
  by (rule nth_equalityI) (auto simp: buf_read_nth buf_write_nth length_buf_write)

lemma buf_read_full [buf_simps]: "buf_read b 0 (length b) = b"
  by (simp add: buf_read_def)

end
