(* ===== verification/Gobject.thy ===== *)
theory Gobject
  imports Prelude
begin

text \<open>
  The properties of a GObject class. A class installs specifications in \<open>class_init\<close> and has two
  methods that GObject calls with a \<open>GValue\<close> of the specified type: \<open>get_property\<close> stores into it and
  \<open>set_property\<close> reads from it, each with accessors for one type. The locale \<open>property_class\<close> is what a
  user of such a class relies on; every class of the program but two obeys it.
\<close>

section \<open>Values and specifications\<close>

datatype gtype = G_STRING | G_BOOLEAN | G_CHAR | G_UINT | G_UINT64 | G_ENUM | G_OBJECT

text \<open>A value with its type; \<open>None\<close> is NULL. Objects are named by \<open>'o\<close>.\<close>

datatype 'o gvalue =
    V_string "string option"
  | V_boolean bool
  | V_char byte
  | V_uint u32
  | V_uint64 "64 word"
  | V_enum int
  | V_object "'o option"

fun gtype_of :: "'o gvalue \<Rightarrow> gtype" where
  "gtype_of (V_string _) = G_STRING"
| "gtype_of (V_boolean _) = G_BOOLEAN"
| "gtype_of (V_char _) = G_CHAR"
| "gtype_of (V_uint _) = G_UINT"
| "gtype_of (V_uint64 _) = G_UINT64"
| "gtype_of (V_enum _) = G_ENUM"
| "gtype_of (V_object _) = G_OBJECT"

lemma gtype_of_eq:
  "gtype_of v = G_STRING \<longleftrightarrow> (\<exists>x. v = V_string x)" "gtype_of v = G_BOOLEAN \<longleftrightarrow> (\<exists>x. v = V_boolean x)"
  "gtype_of v = G_CHAR \<longleftrightarrow> (\<exists>x. v = V_char x)" "gtype_of v = G_UINT \<longleftrightarrow> (\<exists>x. v = V_uint x)"
  "gtype_of v = G_UINT64 \<longleftrightarrow> (\<exists>x. v = V_uint64 x)" "gtype_of v = G_ENUM \<longleftrightarrow> (\<exists>x. v = V_enum x)"
  "gtype_of v = G_OBJECT \<longleftrightarrow> (\<exists>x. v = V_object x)"
  by (cases v; simp)+

record 'o param_spec =
  ps_name :: string
  ps_type :: gtype
  ps_default :: "'o gvalue"
  ps_construct_only :: bool

definition prop_spec :: "string \<Rightarrow> 'o gvalue \<Rightarrow> bool \<Rightarrow> 'o param_spec" where
  "prop_spec name dflt construct_only =
     \<lparr>ps_name = name, ps_type = gtype_of dflt, ps_default = dflt, ps_construct_only = construct_only\<rparr>"

text \<open>The specifications of each class are collected here.\<close>

named_theorems class_specs "the properties that the classes install"

declare prop_spec_def [class_specs]

section \<open>Construction\<close>

text \<open>A property that the class cannot take is left as it is.\<close>

definition assign :: "('p \<Rightarrow> 'o gvalue \<Rightarrow> 'c \<Rightarrow> 'c option) \<Rightarrow> 'p \<Rightarrow> 'o gvalue \<Rightarrow> 'c \<Rightarrow> 'c" where
  "assign put p v c = (case put p v c of None \<Rightarrow> c | Some d \<Rightarrow> d)"

text \<open>
  \<open>g_object_new\<close>: after the instance initialisers every construct-only property gets the value that is
  given for it or else its default, and then the others what is given for them.
\<close>

definition given_or_default :: "('p \<Rightarrow> 'o gvalue option) \<Rightarrow> 'p \<times> 'o param_spec \<Rightarrow> 'o gvalue option" where
  "given_or_default given ps = (case given (fst ps) of Some v \<Rightarrow> Some v
     | None \<Rightarrow> if ps_construct_only (snd ps) then Some (ps_default (snd ps)) else None)"

fun assign_all ::
  "('p \<Rightarrow> 'o gvalue \<Rightarrow> 'c \<Rightarrow> 'c option) \<Rightarrow> ('p \<Rightarrow> 'o gvalue option) \<Rightarrow> ('p \<times> 'o param_spec) list \<Rightarrow> 'c \<Rightarrow> 'c" where
  "assign_all put given [] c = c"
| "assign_all put given (ps # specs) c =
     assign_all put given specs
       (case given_or_default given ps of None \<Rightarrow> c | Some v \<Rightarrow> assign put (fst ps) v c)"

definition object_new ::
  "('p \<times> 'o param_spec) list \<Rightarrow> ('p \<Rightarrow> 'o gvalue \<Rightarrow> 'c \<Rightarrow> 'c option) \<Rightarrow> 'c \<Rightarrow> ('p \<Rightarrow> 'o gvalue option) \<Rightarrow> 'c" where
  "object_new specs put init given =
     assign_all put given (filter (\<lambda>ps. \<not> ps_construct_only (snd ps)) specs)
       (assign_all put given (filter (\<lambda>ps. ps_construct_only (snd ps)) specs) init)"

section \<open>What a class promises\<close>

text \<open>
  \<open>inst\<close> is whether an object is an instance of the class. Every property stores a value of the type it
  is declared with, takes every value of that type (a string that is not NULL), and a value taken
  is read back and leaves the other properties alone.
\<close>

locale property_class =
  fixes specs :: "('p \<times> 'o param_spec) list"
    and get :: "'p \<Rightarrow> 'c \<Rightarrow> 'o gvalue option"
    and put :: "'p \<Rightarrow> 'o gvalue \<Rightarrow> 'c \<Rightarrow> 'c option"
    and inst :: "'c \<Rightarrow> bool"
  assumes distinct_props: "distinct (map fst specs)"
    and distinct_names: "distinct (map (ps_name \<circ> snd) specs)"
    and default_type: "(p, s) \<in> set specs \<Longrightarrow> gtype_of (ps_default s) = ps_type s"
    and get_type: "(p, s) \<in> set specs \<Longrightarrow> inst c \<Longrightarrow> \<exists>v. get p c = Some v \<and> gtype_of v = ps_type s"
    and put_defined: "(p, s) \<in> set specs \<Longrightarrow> inst c \<Longrightarrow> gtype_of v = ps_type s \<Longrightarrow> v \<noteq> V_string None \<Longrightarrow>
      put p v c \<noteq> None"
    and put_inst: "put p v c = Some d \<Longrightarrow> inst c \<Longrightarrow> inst d"
    and get_put: "put p v c = Some d \<Longrightarrow> inst c \<Longrightarrow> get q d = (if q = p then Some v else get q c)"
begin

lemma assign_inst: "inst c \<Longrightarrow> inst (assign put p v c)"
  using put_inst by (auto simp: assign_def split: option.splits)

lemma get_assign_other: "inst c \<Longrightarrow> q \<noteq> p \<Longrightarrow> get q (assign put p v c) = get q c"
  using get_put by (auto simp: assign_def split: option.splits)

lemma get_assign:
  "(p, s) \<in> set specs \<Longrightarrow> inst c \<Longrightarrow> gtype_of v = ps_type s \<Longrightarrow> v \<noteq> V_string None \<Longrightarrow>
   get p (assign put p v c) = Some v"
  using put_defined [of p s c v] get_put by (auto simp: assign_def split: option.splits)

lemma assign_all_inst: "inst c \<Longrightarrow> inst (assign_all put given xs c)"
  by (induction xs arbitrary: c) (auto intro: assign_inst split: option.splits)

lemma get_assign_all_other:
  "p \<notin> fst ` set xs \<Longrightarrow> inst c \<Longrightarrow> get p (assign_all put given xs c) = get p c"
proof (induction xs arbitrary: c)
  case (Cons x xs)
  then show ?case
    by (cases "given_or_default given x") (auto simp: get_assign_other assign_inst)
qed simp

lemma get_assign_all:
  assumes "(p, s) \<in> set xs" "set xs \<subseteq> set specs" "distinct (map fst xs)" "inst c"
    and "given_or_default given (p, s) = Some v" "gtype_of v = ps_type s" "v \<noteq> V_string None"
  shows "get p (assign_all put given xs c) = Some v"
  using assms
proof (induction xs arbitrary: c)
  case (Cons x xs)
  show ?case
  proof (cases "x = (p, s)")
    case True
    with Cons.prems have "p \<notin> fst ` set xs" by simp
    then show ?thesis
      using True Cons.prems get_assign [of p s c v]
      by (simp add: get_assign_all_other assign_inst)
  next
    case False
    then show ?thesis
      using Cons by (auto intro: assign_inst split: option.splits)
  qed
qed simp

lemma same_spec: "(p, s) \<in> set specs \<Longrightarrow> (p, t) \<in> set specs \<Longrightarrow> s = t"
  by (rule eq_key_imp_eq_value [OF distinct_props])

lemma distinct_part: "distinct (map fst (filter P specs))"
  using distinct_props by (simp add: distinct_map inj_on_def)

lemma split_specs:
  "(p, s) \<in> set specs \<Longrightarrow> ps_construct_only s \<Longrightarrow> p \<notin> fst ` set (filter (\<lambda>ps. \<not> ps_construct_only (snd ps)) specs)"
  by (auto dest: same_spec)

text \<open>A new object has the properties that were given for it, and else the defaults of the construct-only ones.\<close>

lemma get_object_new:
  assumes "(p, s) \<in> set specs" "inst init" "given_or_default given (p, s) = Some v"
    and "gtype_of v = ps_type s" "v \<noteq> V_string None"
  shows "get p (object_new specs put init given) = Some v"
proof (cases "ps_construct_only s")
  case True
  with assms show ?thesis
    unfolding object_new_def
    by (subst get_assign_all_other [OF split_specs])
      (auto intro!: get_assign_all [where s = s] assign_all_inst distinct_part)
next
  case False
  with assms show ?thesis
    unfolding object_new_def
    by (intro get_assign_all [where s = s]) (auto intro!: assign_all_inst distinct_part)
qed

lemma get_object_given:
  assumes "(p, s) \<in> set specs" "inst init" "given p = Some v" "gtype_of v = ps_type s" "v \<noteq> V_string None"
  shows "get p (object_new specs put init given) = Some v"
  using assms by (intro get_object_new) (simp_all add: given_or_default_def)

lemma get_object_default:
  assumes "(p, s) \<in> set specs" "inst init" "given p = None" "ps_construct_only s" "ps_default s \<noteq> V_string None"
  shows "get p (object_new specs put init given) = Some (ps_default s)"
  using assms default_type [OF assms(1)] by (intro get_object_new) (simp_all add: given_or_default_def)

text \<open>What is not given and not construct-only is as the initialiser left it.\<close>

lemma get_object_init:
  assumes "(p, s) \<in> set specs" "inst init" "given p = None" "\<not> ps_construct_only s"
  shows "get p (object_new specs put init given) = get p init"
proof -
  have keeps: "get p (assign_all put given xs c) = get p c"
    if "set xs \<subseteq> set specs" "inst c" for xs c
    using that
  proof (induction xs arbitrary: c)
    case (Cons x xs)
    have "given_or_default given x = None" if "fst x = p"
    proof -
      have "x = (p, s)" using that Cons.prems(1) assms(1) same_spec [of p s "snd x"] by (cases x) auto
      with assms(3,4) show ?thesis by (simp add: given_or_default_def)
    qed
    with Cons show ?case
      by (cases "fst x = p") (auto simp: get_assign_other assign_inst split: option.splits)
  qed simp
  show ?thesis unfolding object_new_def by (simp add: keeps assign_all_inst assms(2))
qed

text \<open>Setting a property to what it is changes nothing that can be read.\<close>

lemma put_get: "put p v c = Some d \<Longrightarrow> inst c \<Longrightarrow> get p c = Some v \<Longrightarrow> get q d = get q c"
  using get_put by fastforce

end

end
