(* ===== verification/Console.thy ===== *)
theory Console
  imports Gobject
begin

text \<open>
  The abstract console, libvirt-sandbox-console.c: the object both kinds of console are built on,
  with its properties, and the interface \<open>console_class\<close> of the two methods its subclasses provide.
  Also here: what the local terminal and the local streams answer, which the RPC console and the raw
  console share.
\<close>

unbundle bit_operations_syntax

section \<open>Local streams and signals\<close>

datatype console_signal = Sig_exited u32 | Sig_closed bool

datatype read_result = Read_error | Read_bytes "byte list"
datatype write_result = Write_error | Wrote nat

text \<open>What \<open>isatty\<close>, \<open>tcgetattr\<close> and \<open>tcsetattr\<close> answer for the local stdin.\<close>

record term_env =
  te_isatty :: bool
  te_getattr :: bool
  te_setattr :: bool

text \<open>\<open>CONTROL(c)\<close>, defined by both subclasses.\<close>

definition CONTROL :: "byte \<Rightarrow> byte" where
  "CONTROL b = b XOR 0x40"

section \<open>The console object\<close>

text \<open>The connection and the domain are named; \<open>None\<close> is NULL.\<close>

record console_obj =
  connection :: "string option"
  domain :: "string option"
  devname :: "string option"
  escape :: byte
  direct :: bool

datatype console_prop = PROP_CONNECTION | PROP_DOMAIN | PROP_DEVNAME | PROP_ESCAPE | PROP_DIRECT

fun console_get_property :: "console_prop \<Rightarrow> console_obj \<Rightarrow> string gvalue option" where
  "console_get_property PROP_CONNECTION c = Some (V_object (connection c))"
| "console_get_property PROP_DOMAIN c = Some (V_object (domain c))"
| "console_get_property PROP_DEVNAME c = Some (V_string (devname c))"
| "console_get_property PROP_ESCAPE c = Some (V_char (escape c))"
| "console_get_property PROP_DIRECT c = Some (V_boolean (direct c))"

fun console_set_property :: "console_prop \<Rightarrow> string gvalue \<Rightarrow> console_obj \<Rightarrow> console_obj option" where
  "console_set_property PROP_CONNECTION (V_object v) c = Some (c\<lparr>connection := v\<rparr>)"
| "console_set_property PROP_DOMAIN (V_object v) c = Some (c\<lparr>domain := v\<rparr>)"
| "console_set_property PROP_DEVNAME (V_string v) c = Some (c\<lparr>devname := v\<rparr>)"
| "console_set_property PROP_ESCAPE (V_char v) c = Some (c\<lparr>escape := v\<rparr>)"
| "console_set_property PROP_DIRECT (V_boolean v) c = Some (c\<lparr>direct := v\<rparr>)"
| "console_set_property _ _ c = None"

text \<open>The properties that \<open>class_init\<close> installs, all of them construct-only.\<close>

definition console_specs :: "(console_prop \<times> string param_spec) list" where [class_specs]:
  "console_specs =
     [(PROP_CONNECTION, prop_spec ''connection'' (V_object None) True),
      (PROP_DOMAIN, prop_spec ''domain'' (V_object None) True),
      (PROP_DEVNAME, prop_spec ''devname'' (V_string None) True),
      (PROP_ESCAPE, prop_spec ''escape'' (V_char 0x5D) True),
      (PROP_DIRECT, prop_spec ''direct'' (V_boolean False) True)]"

definition console_construct :: "(console_prop \<Rightarrow> string gvalue option) \<Rightarrow> console_obj" where
  "console_construct given = object_new console_specs console_set_property
     \<lparr>connection = None, domain = None, devname = None, escape = 0, direct = False\<rparr> given"

definition set_escape :: "byte \<Rightarrow> console_obj \<Rightarrow> console_obj" where
  "set_escape b c = c\<lparr>escape := b\<rparr>"

definition get_escape :: "console_obj \<Rightarrow> byte" where
  "get_escape c = escape c"

definition set_direct :: "bool \<Rightarrow> console_obj \<Rightarrow> console_obj" where
  "set_direct b c = c\<lparr>direct := b\<rparr>"

definition get_direct :: "console_obj \<Rightarrow> bool" where
  "get_direct c = direct c"

text \<open>\<open>isolate\<close> gives up the connection; FALSE is the second component.\<close>

definition isolate :: "console_obj \<Rightarrow> console_obj \<times> bool" where
  "isolate c = (if \<not> direct c then (c, False) else (c\<lparr>connection := None, domain := None\<rparr>, True))"

section \<open>The methods of a subclass\<close>

text \<open>
  \<open>attach\<close> takes whether there is a local stdin and a local stdout; a local stderr there is always.
  The two helpers pass the standard streams.
\<close>

definition console_attach_stdio :: "(bool \<Rightarrow> bool \<Rightarrow> 'c \<Rightarrow> 'r) \<Rightarrow> 'c \<Rightarrow> 'r" where
  "console_attach_stdio attach c = attach True True c"

definition console_attach_stderr :: "(bool \<Rightarrow> bool \<Rightarrow> 'c \<Rightarrow> 'r) \<Rightarrow> 'c \<Rightarrow> 'r" where
  "console_attach_stderr attach c = attach False False c"

text \<open>
  What the users of a console rely on: a second attach is refused and changes nothing, a failed attach
  leaves it detached, detaching is idempotent and either works or leaves the console attached as it was.
\<close>

locale console_class =
  fixes attach :: "bool \<Rightarrow> bool \<Rightarrow> 'c \<Rightarrow> 'c \<times> 'e option"
    and detach :: "'c \<Rightarrow> 'c \<times> 'e option"
    and is_attached :: "'c \<Rightarrow> bool"
    and busy :: 'e
  assumes attach_busy: "is_attached c \<Longrightarrow> attach i u c = (c, Some busy)"
    and attach_done: "\<not> is_attached c \<Longrightarrow> attach i u c = (d, None) \<Longrightarrow> is_attached d"
    and attach_failed: "\<not> is_attached c \<Longrightarrow> attach i u c = (d, Some e) \<Longrightarrow> \<not> is_attached d"
    and detach_idle: "\<not> is_attached c \<Longrightarrow> detach c = (c, None)"
    and detach_done: "detach c = (d, None) \<Longrightarrow> \<not> is_attached d"
    and detach_failed: "detach c = (d, Some e) \<Longrightarrow> is_attached c \<and> d = c"
begin

lemma attach_twice:
  assumes "attach i u c = (d, None)"
  shows "console_attach_stdio attach d = (d, Some busy)" "console_attach_stderr attach d = (d, Some busy)"
proof -
  have "is_attached d" using assms attach_busy attach_done by (cases "is_attached c") force+
  then show "console_attach_stdio attach d = (d, Some busy)" "console_attach_stderr attach d = (d, Some busy)"
    by (simp_all add: console_attach_stdio_def console_attach_stderr_def attach_busy)
qed

lemma detach_twice: "detach c = (d, None) \<Longrightarrow> detach d = (d, None)"
  using detach_done detach_idle by blast

lemma detach_result: "fst (detach c) = c \<or> \<not> is_attached (fst (detach c))"
  by (metis detach_done detach_failed option.exhaust prod.exhaust_sel)

lemma attach_result: "is_attached (fst (attach i u c)) \<longleftrightarrow> is_attached c \<or> snd (attach i u c) = None"
  by (metis attach_busy attach_done attach_failed fst_conv not_Some_eq prod.exhaust_sel)

end

section \<open>Properties of the object\<close>

lemmas console_construct_simps = console_construct_def console_specs_def object_new_def prop_spec_def
  given_or_default_def assign_def

lemma console_set_property_cases:
  assumes "console_set_property p v c = Some d"
  shows "console_get_property q d = (if q = p then Some v else console_get_property q c)"
  using assms by (cases p; cases v; cases q) auto

interpretation console_properties:
  property_class console_specs console_get_property console_set_property "\<lambda>_. True"
  by (unfold_locales; (erule console_set_property_cases | auto simp: class_specs gtype_of_eq))

lemma escape_set_direct [simp]: "escape (assign console_set_property PROP_DIRECT v c) = escape c"
  by (cases v) (simp_all add: assign_def)

text \<open>Without an escape character of its own a console is left with Ctrl-].\<close>

lemma construct_escape:
  assumes "given PROP_ESCAPE = None"
  shows "CONTROL (escape (console_construct given)) = 0x1D"
proof -
  have "console_get_property PROP_ESCAPE (console_construct given) = Some (V_char 0x5D)"
    using console_properties.get_object_default [where p = PROP_ESCAPE and s = "prop_spec ''escape'' (V_char 0x5D) True"
      and init = "\<lparr>connection = None, domain = None, devname = None, escape = 0, direct = False\<rparr>" and given = given]
      assms by (simp add: console_construct_def console_specs_def prop_spec_def)
  then show ?thesis by (simp add: CONTROL_def)
qed

end
