(* ===== verification/Console_Raw.thy ===== *)
theory Console_Raw
  imports Console
begin

text \<open>
  The raw console, libvirt-sandbox-console-raw.c, which copies bytes between the local streams and a
  console device of the domain, through libvirt's stream or, with direct access, through the device's
  pseudo terminal. Every definition follows the C function of the same name (without
  \<open>gvir_sandbox_console_raw_\<close> or \<open>do_console_raw_\<close>).

  As in Console_Rpc, the record holds the private structure and, after it, the world the callbacks act
  on: the sources and the watch attached to the main context, what was received from the console and
  accepted by it, what was read locally and accepted by the local output, and the signals. What a
  system call returns is an argument of the callback that makes it.
\<close>

section \<open>Data\<close>

datatype raw_error =
    Raw_already_attached
  | Raw_query_term
  | Raw_update_term
  | Raw_restore_term
  | Raw_open_console
  | Raw_get_config
  | Raw_no_devices
  | Raw_no_device "string option"
  | Raw_open_pty string

text \<open>What \<open>gvir_stream_receive\<close> answers; no bytes are the end of file.\<close>

datatype receive_result = Receive_block | Receive_error | Receive_bytes "byte list"

text \<open>A device of the domain: its alias and, if it is a character device, its source.\<close>

datatype chardev_source = Source_pty "string option" | Source_other

record raw_device =
  dev_alias :: "string option"
  dev_chardev :: "chardev_source option"

text \<open>libvirt and the operating system: opening the console, the domain's devices, \<open>open\<close>.\<close>

record raw_env =
  re_term :: term_env
  re_open_console :: "string option \<Rightarrow> string option \<Rightarrow> bool"
  re_devices :: "string option \<Rightarrow> raw_device list option"
  re_open :: "string \<Rightarrow> int"

record raw_console =
  base :: console_obj
  attached :: bool
  console :: bool
  consolePty :: int
  consoleInput :: bool
  consoleOutput :: bool
  localStdin :: bool
  localStdout :: bool
  localStderr :: bool
  termiosActive :: bool
  consoleToLocal :: "byte list option"
  consoleToLocalLength :: nat
  consoleToLocalOffset :: nat
  localToConsole :: "byte list option"
  localToConsoleLength :: nat
  localToConsoleOffset :: nat
  localEOF :: bool
  localStdinSource :: bool
  localStdoutSource :: bool
  localStderrSource :: bool
  consoleWatch :: bool
  consoleInputSource :: bool
  consoleOutputSource :: bool
  stdinSources :: nat
  stdoutSources :: nat
  stderrSources :: nat
  inputSources :: nat
  outputSources :: nat
  streamWatch :: "(bool \<times> bool) option"
  fromConsole :: "byte list"
  toConsole :: "byte list"
  stdinRead :: "byte list"
  localWritten :: "byte list"
  signals :: "console_signal list"

type_synonym raw_outcome = "raw_console \<times> raw_error option"

definition raw_init :: "console_obj \<Rightarrow> raw_console" where
  "raw_init obj =
     \<lparr>base = obj, attached = False, console = False, consolePty = -1, consoleInput = False,
      consoleOutput = False, localStdin = False, localStdout = False, localStderr = False,
      termiosActive = False, consoleToLocal = None, consoleToLocalLength = 0,
      consoleToLocalOffset = 0, localToConsole = None, localToConsoleLength = 0,
      localToConsoleOffset = 0, localEOF = False, localStdinSource = False,
      localStdoutSource = False, localStderrSource = False, consoleWatch = False,
      consoleInputSource = False, consoleOutputSource = False, stdinSources = 0,
      stdoutSources = 0, stderrSources = 0, inputSources = 0, outputSources = 0,
      streamWatch = None, fromConsole = [], toConsole = [], stdinRead = [], localWritten = [],
      signals = []\<rparr>"

definition console_raw_new :: "string \<Rightarrow> string \<Rightarrow> string \<Rightarrow> raw_console" where
  "console_raw_new conn dmn dev =
     raw_init (console_construct
       [PROP_CONNECTION \<mapsto> V_object (Some conn), PROP_DOMAIN \<mapsto> V_object (Some dmn),
        PROP_DEVNAME \<mapsto> V_string (Some dev)])"

section \<open>Terminal\<close>

definition start_term :: "term_env \<Rightarrow> raw_console \<Rightarrow> raw_outcome" where
  "start_term E c =
     (if \<not> te_isatty E then (c, None)
      else if \<not> te_getattr E then (c, Some Raw_query_term)
      else if \<not> te_setattr E then (c, Some Raw_update_term)
      else (c\<lparr>termiosActive := True\<rparr>, None))"

definition stop_term :: "term_env \<Rightarrow> raw_console \<Rightarrow> raw_outcome" where
  "stop_term E c =
     (if \<not> te_isatty E then (c, None)
      else if \<not> te_setattr E then (c, Some Raw_restore_term)
      else (c\<lparr>termiosActive := False\<rparr>, None))"

section \<open>Event sources\<close>

definition update_stdin_source :: "bool \<Rightarrow> raw_console \<Rightarrow> raw_console" where
  "update_stdin_source need c =
     (if need then
        (if localStdinSource c then c
         else c\<lparr>localStdinSource := True, stdinSources := stdinSources c + 1\<rparr>)
      else
        (if localStdinSource c
         then c\<lparr>localStdinSource := False, stdinSources := stdinSources c - 1\<rparr> else c))"

definition update_stdout_source :: "bool \<Rightarrow> raw_console \<Rightarrow> raw_console" where
  "update_stdout_source need c =
     (if need then
        (if localStdoutSource c then c
         else c\<lparr>localStdoutSource := True, stdoutSources := stdoutSources c + 1\<rparr>)
      else
        (if localStdoutSource c
         then c\<lparr>localStdoutSource := False, stdoutSources := stdoutSources c - 1\<rparr> else c))"

definition update_stderr_source :: "bool \<Rightarrow> raw_console \<Rightarrow> raw_console" where
  "update_stderr_source need c =
     (if need then
        (if localStderrSource c then c
         else c\<lparr>localStderrSource := True, stderrSources := stderrSources c + 1\<rparr>)
      else
        (if localStderrSource c
         then c\<lparr>localStderrSource := False, stderrSources := stderrSources c - 1\<rparr> else c))"

definition update_watch :: "bool \<times> bool \<Rightarrow> raw_console \<Rightarrow> raw_console" where
  "update_watch cond c =
     c\<lparr>consoleWatch := cond \<noteq> (False, False),
       streamWatch := (if cond \<noteq> (False, False) then Some cond
                       else if consoleWatch c then None else streamWatch c)\<rparr>"

definition update_input_source :: "bool \<Rightarrow> raw_console \<Rightarrow> raw_console" where
  "update_input_source need c =
     (if need then
        (if consoleInputSource c then c
         else c\<lparr>consoleInputSource := True, inputSources := inputSources c + 1\<rparr>)
      else
        (if consoleInputSource c
         then c\<lparr>consoleInputSource := False, inputSources := inputSources c - 1\<rparr> else c))"

definition update_output_source :: "bool \<Rightarrow> raw_console \<Rightarrow> raw_console" where
  "update_output_source need c =
     (if need then
        (if consoleOutputSource c then c
         else c\<lparr>consoleOutputSource := True, outputSources := outputSources c + 1\<rparr>)
      else
        (if consoleOutputSource c
         then c\<lparr>consoleOutputSource := False, outputSources := outputSources c - 1\<rparr> else c))"

definition room_local :: "raw_console \<Rightarrow> bool" where
  "room_local c \<longleftrightarrow> consoleToLocalOffset c < consoleToLocalLength c"

definition room_console :: "raw_console \<Rightarrow> bool" where
  "room_console c \<longleftrightarrow> localToConsoleOffset c < localToConsoleLength c"

text \<open>Output goes to stdout, or to stderr when there is no stdout.\<close>

definition update_output :: "raw_console \<Rightarrow> raw_console" where
  "update_output c =
     (if localStdout c then update_stdout_source (consoleToLocalOffset c \<noteq> 0) c
      else update_stderr_source (consoleToLocalOffset c \<noteq> 0) c)"

definition update_remote :: "raw_console \<Rightarrow> raw_console" where
  "update_remote c =
     (if console c then update_watch (room_local c, localToConsoleOffset c \<noteq> 0) c
      else update_output_source (localToConsoleOffset c \<noteq> 0)
             (update_input_source (room_local c) c))"

definition update_events :: "raw_console \<Rightarrow> raw_console" where
  "update_events c =
     (if \<not> attached c then c
      else
        let c = (if localStdin c then update_stdin_source (room_console c \<and> \<not> localEOF c) c else c)
        in update_remote (update_output c))"

text \<open>The same with the tests pushed into the fields, the flag of a source and the number attached.\<close>

definition src_flag :: "bool \<Rightarrow> bool \<Rightarrow> bool \<Rightarrow> bool" where
  "src_flag used need flag = (if used then need else flag)"

definition src_num :: "bool \<Rightarrow> bool \<Rightarrow> bool \<Rightarrow> nat \<Rightarrow> nat" where
  "src_num used need flag n =
     (if used then n + of_bool (need \<and> \<not> flag) - of_bool (\<not> need \<and> flag) else n)"

lemmas src_defs = src_flag_def src_num_def

lemma raw_stdin_source_eq: "(if used then update_stdin_source need c else c) =
    c\<lparr>localStdinSource := src_flag used need (localStdinSource c),
      stdinSources := src_num used need (localStdinSource c) (stdinSources c)\<rparr>"
  by (cases used; cases need; cases "localStdinSource c") (simp_all add: update_stdin_source_def src_defs)

lemma raw_stdout_source_eq: "(if used then update_stdout_source need c else c) =
    c\<lparr>localStdoutSource := src_flag used need (localStdoutSource c),
      stdoutSources := src_num used need (localStdoutSource c) (stdoutSources c)\<rparr>"
  by (cases used; cases need; cases "localStdoutSource c") (simp_all add: update_stdout_source_def src_defs)

lemma raw_stderr_source_eq: "(if used then update_stderr_source need c else c) =
    c\<lparr>localStderrSource := src_flag used need (localStderrSource c),
      stderrSources := src_num used need (localStderrSource c) (stderrSources c)\<rparr>"
  by (cases used; cases need; cases "localStderrSource c") (simp_all add: update_stderr_source_def src_defs)

lemma update_input_source_eq: "(if used then update_input_source need c else c) =
    c\<lparr>consoleInputSource := src_flag used need (consoleInputSource c),
      inputSources := src_num used need (consoleInputSource c) (inputSources c)\<rparr>"
  by (cases used; cases need; cases "consoleInputSource c") (simp_all add: update_input_source_def src_defs)

lemma update_output_source_eq: "(if used then update_output_source need c else c) =
    c\<lparr>consoleOutputSource := src_flag used need (consoleOutputSource c),
      outputSources := src_num used need (consoleOutputSource c) (outputSources c)\<rparr>"
  by (cases used; cases need; cases "consoleOutputSource c") (simp_all add: update_output_source_def src_defs)

lemma update_output_eq: "update_output c =
    c\<lparr>localStdoutSource := src_flag (localStdout c) (consoleToLocalOffset c \<noteq> 0) (localStdoutSource c),
      stdoutSources := src_num (localStdout c) (consoleToLocalOffset c \<noteq> 0) (localStdoutSource c) (stdoutSources c),
      localStderrSource := src_flag (\<not> localStdout c) (consoleToLocalOffset c \<noteq> 0) (localStderrSource c),
      stderrSources := src_num (\<not> localStdout c) (consoleToLocalOffset c \<noteq> 0) (localStderrSource c) (stderrSources c)\<rparr>"
  using raw_stdout_source_eq [of True] raw_stderr_source_eq [of True]
  by (cases "localStdout c") (simp_all add: update_output_def src_defs)

lemma update_remote_eq: "update_remote c =
    c\<lparr>consoleWatch := (if console c then room_local c \<or> localToConsoleOffset c \<noteq> 0 else consoleWatch c),
      streamWatch := (if \<not> console c then streamWatch c
        else if room_local c \<or> localToConsoleOffset c \<noteq> 0
        then Some (room_local c, localToConsoleOffset c \<noteq> 0)
        else if consoleWatch c then None else streamWatch c),
      consoleInputSource := src_flag (\<not> console c) (room_local c) (consoleInputSource c),
      inputSources := src_num (\<not> console c) (room_local c) (consoleInputSource c) (inputSources c),
      consoleOutputSource := src_flag (\<not> console c) (localToConsoleOffset c \<noteq> 0) (consoleOutputSource c),
      outputSources := src_num (\<not> console c) (localToConsoleOffset c \<noteq> 0) (consoleOutputSource c) (outputSources c)\<rparr>"
  using update_input_source_eq [of True] update_output_source_eq [of True]
  by (cases "console c") (simp_all add: update_remote_def update_watch_def src_defs)

lemma raw_events_eq: "attached c \<Longrightarrow> update_events c =
    c\<lparr>localStdinSource := src_flag (localStdin c) (room_console c \<and> \<not> localEOF c) (localStdinSource c),
      stdinSources := src_num (localStdin c) (room_console c \<and> \<not> localEOF c) (localStdinSource c) (stdinSources c),
      localStdoutSource := src_flag (localStdout c) (consoleToLocalOffset c \<noteq> 0) (localStdoutSource c),
      stdoutSources := src_num (localStdout c) (consoleToLocalOffset c \<noteq> 0) (localStdoutSource c) (stdoutSources c),
      localStderrSource := src_flag (\<not> localStdout c) (consoleToLocalOffset c \<noteq> 0) (localStderrSource c),
      stderrSources := src_num (\<not> localStdout c) (consoleToLocalOffset c \<noteq> 0) (localStderrSource c) (stderrSources c),
      consoleWatch := (if console c then room_local c \<or> localToConsoleOffset c \<noteq> 0 else consoleWatch c),
      streamWatch := (if \<not> console c then streamWatch c
        else if room_local c \<or> localToConsoleOffset c \<noteq> 0
        then Some (room_local c, localToConsoleOffset c \<noteq> 0)
        else if consoleWatch c then None else streamWatch c),
      consoleInputSource := src_flag (\<not> console c) (room_local c) (consoleInputSource c),
      inputSources := src_num (\<not> console c) (room_local c) (consoleInputSource c) (inputSources c),
      consoleOutputSource := src_flag (\<not> console c) (localToConsoleOffset c \<noteq> 0) (consoleOutputSource c),
      outputSources := src_num (\<not> console c) (localToConsoleOffset c \<noteq> 0) (consoleOutputSource c) (outputSources c)\<rparr>"
  unfolding update_events_def raw_stdin_source_eq update_output_eq update_remote_eq
  by (simp add: Let_def room_local_def)

lemma update_events_idle: "\<not> attached c \<Longrightarrow> update_events c = c"
  by (simp add: update_events_def)

lemma update_events_fields [simp]:
  "base (update_events c) = base c" "attached (update_events c) = attached c"
  "console (update_events c) = console c" "consolePty (update_events c) = consolePty c"
  "consoleInput (update_events c) = consoleInput c" "consoleOutput (update_events c) = consoleOutput c"
  "localStdin (update_events c) = localStdin c" "localStdout (update_events c) = localStdout c"
  "localStderr (update_events c) = localStderr c" "termiosActive (update_events c) = termiosActive c"
  "consoleToLocal (update_events c) = consoleToLocal c"
  "consoleToLocalLength (update_events c) = consoleToLocalLength c"
  "consoleToLocalOffset (update_events c) = consoleToLocalOffset c"
  "localToConsole (update_events c) = localToConsole c"
  "localToConsoleLength (update_events c) = localToConsoleLength c"
  "localToConsoleOffset (update_events c) = localToConsoleOffset c"
  "localEOF (update_events c) = localEOF c" "fromConsole (update_events c) = fromConsole c"
  "toConsole (update_events c) = toConsole c" "stdinRead (update_events c) = stdinRead c"
  "localWritten (update_events c) = localWritten c" "signals (update_events c) = signals c"
  by (cases "attached c"; simp add: raw_events_eq update_events_idle)+

section \<open>Detach and close\<close>

text \<open>
  \<open>detach\<close> gives up its references to the sources without destroying them; the stream's watch it
  removes. \<open>consolePty\<close> stays open: the streams were made without the duty to close it.
\<close>

definition detach :: "term_env \<Rightarrow> raw_console \<Rightarrow> raw_outcome" where
  "detach E c =
     (if \<not> attached c then (c, None)
      else
        case (if localStdin c then stop_term E c else (c, None)) of
          (c, Some e) \<Rightarrow> (c, Some e)
        | (c, None) \<Rightarrow>
            (c\<lparr>consoleToLocalOffset := 0, consoleToLocalLength := 0,
               localToConsoleOffset := 0, localToConsoleLength := 0,
               consoleToLocal := None, localToConsole := None,
               streamWatch := (if consoleWatch c then None else streamWatch c),
               localStdinSource := False, localStdoutSource := False, localStderrSource := False,
               consoleWatch := False, consoleInputSource := False, consoleOutputSource := False,
               console := False, consoleInput := False, consoleOutput := False,
               localStdin := False, localStdout := False, localStderr := False,
               attached := False\<rparr>, None))"

definition close :: "term_env \<Rightarrow> bool \<Rightarrow> raw_console \<Rightarrow> raw_console" where
  "close E err c =
     (let c = fst (detach E c) in c\<lparr>signals := signals c @ [Sig_closed err]\<rparr>)"

definition raw_finalize :: "term_env \<Rightarrow> raw_console \<Rightarrow> raw_console" where
  "raw_finalize E c = (if attached c then fst (detach E c) else c)"

section \<open>The stream callback\<close>

datatype raw_flow = Raw_write | Raw_done | Raw_cleanup

definition stream_read :: "term_env \<Rightarrow> receive_result \<Rightarrow> raw_console \<Rightarrow> raw_flow \<times> raw_console" where
  "stream_read E ret c =
     (case ret of
        Receive_block \<Rightarrow> (Raw_done, c)
      | Receive_error \<Rightarrow> (Raw_cleanup, close E True c)
      | Receive_bytes bs \<Rightarrow>
          let got = take (consoleToLocalLength c - consoleToLocalOffset c) bs in
          if got = [] then (Raw_done, close E False c)
          else (Raw_write,
                c\<lparr>consoleToLocal :=
                    map_option (\<lambda>b. buf_write b (consoleToLocalOffset c) got) (consoleToLocal c),
                  consoleToLocalOffset := consoleToLocalOffset c + length got,
                  fromConsole := fromConsole c @ got\<rparr>))"

text \<open>What was accepted leaves the front of a buffer (\<open>memmove\<close>).\<close>

definition buf_shift :: "nat \<Rightarrow> nat \<Rightarrow> byte list \<Rightarrow> byte list" where
  "buf_shift n used b = (if used = n then b else buf_write b 0 (buf_read b n (used - n)))"

definition stream_send :: "term_env \<Rightarrow> write_result \<Rightarrow> raw_console \<Rightarrow> raw_flow \<times> raw_console" where
  "stream_send E ret c =
     (case ret of
        Write_error \<Rightarrow> (Raw_cleanup, close E True c)
      | Wrote n \<Rightarrow>
          let data = (case localToConsole c of None \<Rightarrow> [] | Some b \<Rightarrow>
                buf_read b 0 (localToConsoleOffset c));
              sent = take n data
          in (Raw_done,
              c\<lparr>localToConsole :=
                  map_option (buf_shift (length sent) (localToConsoleOffset c)) (localToConsole c),
                localToConsoleOffset := localToConsoleOffset c - length sent,
                toConsole := toConsole c @ sent\<rparr>))"

definition stream_readwrite ::
  "term_env \<Rightarrow> bool \<Rightarrow> bool \<Rightarrow> receive_result \<Rightarrow> write_result \<Rightarrow> raw_console \<Rightarrow> raw_console" where
  "stream_readwrite E readable writable rret wret c =
     (let (flow, c) = (if readable then stream_read E rret c else (Raw_write, c));
          (flow, c) =
            (if flow = Raw_write
             then (if writable then stream_send E wret c else (Raw_done, c))
             else (flow, c))
      in if flow = Raw_done
         then update_events (c\<lparr>consoleWatch := False, streamWatch := None\<rparr>)
         else c\<lparr>streamWatch := None\<rparr>)"

section \<open>The callbacks of the sources\<close>

text \<open>
  \<open>g_pollable_input_stream_read_nonblocking\<close> and its counterpart return 0 without a system call when the
  buffer is NULL or the size is 0.
\<close>

definition read_nonblocking :: "byte list option \<Rightarrow> nat \<Rightarrow> read_result \<Rightarrow> read_result" where
  "read_nonblocking buf room ret =
     (if buf = None \<or> room = 0 then Read_bytes []
      else case ret of Read_bytes bs \<Rightarrow> Read_bytes (take room bs) | Read_error \<Rightarrow> Read_error)"

definition write_nonblocking :: "byte list option \<Rightarrow> nat \<Rightarrow> write_result \<Rightarrow> (byte list) option" where
  "write_nonblocking buf used ret =
     (case buf of
        None \<Rightarrow> Some []
      | Some b \<Rightarrow>
          if used = 0 then Some []
          else case ret of Wrote n \<Rightarrow> Some (take n (buf_read b 0 used)) | Write_error \<Rightarrow> None)"

text \<open>
  Each returns FALSE: the source that fired leaves the main context when the callback is done.
\<close>

definition local_read :: "term_env \<Rightarrow> read_result \<Rightarrow> raw_console \<Rightarrow> raw_console" where
  "local_read E ret c =
     (let c =
        (case read_nonblocking (localToConsole c) (localToConsoleLength c - localToConsoleOffset c) ret of
           Read_error \<Rightarrow> close E True c
         | Read_bytes got \<Rightarrow>
             let c = c\<lparr>localToConsole :=
                         map_option (\<lambda>b. buf_write b (localToConsoleOffset c) got) (localToConsole c),
                       stdinRead := stdinRead c @ got\<rparr>
             in if got \<noteq> [] \<and> hd got = CONTROL (get_escape (base c))
                then close E False c
                else
                  let c = (if got = [] then c\<lparr>localEOF := True\<rparr> else c) in
                  update_events
                    (c\<lparr>localToConsoleOffset := localToConsoleOffset c + length got,
                       localStdinSource := False\<rparr>))
      in c\<lparr>stdinSources := stdinSources c - 1\<rparr>)"

text \<open>
  The callback of both local outputs; whichever fired, it is \<open>localStdoutSource\<close> that is cleared.
\<close>

definition local_write :: "term_env \<Rightarrow> bool \<Rightarrow> write_result \<Rightarrow> raw_console \<Rightarrow> raw_console" where
  "local_write E to_stderr ret c =
     (let c =
        (case write_nonblocking (consoleToLocal c) (consoleToLocalOffset c) ret of
           None \<Rightarrow> close E True c
         | Some sent \<Rightarrow>
             update_events
               (c\<lparr>consoleToLocal :=
                    map_option (buf_shift (length sent) (consoleToLocalOffset c)) (consoleToLocal c),
                  consoleToLocalOffset := consoleToLocalOffset c - length sent,
                  localWritten := localWritten c @ sent,
                  localStdoutSource := False\<rparr>))
      in if to_stderr then c\<lparr>stderrSources := stderrSources c - 1\<rparr>
         else c\<lparr>stdoutSources := stdoutSources c - 1\<rparr>)"

definition console_read :: "term_env \<Rightarrow> read_result \<Rightarrow> raw_console \<Rightarrow> raw_console" where
  "console_read E ret c =
     (let c =
        (case read_nonblocking (consoleToLocal c) (consoleToLocalLength c - consoleToLocalOffset c) ret of
           Read_error \<Rightarrow> close E True c
         | Read_bytes got \<Rightarrow>
             let c = c\<lparr>consoleToLocal :=
                         map_option (\<lambda>b. buf_write b (consoleToLocalOffset c) got) (consoleToLocal c),
                       fromConsole := fromConsole c @ got\<rparr>
             in if got = [] then close E False c
                else if hd got = CONTROL (get_escape (base c)) then close E False c
                else update_events
                       (c\<lparr>consoleToLocalOffset := consoleToLocalOffset c + length got,
                          consoleInputSource := False\<rparr>))
      in c\<lparr>inputSources := inputSources c - 1\<rparr>)"

text \<open>As written: it is the buffer \<open>consoleToLocal\<close> that is sent to the console.\<close>

definition console_write :: "term_env \<Rightarrow> write_result \<Rightarrow> raw_console \<Rightarrow> raw_console" where
  "console_write E ret c =
     (let c =
        (case write_nonblocking (consoleToLocal c) (consoleToLocalOffset c) ret of
           None \<Rightarrow> close E True c
         | Some sent \<Rightarrow>
             update_events
               (c\<lparr>consoleToLocal :=
                    map_option (buf_shift (length sent) (consoleToLocalOffset c)) (consoleToLocal c),
                  consoleToLocalOffset := consoleToLocalOffset c - length sent,
                  toConsole := toConsole c @ sent,
                  consoleOutputSource := False\<rparr>))
      in c\<lparr>outputSources := outputSources c - 1\<rparr>)"

section \<open>Attach\<close>

text \<open>
  The walk over the domain's devices: the first pseudo terminal of a character device with the alias
  ends it, even when the terminal has no path.
\<close>

fun find_pty :: "string option \<Rightarrow> raw_device list \<Rightarrow> string option" where
  "find_pty name [] = None"
| "find_pty name (d # ds) =
     (if dev_alias d \<noteq> None \<and> dev_alias d = name then
        (case dev_chardev d of
           Some (Source_pty path) \<Rightarrow> path
         | _ \<Rightarrow> find_pty name ds)
      else find_pty name ds)"

definition open_remote :: "raw_env \<Rightarrow> raw_console \<Rightarrow> raw_outcome" where
  "open_remote V c =
     (let dmn = domain (base c); name = devname (base c) in
      if \<not> get_direct (base c) then
        (if re_open_console V dmn name then (c\<lparr>console := True\<rparr>, None)
         else (c\<lparr>console := False\<rparr>, Some Raw_open_console))
      else
        (case re_devices V dmn of
           None \<Rightarrow> (c, Some Raw_get_config)
         | Some [] \<Rightarrow> (c, Some Raw_no_devices)
         | Some devices \<Rightarrow>
             (case find_pty name devices of
                None \<Rightarrow> (c, Some (Raw_no_device name))
              | Some pty \<Rightarrow>
                  let c = c\<lparr>consolePty := re_open V pty\<rparr> in
                  if re_open V pty < 0 then (c, Some (Raw_open_pty pty))
                  else (c\<lparr>consoleInput := True, consoleOutput := True\<rparr>, None))))"

definition BUFFER_LENGTH :: nat where "BUFFER_LENGTH = 4096"

text \<open>The logs of the streams start again; \<open>localEOF\<close> keeps the value of an earlier attachment.\<close>

definition attach :: "raw_env \<Rightarrow> bool \<Rightarrow> bool \<Rightarrow> raw_console \<Rightarrow> raw_outcome" where
  "attach V has_stdin has_stdout c =
     (if attached c then (c, Some Raw_already_attached)
      else
        case (if has_stdin then start_term (re_term V) c else (c, None)) of
          (c, Some e) \<Rightarrow> (c, Some e)
        | (c, None) \<Rightarrow>
            let c = c\<lparr>localStdin := has_stdin, localStdout := has_stdout, localStderr := True\<rparr> in
            (case open_remote V c of
               (c, Some e) \<Rightarrow>
                 (if has_stdin then fst (stop_term (re_term V) c) else c, Some e)
             | (c, None) \<Rightarrow>
                 let c = c\<lparr>consoleToLocalLength := BUFFER_LENGTH, consoleToLocal := Some []\<rparr>;
                     c = (if has_stdin
                          then c\<lparr>localToConsoleLength := BUFFER_LENGTH, localToConsole := Some []\<rparr>
                          else c);
                     c = c\<lparr>attached := True, fromConsole := [], toConsole := [],
                           stdinRead := [], localWritten := []\<rparr>
                 in (update_events c, None)))"

section \<open>The main loop\<close>

text \<open>
  A step of the main context: the watch or a source attached to it is dispatched with whatever the
  system answers, or the owner detaches the console.
\<close>

inductive raw_step :: "term_env \<Rightarrow> raw_console \<Rightarrow> raw_console \<Rightarrow> bool"
  for E where
  stream: "streamWatch c = Some (r0, w0) \<Longrightarrow> (r \<longrightarrow> r0) \<Longrightarrow> (w \<longrightarrow> w0) \<Longrightarrow> r \<or> w \<Longrightarrow>
     raw_step E c (stream_readwrite E r w rret wret c)"
| stdin: "0 < stdinSources c \<Longrightarrow> raw_step E c (local_read E rd c)"
| stdout: "0 < stdoutSources c \<Longrightarrow> raw_step E c (local_write E False ret c)"
| stderr: "0 < stderrSources c \<Longrightarrow> raw_step E c (local_write E True ret c)"
| pty_in: "0 < inputSources c \<Longrightarrow> raw_step E c (console_read E rd c)"
| pty_out: "0 < outputSources c \<Longrightarrow> raw_step E c (console_write E ret c)"
| detach: "raw_step E c (fst (detach E c))"

text \<open>One attachment of a new console.\<close>

inductive raw_run :: "raw_env \<Rightarrow> bool \<Rightarrow> bool \<Rightarrow> bool \<Rightarrow> raw_console \<Rightarrow> bool"
  for V has_stdin has_stdout where
  start: "attach V has_stdin has_stdout (raw_init obj) = (c, None) \<Longrightarrow>
     raw_run V has_stdin has_stdout (direct obj) c"
| step: "raw_run V has_stdin has_stdout d c \<Longrightarrow> raw_step (re_term V) c c' \<Longrightarrow>
     raw_run V has_stdin has_stdout d c'"

section \<open>The interface\<close>

text \<open>The raw console is a console.\<close>

lemma open_remote_attached: "open_remote V c = (d, r) \<Longrightarrow> attached d = attached c"
  by (auto simp: open_remote_def Let_def split: if_splits option.splits list.splits)

interpretation raw: console_class "attach V" "detach (re_term V)" attached Raw_already_attached
  for V
proof
  fix c d i u e
  show "attached c \<Longrightarrow> attach V i u c = (c, Some Raw_already_attached)"
    by (simp add: attach_def)
  show "\<not> attached c \<Longrightarrow> attach V i u c = (d, None) \<Longrightarrow> attached d"
    by (auto simp: attach_def Let_def split: prod.splits option.splits)
  show "\<not> attached c \<Longrightarrow> attach V i u c = (d, Some e) \<Longrightarrow> \<not> attached d"
    by (auto simp: attach_def start_term_def stop_term_def Let_def dest!: open_remote_attached
        split: prod.splits option.splits if_splits)
  show "\<not> attached c \<Longrightarrow> detach (re_term V) c = (c, None)"
    by (simp add: detach_def)
  show "detach (re_term V) c = (d, None) \<Longrightarrow> \<not> attached d"
    by (auto simp: detach_def split: prod.splits option.splits if_splits)
  show "detach (re_term V) c = (d, Some e) \<Longrightarrow> attached c \<and> d = c"
    by (auto simp: detach_def stop_term_def split: prod.splits option.splits if_splits)
qed

end
