(* ===== verification/Console_Raw_Claims.thy ===== *)
theory Console_Raw_Claims
  imports Console_Raw "HOL-Library.Sublist"
begin

text \<open>
  What the raw console does with the bytes of both directions: an invariant of everything one attachment
  can reach, for the stream and for the pseudo terminal, and the consequences of the two slips in it.
\<close>

section \<open>Buffers\<close>

definition pending_local :: "raw_console \<Rightarrow> byte list" where
  "pending_local c =
     (case consoleToLocal c of None \<Rightarrow> [] | Some b \<Rightarrow> buf_read b 0 (consoleToLocalOffset c))"

definition pending_console :: "raw_console \<Rightarrow> byte list" where
  "pending_console c =
     (case localToConsole c of None \<Rightarrow> [] | Some b \<Rightarrow> buf_read b 0 (localToConsoleOffset c))"

lemma buf_read_zero_append:
  "buf_read (buf_write b off got) 0 (off + length got) = buf_read b 0 off @ got"
  by (simp add: buf_read_append buf_simps)

lemma buf_shift_read:
  assumes "n \<le> used"
  shows "buf_read (buf_shift n used b) 0 (used - n) = drop n (buf_read b 0 used)"
  using assms by (auto simp: buf_shift_def buf_simps buf_read_drop)

lemma length_buf_shift: "length b \<le> L \<Longrightarrow> used \<le> L \<Longrightarrow> length (buf_shift n used b) \<le> L"
  by (auto simp: buf_shift_def length_buf_write)

lemma append_in_shuffles: "ys @ zs \<in> shuffles zs ys"
  by (induction ys) (auto intro: Cons_in_shuffles_rightI)

lemma shuffles_append_left: "s \<in> shuffles xs ys \<Longrightarrow> s @ zs \<in> shuffles (xs @ zs) ys"
proof (induction xs ys arbitrary: s rule: shuffles.induct)
  case (3 x xs y ys)
  then consider s' where "s = x # s'" "s' \<in> shuffles xs (y # ys)"
    | s' where "s = y # s'" "s' \<in> shuffles (x # xs) ys" by auto
  then show ?case using 3 by cases (auto intro: Cons_in_shuffles_leftI Cons_in_shuffles_rightI)
qed (simp_all add: append_in_shuffles)

lemma shuffles_append_right: "s \<in> shuffles xs ys \<Longrightarrow> s @ zs \<in> shuffles xs (ys @ zs)"
  using shuffles_append_left [of s ys xs zs] by (simp add: shuffles_commutes)

section \<open>The invariant\<close>

text \<open>
  The shape of the private data: for an attachment with or without a local stdin (\<open>i\<close>) and stdout (\<open>u\<close>),
  direct or not (\<open>d\<close>), the fields that must be set, the buffers inside their arrays, and everything
  cleared once detached.
\<close>

definition buf_ok :: "byte list option \<Rightarrow> bool" where
  "buf_ok b \<longleftrightarrow> (case b of None \<Rightarrow> False | Some b \<Rightarrow> length b \<le> BUFFER_LENGTH)"

definition raw_open :: "bool \<Rightarrow> bool \<Rightarrow> bool \<Rightarrow> raw_console \<Rightarrow> bool" where
  "raw_open i u d c \<longleftrightarrow>
     localStdin c = i \<and> localStdout c = u \<and> localStderr c \<and>
     console c = (\<not> d) \<and> consoleInput c = d \<and> consoleOutput c = d \<and>
     consoleToLocalLength c = BUFFER_LENGTH \<and> consoleToLocalOffset c \<le> BUFFER_LENGTH \<and>
     buf_ok (consoleToLocal c) \<and>
     localToConsoleLength c = (if i then BUFFER_LENGTH else 0) \<and>
     localToConsoleOffset c \<le> localToConsoleLength c \<and>
     (if i then buf_ok (localToConsole c) else localToConsole c = None)"

definition raw_idle :: "raw_console \<Rightarrow> bool" where
  "raw_idle c \<longleftrightarrow>
     consoleToLocal c = None \<and> localToConsole c = None \<and>
     consoleToLocalLength c = 0 \<and> consoleToLocalOffset c = 0 \<and>
     localToConsoleLength c = 0 \<and> localToConsoleOffset c = 0 \<and>
     \<not> localStdin c \<and> \<not> localStdout c \<and> \<not> localStderr c \<and>
     \<not> console c \<and> \<not> consoleInput c \<and> \<not> consoleOutput c \<and>
     \<not> localStdinSource c \<and> \<not> localStdoutSource c \<and> \<not> localStderrSource c \<and>
     \<not> consoleWatch c \<and> \<not> consoleInputSource c \<and> \<not> consoleOutputSource c"

definition raw_wf :: "bool \<Rightarrow> bool \<Rightarrow> bool \<Rightarrow> raw_console \<Rightarrow> bool" where
  "raw_wf i u d c \<longleftrightarrow>
     direct (base c) = d \<and> (if attached c then raw_open i u d c else raw_idle c)"

text \<open>Which sources may be attached to the main context.\<close>

definition stdin_live :: "raw_console \<Rightarrow> bool" where
  "stdin_live c \<longleftrightarrow> localStdinSource c \<and> room_console c \<and> \<not> localEOF c"

definition input_live :: "raw_console \<Rightarrow> bool" where
  "input_live c \<longleftrightarrow> consoleInputSource c \<and> room_local c"

definition raw_sources :: "bool \<Rightarrow> raw_console \<Rightarrow> bool" where
  "raw_sources d c \<longleftrightarrow>
     (attached c \<longrightarrow> stdinSources c \<le> of_bool (stdin_live c)) \<and>
     (if d then streamWatch c = None \<and> (attached c \<longrightarrow> inputSources c \<le> of_bool (input_live c))
      else inputSources c = 0 \<and> outputSources c = 0)"

text \<open>
  Where the bytes received from the console and read from stdin are. Bytes that were read but not
  queued (\<open>r\<close>: the escape character and what came with it) stop the source for good.
\<close>

definition from_ok :: "bool \<Rightarrow> raw_console \<Rightarrow> bool" where
  "from_ok d c \<longleftrightarrow>
     (\<exists>s r. (if d then s \<in> shuffles (localWritten c) (toConsole c) else s = localWritten c) \<and>
        fromConsole c = s @ pending_local c @ r \<and>
        (r \<noteq> [] \<longrightarrow> attached c \<longrightarrow> d \<and> inputSources c = 0 \<and> input_live c))"

definition read_ok :: "bool \<Rightarrow> raw_console \<Rightarrow> bool" where
  "read_ok d c \<longleftrightarrow> length (stdinRead c) \<le> BUFFER_LENGTH + length (toConsole c) * of_bool (\<not> d) \<and>
     (\<exists>r. stdinRead c = (if d then [] else toConsole c) @ pending_console c @ r \<and>
        (r \<noteq> [] \<longrightarrow> attached c \<longrightarrow> stdinSources c = 0 \<and> stdin_live c))"

definition raw_inv :: "bool \<Rightarrow> bool \<Rightarrow> bool \<Rightarrow> raw_console \<Rightarrow> bool" where
  "raw_inv i u d c \<longleftrightarrow> raw_wf i u d c \<and> raw_sources d c \<and> from_ok d c \<and> read_ok d c"

lemma raw_invI:
  "raw_wf i u d c \<Longrightarrow> raw_sources d c \<Longrightarrow> from_ok d c \<Longrightarrow> read_ok d c \<Longrightarrow> raw_inv i u d c"
  by (simp add: raw_inv_def)

lemma from_ok_cong:
  assumes "localWritten c' = localWritten c" "toConsole c' = toConsole c" "fromConsole c' = fromConsole c"
    "pending_local c' = pending_local c" "attached c' = attached c" "inputSources c' = inputSources c"
    "input_live c' = input_live c"
  shows "from_ok d c' = from_ok d c"
  by (simp only: from_ok_def assms)

lemma read_ok_cong:
  assumes "toConsole c' = toConsole c" "stdinRead c' = stdinRead c" "pending_console c' = pending_console c"
    "attached c' = attached c" "stdinSources c' = stdinSources c" "stdin_live c' = stdin_live c"
  shows "read_ok d c' = read_ok d c"
  by (simp only: read_ok_def assms)

lemma read_okI:
  assumes "stdinRead c = (if d then [] else toConsole c) @ pending_console c @ r"
    "length (pending_console c) + length r \<le> BUFFER_LENGTH"
    "r \<noteq> [] \<Longrightarrow> attached c \<Longrightarrow> stdinSources c = 0 \<and> stdin_live c"
  shows "read_ok d c"
  using assms unfolding read_ok_def by (intro conjI exI [of _ r]) auto

lemma buf_ok_shift: "buf_ok b \<Longrightarrow> used \<le> BUFFER_LENGTH \<Longrightarrow> buf_ok (map_option (buf_shift n used) b)"
  by (auto simp: buf_ok_def length_buf_shift split: option.splits)

lemma buf_ok_write:
  "buf_ok b \<Longrightarrow> off + length got \<le> BUFFER_LENGTH \<Longrightarrow> buf_ok (map_option (\<lambda>b. buf_write b off got) b)"
  by (auto simp: buf_ok_def length_buf_write split: option.splits)

lemma take_drop_length: "take n xs @ drop (length (take n xs)) xs = xs"
  by (cases "n \<le> length xs") simp_all

text \<open>The invariant looks at the sources through these fields only.\<close>

lemma pending_update [simp]:
  "pending_local (update_events c) = pending_local c"
  "pending_console (update_events c) = pending_console c"
  "room_local (update_events c) = room_local c" "room_console (update_events c) = room_console c"
  by (simp_all add: pending_local_def pending_console_def room_local_def room_console_def
      cong: option.case_cong)

lemma sources_update:
  assumes "raw_wf i u d c" "raw_sources d c"
  shows "raw_sources d (update_events c)"
    and "attached c \<Longrightarrow> stdinSources c = 0 \<and> stdin_live c \<Longrightarrow>
      stdinSources (update_events c) = 0 \<and> stdin_live (update_events c)"
    and "attached c \<Longrightarrow> d \<Longrightarrow> inputSources c = 0 \<and> input_live c \<Longrightarrow>
      inputSources (update_events c) = 0 \<and> input_live (update_events c)"
proof -
  show "raw_sources d (update_events c)"
    using assms
    by (cases "attached c")
      (auto simp: raw_events_eq update_events_idle raw_sources_def raw_wf_def raw_open_def src_defs
        stdin_live_def input_live_def room_local_def room_console_def of_bool_def split: if_splits)
qed (simp_all add: raw_events_eq src_defs stdin_live_def input_live_def room_local_def
    room_console_def)

lemma wf_update: "raw_wf i u d c \<Longrightarrow> raw_wf i u d (update_events c)"
  by (cases "attached c") (simp_all add: raw_wf_def raw_open_def update_events_idle)

lemma inv_update:
  assumes "raw_inv i u d c"
  shows "raw_inv i u d (update_events c)"
proof (rule raw_invI)
  have wf: "raw_wf i u d c" and src: "raw_sources d c" and "from_ok d c" and "read_ok d c"
    using assms by (simp_all add: raw_inv_def)
  show "raw_wf i u d (update_events c)" using wf by (rule wf_update)
  show "raw_sources d (update_events c)" using wf src by (rule sources_update)
  show "from_ok d (update_events c)" using \<open>from_ok d c\<close> sources_update(3) [OF wf src]
    unfolding from_ok_def by (simp only: update_events_fields pending_update) blast
  show "read_ok d (update_events c)" using \<open>read_ok d c\<close> sources_update(2) [OF wf src]
    unfolding read_ok_def by (simp only: update_events_fields pending_update) blast
qed

section \<open>Detach and close\<close>

lemma inv_detach:
  assumes "raw_inv i u d c"
  shows "raw_inv i u d (fst (detach E c))"
proof (cases "snd (detach E c)")
  case (Some e)
  then show ?thesis using assms by (auto simp: detach_def stop_term_def split: if_splits)
next
  case None
  then show ?thesis using assms
    by (auto simp: detach_def stop_term_def raw_inv_def raw_wf_def raw_idle_def raw_sources_def
        from_ok_def read_ok_def pending_local_def pending_console_def split: if_splits)
qed

lemma signals_fields [simp]:
  "pending_local (c\<lparr>signals := s\<rparr>) = pending_local c"
  "pending_console (c\<lparr>signals := s\<rparr>) = pending_console c"
  "stdin_live (c\<lparr>signals := s\<rparr>) = stdin_live c" "input_live (c\<lparr>signals := s\<rparr>) = input_live c"
  "raw_open i u d (c\<lparr>signals := s\<rparr>) = raw_open i u d c" "raw_idle (c\<lparr>signals := s\<rparr>) = raw_idle c"
  by (simp_all add: pending_local_def pending_console_def stdin_live_def input_live_def
      room_local_def room_console_def raw_open_def raw_idle_def cong: option.case_cong)

lemma inv_signals: "raw_inv i u d (c\<lparr>signals := s\<rparr>) = raw_inv i u d c"
  by (simp add: raw_inv_def raw_wf_def raw_sources_def from_ok_def read_ok_def)

lemma inv_close: "raw_inv i u d c \<Longrightarrow> raw_inv i u d (close E e c)"
  by (simp add: close_def Let_def inv_detach inv_signals)

section \<open>Moving bytes\<close>

lemma pending_local_push:
  assumes "consoleToLocal c = Some b" "consoleToLocal c' = Some (buf_write b (consoleToLocalOffset c) got)"
    "consoleToLocalOffset c' = consoleToLocalOffset c + length got"
  shows "pending_local c' = pending_local c @ got"
  using assms by (simp add: pending_local_def buf_read_zero_append)

lemma pending_local_shift:
  assumes "consoleToLocal c = Some b" "n \<le> consoleToLocalOffset c"
    "consoleToLocal c' = Some (buf_shift n (consoleToLocalOffset c) b)"
    "consoleToLocalOffset c' = consoleToLocalOffset c - n"
  shows "pending_local c' = drop n (pending_local c)"
  using assms by (simp add: pending_local_def buf_shift_read)

lemma pending_console_push:
  assumes "localToConsole c = Some b" "localToConsole c' = Some (buf_write b (localToConsoleOffset c) got)"
    "localToConsoleOffset c' = localToConsoleOffset c + length got"
  shows "pending_console c' = pending_console c @ got"
  using assms by (simp add: pending_console_def buf_read_zero_append)

lemma pending_console_shift:
  assumes "localToConsole c = Some b" "n \<le> localToConsoleOffset c"
    "localToConsole c' = Some (buf_shift n (localToConsoleOffset c) b)"
    "localToConsoleOffset c' = localToConsoleOffset c - n"
  shows "pending_console c' = drop n (pending_console c)"
  using assms by (simp add: pending_console_def buf_shift_read)

lemma length_pending:
  "raw_wf i u d c \<Longrightarrow> length (pending_local c) = consoleToLocalOffset c"
  "raw_wf i u d c \<Longrightarrow> length (pending_console c) = localToConsoleOffset c"
  by (auto simp: raw_wf_def raw_open_def raw_idle_def pending_local_def pending_console_def buf_ok_def
      split: if_splits option.splits)

lemma wf_bounds:
  assumes "raw_wf i u d c"
  shows "localToConsoleOffset c \<le> localToConsoleLength c" "localToConsoleLength c \<le> BUFFER_LENGTH"
    "localToConsoleOffset c \<le> BUFFER_LENGTH"
  using assms by (cases "attached c"; cases i; simp add: raw_wf_def raw_open_def raw_idle_def)+

text \<open>Fields of the world that the invariant does not look at.\<close>

lemma stdout_fields [simp]:
  "pending_local (c\<lparr>stdoutSources := n\<rparr>) = pending_local c" "pending_console (c\<lparr>stdoutSources := n\<rparr>) = pending_console c"
  "stdin_live (c\<lparr>stdoutSources := n\<rparr>) = stdin_live c" "input_live (c\<lparr>stdoutSources := n\<rparr>) = input_live c"
  "raw_open i u d (c\<lparr>stdoutSources := n\<rparr>) = raw_open i u d c" "raw_idle (c\<lparr>stdoutSources := n\<rparr>) = raw_idle c"
  by (simp_all add: pending_local_def pending_console_def stdin_live_def input_live_def
      room_local_def room_console_def raw_open_def raw_idle_def cong: option.case_cong)

lemma stderr_fields [simp]:
  "pending_local (c\<lparr>stderrSources := n\<rparr>) = pending_local c" "pending_console (c\<lparr>stderrSources := n\<rparr>) = pending_console c"
  "stdin_live (c\<lparr>stderrSources := n\<rparr>) = stdin_live c" "input_live (c\<lparr>stderrSources := n\<rparr>) = input_live c"
  "raw_open i u d (c\<lparr>stderrSources := n\<rparr>) = raw_open i u d c" "raw_idle (c\<lparr>stderrSources := n\<rparr>) = raw_idle c"
  by (simp_all add: pending_local_def pending_console_def stdin_live_def input_live_def
      room_local_def room_console_def raw_open_def raw_idle_def cong: option.case_cong)

lemma watch_fields [simp]:
  "pending_local (c\<lparr>streamWatch := w\<rparr>) = pending_local c" "pending_console (c\<lparr>streamWatch := w\<rparr>) = pending_console c"
  "stdin_live (c\<lparr>streamWatch := w\<rparr>) = stdin_live c" "input_live (c\<lparr>streamWatch := w\<rparr>) = input_live c"
  "raw_open i u d (c\<lparr>streamWatch := w\<rparr>) = raw_open i u d c" "raw_idle (c\<lparr>streamWatch := w\<rparr>) = raw_idle c"
  by (simp_all add: pending_local_def pending_console_def stdin_live_def input_live_def
      room_local_def room_console_def raw_open_def raw_idle_def cong: option.case_cong)

lemma other_fields [simp]:
  "raw_inv i u d (c\<lparr>stdoutSources := n\<rparr>) = raw_inv i u d c"
  "raw_inv i u d (c\<lparr>stderrSources := n\<rparr>) = raw_inv i u d c"
  by (simp_all add: raw_inv_def raw_wf_def raw_sources_def from_ok_def read_ok_def)

lemma inv_no_watch: "raw_inv i u d c \<Longrightarrow> raw_inv i u d (c\<lparr>streamWatch := None\<rparr>)"
  by (simp add: raw_inv_def raw_wf_def raw_sources_def from_ok_def read_ok_def split: if_splits)

lemma watch_flag_fields [simp]:
  "pending_local (c\<lparr>consoleWatch := w\<rparr>) = pending_local c"
  "pending_console (c\<lparr>consoleWatch := w\<rparr>) = pending_console c"
  "stdin_live (c\<lparr>consoleWatch := w\<rparr>) = stdin_live c"
  "input_live (c\<lparr>consoleWatch := w\<rparr>) = input_live c"
  "raw_open i u d (c\<lparr>consoleWatch := w\<rparr>) = raw_open i u d c"
  "raw_idle c \<Longrightarrow> raw_idle (c\<lparr>consoleWatch := False\<rparr>)"
  by (simp_all add: pending_local_def pending_console_def stdin_live_def input_live_def
      room_local_def room_console_def raw_open_def raw_idle_def cong: option.case_cong)

lemma inv_no_watch_flag: "raw_inv i u d c \<Longrightarrow> raw_inv i u d (c\<lparr>consoleWatch := False\<rparr>)"
  by (simp add: raw_inv_def raw_wf_def raw_sources_def from_ok_def read_ok_def split: if_splits)

lemma stdout_flag_fields [simp]:
  "pending_local (c\<lparr>localStdoutSource := False\<rparr>) = pending_local c" "pending_console (c\<lparr>localStdoutSource := False\<rparr>) = pending_console c"
  "stdin_live (c\<lparr>localStdoutSource := False\<rparr>) = stdin_live c" "input_live (c\<lparr>localStdoutSource := False\<rparr>) = input_live c"
  "raw_open i u d (c\<lparr>localStdoutSource := False\<rparr>) = raw_open i u d c" "raw_idle c \<Longrightarrow> raw_idle (c\<lparr>localStdoutSource := False\<rparr>)"
  by (simp_all add: pending_local_def pending_console_def stdin_live_def input_live_def
      room_local_def room_console_def raw_open_def raw_idle_def cong: option.case_cong)

lemma output_flag_fields [simp]:
  "pending_local (c\<lparr>consoleOutputSource := False\<rparr>) = pending_local c" "pending_console (c\<lparr>consoleOutputSource := False\<rparr>) = pending_console c"
  "stdin_live (c\<lparr>consoleOutputSource := False\<rparr>) = stdin_live c" "input_live (c\<lparr>consoleOutputSource := False\<rparr>) = input_live c"
  "raw_open i u d (c\<lparr>consoleOutputSource := False\<rparr>) = raw_open i u d c" "raw_idle c \<Longrightarrow> raw_idle (c\<lparr>consoleOutputSource := False\<rparr>)"
  by (simp_all add: pending_local_def pending_console_def stdin_live_def input_live_def
      room_local_def room_console_def raw_open_def raw_idle_def cong: option.case_cong)

lemma output_num_fields [simp]:
  "pending_local (c\<lparr>outputSources := n\<rparr>) = pending_local c" "pending_console (c\<lparr>outputSources := n\<rparr>) = pending_console c"
  "stdin_live (c\<lparr>outputSources := n\<rparr>) = stdin_live c" "input_live (c\<lparr>outputSources := n\<rparr>) = input_live c"
  "raw_open i u d (c\<lparr>outputSources := n\<rparr>) = raw_open i u d c" "raw_idle (c\<lparr>outputSources := n\<rparr>) = raw_idle c"
  by (simp_all add: pending_local_def pending_console_def stdin_live_def input_live_def
      room_local_def room_console_def raw_open_def raw_idle_def cong: option.case_cong)

lemma stdin_num_fields [simp]:
  "pending_local (c\<lparr>stdinSources := n\<rparr>) = pending_local c" "pending_console (c\<lparr>stdinSources := n\<rparr>) = pending_console c"
  "stdin_live (c\<lparr>stdinSources := n\<rparr>) = stdin_live c" "input_live (c\<lparr>stdinSources := n\<rparr>) = input_live c"
  "raw_open i u d (c\<lparr>stdinSources := n\<rparr>) = raw_open i u d c" "raw_idle (c\<lparr>stdinSources := n\<rparr>) = raw_idle c"
  by (simp_all add: pending_local_def pending_console_def stdin_live_def input_live_def
      room_local_def room_console_def raw_open_def raw_idle_def cong: option.case_cong)

lemma input_num_fields [simp]:
  "pending_local (c\<lparr>inputSources := n\<rparr>) = pending_local c" "pending_console (c\<lparr>inputSources := n\<rparr>) = pending_console c"
  "stdin_live (c\<lparr>inputSources := n\<rparr>) = stdin_live c" "input_live (c\<lparr>inputSources := n\<rparr>) = input_live c"
  "raw_open i u d (c\<lparr>inputSources := n\<rparr>) = raw_open i u d c" "raw_idle (c\<lparr>inputSources := n\<rparr>) = raw_idle c"
  by (simp_all add: pending_local_def pending_console_def stdin_live_def input_live_def
      room_local_def room_console_def raw_open_def raw_idle_def cong: option.case_cong)

lemma inv_flags:
  "raw_inv i u d c \<Longrightarrow> raw_inv i u d (c\<lparr>localStdoutSource := False\<rparr>)"
  "raw_inv i u d c \<Longrightarrow> raw_inv i u d (c\<lparr>consoleOutputSource := False\<rparr>)"
  "raw_inv i u True (c\<lparr>outputSources := n\<rparr>) = raw_inv i u True c"
  by (simp_all add: raw_inv_def raw_wf_def raw_sources_def from_ok_def read_ok_def split: if_splits)

section \<open>The callbacks keep the invariant\<close>

lemma queue_local_inv:
  assumes inv: "raw_inv i u d c" and "attached c" and len: "length got \<le> consoleToLocalLength c - consoleToLocalOffset c"
    and quiet: "d \<longrightarrow> inputSources c = 0"
    and all: "from_ok d c \<Longrightarrow> \<exists>s. (if d then s \<in> shuffles (localWritten c) (toConsole c) else s = localWritten c) \<and>
        fromConsole c = s @ pending_local c"
  shows "raw_inv i u d (c\<lparr>consoleToLocal :=
      map_option (\<lambda>b. buf_write b (consoleToLocalOffset c) got) (consoleToLocal c),
      consoleToLocalOffset := consoleToLocalOffset c + length got,
      fromConsole := fromConsole c @ got, consoleInputSource := k\<rparr>)" (is "raw_inv i u d ?c")
proof (rule raw_invI)
  have wf: "raw_wf i u d c" and src: "raw_sources d c" and fr: "from_ok d c" and rd: "read_ok d c"
    using inv by (simp_all add: raw_inv_def)
  obtain b where b: "consoleToLocal c = Some b"
    using wf \<open>attached c\<close> by (auto simp: raw_wf_def raw_open_def buf_ok_def split: option.splits)
  have p: "pending_local ?c = pending_local c @ got"
    using b by (intro pending_local_push) simp_all
  show "raw_wf i u d ?c" proof -
    have "raw_open i u d c" using wf \<open>attached c\<close> by (simp add: raw_wf_def)
    then have "consoleToLocalOffset c + length got \<le> BUFFER_LENGTH"
      using len unfolding raw_open_def by linarith
    then show ?thesis using wf \<open>attached c\<close> by (simp add: raw_wf_def raw_open_def buf_ok_write)
  qed
  show "raw_sources d ?c" using src quiet
    by (auto simp: raw_sources_def stdin_live_def room_console_def)
  obtain s where "if d then s \<in> shuffles (localWritten c) (toConsole c) else s = localWritten c"
    "fromConsole c = s @ pending_local c" using all [OF fr] by blast
  then show "from_ok d ?c" unfolding from_ok_def using p
    by (intro exI [of _ s] exI [of _ "[]"]) simp
  show "read_ok d ?c"
    by (rule iffD2 [OF read_ok_cong rd])
      (simp_all add: pending_console_def stdin_live_def room_console_def cong: option.case_cong)
qed

lemma stream_read_inv:
  assumes inv: "raw_inv i u False c"
  shows "raw_inv i u False (snd (stream_read E ret c))"
proof (cases ret)
  case (Receive_bytes bs)
  let ?got = "take (consoleToLocalLength c - consoleToLocalOffset c) bs"
  show ?thesis
  proof (cases "?got = []")
    case False
    then have att: "attached c" using inv by (auto simp: raw_inv_def raw_wf_def raw_idle_def split: if_splits)
    have "raw_inv i u False (c\<lparr>consoleToLocal :=
      map_option (\<lambda>b. buf_write b (consoleToLocalOffset c) ?got) (consoleToLocal c),
      consoleToLocalOffset := consoleToLocalOffset c + length ?got,
      fromConsole := fromConsole c @ ?got, consoleInputSource := consoleInputSource c\<rparr>)"
      using inv att by (intro queue_local_inv) (auto simp: from_ok_def)
    then show ?thesis using Receive_bytes False by (simp add: stream_read_def Let_def)
  qed (simp add: Receive_bytes stream_read_def inv inv_close)
qed (simp_all add: stream_read_def inv inv_close)

text \<open>Bytes leave the front of \<open>consoleToLocal\<close>: to the local output, or (slip) to the console.\<close>

lemma drain_local_inv:
  assumes inv: "raw_inv i u d c" and sent: "sent = take n (pending_local c)"
    and "if tc then d \<and> lw' = localWritten c \<and> tc' = toConsole c @ sent
         else lw' = localWritten c @ sent \<and> tc' = toConsole c"
  shows "raw_inv i u d (c\<lparr>consoleToLocal :=
      map_option (buf_shift (length sent) (consoleToLocalOffset c)) (consoleToLocal c),
      consoleToLocalOffset := consoleToLocalOffset c - length sent,
      localWritten := lw', toConsole := tc'\<rparr>)" (is "raw_inv i u d ?c")
proof (rule raw_invI)
  have wf: "raw_wf i u d c" and src: "raw_sources d c" and fr: "from_ok d c" and rd: "read_ok d c"
    using inv by (simp_all add: raw_inv_def)
  have len: "length sent \<le> consoleToLocalOffset c" by (simp add: sent length_pending [OF wf])
  show "raw_wf i u d ?c" using wf
    by (cases "attached c") (simp_all add: raw_wf_def raw_open_def raw_idle_def buf_ok_shift le_trans [OF diff_le_self])
  show "raw_sources d ?c" using src
    by (auto simp: raw_sources_def stdin_live_def input_live_def room_console_def room_local_def
        of_bool_def split: if_splits)
  have p: "pending_local ?c = drop (length sent) (pending_local c)"
  proof (cases "consoleToLocal c")
    case None then show ?thesis by (simp add: pending_local_def)
  next
    case (Some b) then show ?thesis using len by (intro pending_local_shift) simp_all
  qed
  have split: "pending_local c = sent @ pending_local ?c"
    unfolding p by (simp only: sent take_drop_length)
  obtain s r where s: "if d then s \<in> shuffles (localWritten c) (toConsole c) else s = localWritten c"
    "fromConsole c = s @ pending_local c @ r" "r \<noteq> [] \<longrightarrow> attached c \<longrightarrow> d \<and> inputSources c = 0 \<and> input_live c"
    using fr unfolding from_ok_def by blast
  have "if d then s @ sent \<in> shuffles lw' tc' else s @ sent = lw'"
    using s(1) assms(3) by (auto split: if_splits intro: shuffles_append_left shuffles_append_right)
  moreover have "fromConsole ?c = (s @ sent) @ pending_local ?c @ r"
    using s(2) split by simp
  moreover have "r \<noteq> [] \<longrightarrow> attached c \<longrightarrow> d \<and> inputSources c = 0 \<and> input_live ?c"
    using s(3) by (auto simp: input_live_def room_local_def)
  ultimately show "from_ok d ?c" unfolding from_ok_def by (intro exI [of _ "s @ sent"] exI [of _ r]) simp
  have "pending_console ?c = pending_console c" "stdin_live ?c = stdin_live c"
    by (simp_all add: pending_console_def stdin_live_def room_console_def cong: option.case_cong)
  then show "read_ok d ?c" using rd assms(3) by (cases tc; cases d) (simp_all add: read_ok_def)
qed

text \<open>The same for the bytes on their way to the console.\<close>

lemma queue_console_inv:
  assumes inv: "raw_inv i u d c" and "attached c" "stdinSources c = 0"
    and len: "localToConsoleOffset c + length got \<le> localToConsoleLength c"
    and all: "stdinRead c = (if d then [] else toConsole c) @ pending_console c"
  shows "raw_inv i u d (c\<lparr>localToConsole :=
      map_option (\<lambda>b. buf_write b (localToConsoleOffset c) got) (localToConsole c),
      stdinRead := stdinRead c @ got, localEOF := e,
      localToConsoleOffset := localToConsoleOffset c + length got, localStdinSource := k\<rparr>)"
    (is "raw_inv i u d ?c")
proof (rule raw_invI)
  have wf: "raw_wf i u d c" and src: "raw_sources d c" and fr: "from_ok d c" and rd: "read_ok d c"
    using inv by (simp_all add: raw_inv_def)
  show wf': "raw_wf i u d ?c" using wf \<open>attached c\<close> len
    by (cases i) (simp_all add: raw_wf_def raw_open_def buf_ok_write)
  show "raw_sources d ?c" using src assms(3)
    by (auto simp: raw_sources_def input_live_def room_local_def)
  show "from_ok d ?c"
    by (rule iffD2 [OF from_ok_cong fr])
      (simp_all add: pending_local_def input_live_def room_local_def cong: option.case_cong)
  have p: "pending_console ?c = pending_console c @ got"
  proof (cases "localToConsole c")
    case None
    then show ?thesis using wf len \<open>attached c\<close>
      by (auto simp: raw_wf_def raw_open_def buf_ok_def pending_console_def split: if_splits)
  next
    case (Some b) then show ?thesis by (intro pending_console_push) simp_all
  qed
  show "read_ok d ?c"
  proof (rule read_okI [where r = "[]"])
    show "stdinRead ?c = (if d then [] else toConsole ?c) @ pending_console ?c @ []"
      unfolding p using all by simp
    show "length (pending_console ?c) + length [] \<le> BUFFER_LENGTH"
      using length_pending(2) [OF wf'] wf_bounds(3) [OF wf'] by (simp only: list.size add_0_right)
  qed simp
qed

text \<open>Bytes that were read and are not queued.\<close>

lemma dropped_console_inv:
  assumes inv: "raw_inv i u d c" and "attached c" "stdinSources c = 0" "stdin_live c"
    and len: "localToConsoleOffset c + length got \<le> localToConsoleLength c"
    and all: "stdinRead c = (if d then [] else toConsole c) @ pending_console c"
  shows "raw_inv i u d (c\<lparr>localToConsole :=
      map_option (\<lambda>b. buf_write b (localToConsoleOffset c) got) (localToConsole c),
      stdinRead := stdinRead c @ got\<rparr>)" (is "raw_inv i u d ?c")
proof (rule raw_invI)
  have wf: "raw_wf i u d c" and src: "raw_sources d c" and fr: "from_ok d c" and rd: "read_ok d c"
    using inv by (simp_all add: raw_inv_def)
  show wf': "raw_wf i u d ?c" using wf \<open>attached c\<close> len
    by (cases i) (simp_all add: raw_wf_def raw_open_def buf_ok_write)
  show "raw_sources d ?c" using src assms(3)
    by (auto simp: raw_sources_def input_live_def room_local_def)
  show "from_ok d ?c"
    by (rule iffD2 [OF from_ok_cong fr])
      (simp_all add: pending_local_def input_live_def room_local_def cong: option.case_cong)
  have p: "pending_console ?c = pending_console c"
    by (simp add: pending_console_def buf_simps split: option.splits)
  show "read_ok d ?c"
  proof (rule read_okI [where r = got])
    show "stdinRead ?c = (if d then [] else toConsole ?c) @ pending_console ?c @ got"
      unfolding p using all by simp
    show "length (pending_console ?c) + length got \<le> BUFFER_LENGTH"
      unfolding p using len length_pending(2) [OF wf] wf_bounds(2) [OF wf] by linarith
    show "stdinSources ?c = 0 \<and> stdin_live ?c"
      using assms(3,4) by (simp add: stdin_live_def room_console_def)
  qed
qed

lemma dropped_local_inv:
  assumes inv: "raw_inv i u d c" and "attached c" d "inputSources c = 0" "input_live c"
    and len: "length got \<le> consoleToLocalLength c - consoleToLocalOffset c"
    and all: "s \<in> shuffles (localWritten c) (toConsole c)" "fromConsole c = s @ pending_local c"
  shows "raw_inv i u d (c\<lparr>consoleToLocal :=
      map_option (\<lambda>b. buf_write b (consoleToLocalOffset c) got) (consoleToLocal c),
      fromConsole := fromConsole c @ got\<rparr>)" (is "raw_inv i u d ?c")
proof (rule raw_invI)
  have wf: "raw_wf i u d c" and src: "raw_sources d c" and fr: "from_ok d c" and rd: "read_ok d c"
    using inv by (simp_all add: raw_inv_def)
  show "raw_wf i u d ?c" proof -
    have "raw_open i u d c" using wf \<open>attached c\<close> by (simp add: raw_wf_def)
    then have "consoleToLocalOffset c + length got \<le> BUFFER_LENGTH"
      using len unfolding raw_open_def by linarith
    then show ?thesis using wf \<open>attached c\<close> by (simp add: raw_wf_def raw_open_def buf_ok_write)
  qed
  show "raw_sources d ?c" using src assms(4)
    by (auto simp: raw_sources_def stdin_live_def room_console_def)
  show "read_ok d ?c"
    by (rule iffD2 [OF read_ok_cong rd])
      (simp_all add: pending_console_def stdin_live_def room_console_def cong: option.case_cong)
  have p: "pending_local ?c = pending_local c"
    by (simp add: pending_local_def buf_simps split: option.splits)
  have "input_live ?c" using assms(5) by (simp add: input_live_def room_local_def)
  then show "from_ok d ?c" unfolding from_ok_def p
    using all assms(3,4) by (intro exI [of _ s] exI [of _ got]) simp
qed

lemma drain_console_inv:
  assumes inv: "raw_inv i u False c" and sent: "sent = take n (pending_console c)"
  shows "raw_inv i u False (c\<lparr>localToConsole :=
      map_option (buf_shift (length sent) (localToConsoleOffset c)) (localToConsole c),
      localToConsoleOffset := localToConsoleOffset c - length sent,
      toConsole := toConsole c @ sent\<rparr>)" (is "raw_inv i u False ?c")
proof (rule raw_invI)
  have wf: "raw_wf i u False c" and src: "raw_sources False c" and fr: "from_ok False c" and rd: "read_ok False c"
    using inv by (simp_all add: raw_inv_def)
  have len: "length sent \<le> localToConsoleOffset c" by (simp add: sent length_pending [OF wf])
  show "raw_wf i u False ?c" using wf wf_bounds [OF wf]
    by (cases "attached c"; cases i)
      (simp_all add: raw_wf_def raw_open_def raw_idle_def buf_ok_shift le_trans [OF diff_le_self])
  have live: "stdin_live c \<Longrightarrow> stdin_live ?c" by (auto simp: stdin_live_def room_console_def)
  show "raw_sources False ?c" using src live by (auto simp: raw_sources_def of_bool_def split: if_splits)
  show "from_ok False ?c" using fr
    by (simp add: from_ok_def pending_local_def cong: option.case_cong)
  have p: "pending_console ?c = drop (length sent) (pending_console c)"
  proof (cases "localToConsole c")
    case None then show ?thesis by (simp add: pending_console_def)
  next
    case (Some b) then show ?thesis using len by (intro pending_console_shift) simp_all
  qed
  have split: "pending_console c = sent @ pending_console ?c"
    unfolding p by (simp only: sent take_drop_length)
  obtain r where "stdinRead c = toConsole c @ pending_console c @ r"
    "r \<noteq> [] \<longrightarrow> attached c \<longrightarrow> stdinSources c = 0 \<and> stdin_live c"
    using rd unfolding read_ok_def by auto
  then have "stdinRead ?c = toConsole ?c @ pending_console ?c @ r"
    "r \<noteq> [] \<longrightarrow> attached ?c \<longrightarrow> stdinSources ?c = 0 \<and> stdin_live ?c"
    using split live by simp_all
  moreover have "length (stdinRead ?c) \<le> BUFFER_LENGTH + length (toConsole ?c)"
    using rd by (simp add: read_ok_def)
  ultimately show "read_ok False ?c" unfolding read_ok_def by auto
qed

lemma stream_send_inv:
  assumes "raw_inv i u False c"
  shows "raw_inv i u False (snd (stream_send E ret c))"
proof (cases ret)
  case (Wrote n)
  have "snd (stream_send E ret c) = (let sent = take n (pending_console c) in
      c\<lparr>localToConsole := map_option (buf_shift (length sent) (localToConsoleOffset c)) (localToConsole c),
        localToConsoleOffset := localToConsoleOffset c - length sent,
        toConsole := toConsole c @ sent\<rparr>)"
    by (simp add: Wrote stream_send_def pending_console_def Let_def)
  then show ?thesis using drain_console_inv [OF assms refl] by (simp add: Let_def)
qed (simp add: stream_send_def assms inv_close)

lemma raw_readwrite_inv:
  assumes "raw_inv i u d c" "streamWatch c = Some w0"
  shows "raw_inv i u d (stream_readwrite E r w rret wret c)"
proof -
  have d: "d = False" using assms by (auto simp: raw_inv_def raw_sources_def split: if_splits)
  have fin: "raw_inv i u False x \<Longrightarrow> raw_inv i u False (if f = Raw_done
      then update_events (x\<lparr>consoleWatch := False, streamWatch := None\<rparr>) else x\<lparr>streamWatch := None\<rparr>)" for x f
    by (auto intro!: inv_update inv_no_watch inv_no_watch_flag)
  obtain f1 c1 where 1: "(if r then stream_read E rret c else (Raw_write, c)) = (f1, c1)"
    by (cases "if r then stream_read E rret c else (Raw_write, c)")
  have i1: "raw_inv i u False c1" using stream_read_inv [of i u c E rret] 1 assms(1) d
    by (auto split: if_splits)
  obtain f2 c2 where 2: "(if f1 = Raw_write then (if w then stream_send E wret c1 else (Raw_done, c1)) else (f1, c1)) = (f2, c2)"
    by (cases "if f1 = Raw_write then (if w then stream_send E wret c1 else (Raw_done, c1)) else (f1, c1)")
  have i2: "raw_inv i u False c2" using stream_send_inv [OF i1, of E wret] 2 i1 by (auto split: if_splits)
  show ?thesis unfolding stream_readwrite_def 1 2 d by (simp only: Let_def prod.case 2 fin [OF i2])
qed

text \<open>The callbacks of the local output and of the pseudo terminal.\<close>

lemma write_nonblocking_pending:
  "write_nonblocking (consoleToLocal c) (consoleToLocalOffset c) ret = Some sent \<Longrightarrow>
     \<exists>n. sent = take n (pending_local c)"
  by (auto simp: write_nonblocking_def pending_local_def split: option.splits if_splits write_result.splits)

lemma local_write_inv:
  assumes "raw_inv i u d c"
  shows "raw_inv i u d (local_write E e ret c)"
proof (cases "write_nonblocking (consoleToLocal c) (consoleToLocalOffset c) ret")
  case None
  then show ?thesis using assms by (simp add: local_write_def Let_def inv_close)
next
  case (Some sent)
  then obtain n where "sent = take n (pending_local c)" using write_nonblocking_pending by blast
  from inv_flags(1) [OF drain_local_inv [OF assms this, of False "localWritten c @ sent" "toConsole c"]]
  show ?thesis using Some by (simp add: local_write_def Let_def inv_update)
qed

lemma console_write_inv:
  assumes "raw_inv i u d c" "0 < outputSources c"
  shows "raw_inv i u d (console_write E ret c)"
proof -
  have d: "d = True" using assms by (auto simp: raw_inv_def raw_sources_def split: if_splits)
  show ?thesis
  proof (cases "write_nonblocking (consoleToLocal c) (consoleToLocalOffset c) ret")
    case None
    then show ?thesis using assms d by (simp add: console_write_def Let_def inv_close inv_flags)
  next
    case (Some sent)
    then obtain n where "sent = take n (pending_local c)" using write_nonblocking_pending by blast
    from inv_flags(2) [OF drain_local_inv [OF assms(1) this, of True "localWritten c" "toConsole c @ sent"]]
    show ?thesis using Some d by (simp add: console_write_def Let_def inv_update inv_flags)
  qed
qed

text \<open>
  The source that fired leaves the main context after its callback; for what the callback does it might
  as well leave before.
\<close>

lemma close_sources:
  "close E e (c\<lparr>stdinSources := n\<rparr>) = (close E e c)\<lparr>stdinSources := n\<rparr>"
  "close E e (c\<lparr>inputSources := n\<rparr>) = (close E e c)\<lparr>inputSources := n\<rparr>"
  "stdinSources (close E e c) = stdinSources c" "inputSources (close E e c) = inputSources c"
  by (simp_all add: close_def detach_def stop_term_def Let_def)

lemma update_stdin_gone:
  assumes "0 < stdinSources c" "\<not> localStdinSource c"
  shows "(update_events c)\<lparr>stdinSources := stdinSources (update_events c) - 1\<rparr> =
    update_events (c\<lparr>stdinSources := stdinSources c - 1\<rparr>)"
  using assms by (cases "attached c") (simp_all add: raw_events_eq update_events_idle src_defs
      room_local_def room_console_def)

lemma update_input_gone:
  assumes "0 < inputSources c" "\<not> consoleInputSource c"
  shows "(update_events c)\<lparr>inputSources := inputSources (update_events c) - 1\<rparr> =
    update_events (c\<lparr>inputSources := inputSources c - 1\<rparr>)"
  using assms by (cases "attached c") (simp_all add: raw_events_eq update_events_idle src_defs
      room_local_def room_console_def)

lemma read_nonblocking_fits: "read_nonblocking buf room ret = Read_bytes got \<Longrightarrow> length got \<le> room"
  by (auto simp: read_nonblocking_def split: if_splits read_result.splits)

lemma read_nonblocking_none: "read_nonblocking None room ret = Read_bytes []"
  by (simp add: read_nonblocking_def)

lemma stdin_fired:
  assumes "raw_inv i u d c" "0 < stdinSources c"
  shows "raw_inv i u d (c\<lparr>stdinSources := stdinSources c - 1\<rparr>)"
    and "attached c \<Longrightarrow> stdinSources c = 1 \<and> stdin_live c \<and>
      stdinRead c = (if d then [] else toConsole c) @ pending_console c"
proof -
  have src: "raw_sources d c" and rd: "read_ok d c" and fr: "from_ok d c" using assms by (simp_all add: raw_inv_def)
  show 1: "stdinSources c = 1 \<and> stdin_live c \<and>
      stdinRead c = (if d then [] else toConsole c) @ pending_console c" if "attached c"
    using src rd that assms(2) by (auto simp: raw_sources_def read_ok_def of_bool_def split: if_splits)
  let ?c = "c\<lparr>stdinSources := stdinSources c - 1\<rparr>"
  show "raw_inv i u d ?c"
  proof (rule raw_invI)
    show "raw_wf i u d ?c" using assms by (simp add: raw_inv_def raw_wf_def)
    show "raw_sources d ?c" using src
      by (auto simp: raw_sources_def)
    show "from_ok d ?c" by (rule iffD2 [OF from_ok_cong fr])
        simp_all
    show "read_ok d ?c" using rd 1 unfolding read_ok_def by auto
  qed
qed

lemma input_fired:
  assumes "raw_inv i u d c" "0 < inputSources c"
  shows "raw_inv i u d (c\<lparr>inputSources := inputSources c - 1\<rparr>)"
    and "d" and "attached c \<Longrightarrow> inputSources c = 1 \<and> input_live c \<and>
      (\<exists>s. s \<in> shuffles (localWritten c) (toConsole c) \<and> fromConsole c = s @ pending_local c)"
proof -
  have src: "raw_sources d c" and rd: "read_ok d c" and fr: "from_ok d c" using assms by (simp_all add: raw_inv_def)
  show d: d using src assms(2) by (auto simp: raw_sources_def split: if_splits)
  show 1: "inputSources c = 1 \<and> input_live c \<and>
      (\<exists>s. s \<in> shuffles (localWritten c) (toConsole c) \<and> fromConsole c = s @ pending_local c)" if "attached c"
    using src fr that assms(2) d by (auto simp: raw_sources_def from_ok_def of_bool_def split: if_splits)
  let ?c = "c\<lparr>inputSources := inputSources c - 1\<rparr>"
  show "raw_inv i u d ?c"
  proof (rule raw_invI)
    show "raw_wf i u d ?c" using assms by (simp add: raw_inv_def raw_wf_def)
    show "raw_sources d ?c" using src
      by (auto simp: raw_sources_def)
    show "read_ok d ?c" by (rule iffD2 [OF read_ok_cong rd])
        simp_all
    show "from_ok d ?c" using fr 1 d unfolding from_ok_def by auto
  qed
qed

lemma idle_eof_inv:
  assumes "raw_inv i u d c" "\<not> attached c"
  shows "raw_inv i u d (c\<lparr>localEOF := True\<rparr>)"
proof -
  have [simp]: "pending_local (c\<lparr>localEOF := True\<rparr>) = pending_local c"
    "pending_console (c\<lparr>localEOF := True\<rparr>) = pending_console c"
    by (simp_all add: pending_local_def pending_console_def cong: option.case_cong)
  show ?thesis using assms
    by (cases d) (simp_all add: raw_inv_def raw_wf_def raw_idle_def raw_sources_def from_ok_def read_ok_def)
qed

lemma local_read_inv:
  assumes inv: "raw_inv i u d c" and fired: "0 < stdinSources c"
  shows "raw_inv i u d (local_read E ret c)"
proof -
  let ?n = "stdinSources c - 1"
  let ?c = "c\<lparr>stdinSources := ?n\<rparr>"
  have inv': "raw_inv i u d ?c" using assms by (rule stdin_fired)
  show ?thesis
  proof (cases "read_nonblocking (localToConsole c) (localToConsoleLength c - localToConsoleOffset c) ret")
    case Read_error
    then show ?thesis using inv_close [OF inv']
      by (simp add: local_read_def Let_def close_sources)
  next
    case (Read_bytes got)
    have fits: "localToConsoleOffset c + length got \<le> localToConsoleLength c"
      using read_nonblocking_fits [OF Read_bytes] wf_bounds inv unfolding raw_inv_def by fastforce
    show ?thesis
    proof (cases "attached c")
      case True
      then have 1: "stdinSources ?c = 0" "stdin_live ?c"
        "stdinRead ?c = (if d then [] else toConsole ?c) @ pending_console ?c"
        using stdin_fired(2) [OF assms] by simp_all
      note [simp] = Let_def local_read_def Read_bytes close_sources
      show ?thesis
      proof (cases "got \<noteq> [] \<and> hd got = CONTROL (get_escape (base c))")
        case True
        let ?d = "c\<lparr>localToConsole :=
            map_option (\<lambda>b. buf_write b (localToConsoleOffset c) got) (localToConsole c),
            stdinRead := stdinRead c @ got\<rparr>"
        have eq: "?d\<lparr>stdinSources := ?n\<rparr> = ?c\<lparr>localToConsole :=
            map_option (\<lambda>b. buf_write b (localToConsoleOffset ?c) got) (localToConsole ?c),
            stdinRead := stdinRead ?c @ got\<rparr>"
          by (intro raw_console.equality) simp_all
        have "raw_inv i u d (?d\<lparr>stdinSources := ?n\<rparr>)" unfolding eq
          by (rule dropped_console_inv [OF inv' _ 1(1,2) _ 1(3)]) (use \<open>attached c\<close> fits in simp_all)
        from inv_close [OF this] show ?thesis using True by (simp add: close_sources)
      next
        case False
        let ?d = "c\<lparr>localToConsole :=
            map_option (\<lambda>b. buf_write b (localToConsoleOffset c) got) (localToConsole c),
            stdinRead := stdinRead c @ got, localEOF := localEOF c \<or> got = [],
            localToConsoleOffset := localToConsoleOffset c + length got, localStdinSource := False\<rparr>"
        have eq: "?d\<lparr>stdinSources := stdinSources ?d - 1\<rparr> = ?c\<lparr>localToConsole :=
            map_option (\<lambda>b. buf_write b (localToConsoleOffset ?c) got) (localToConsole ?c),
            stdinRead := stdinRead ?c @ got, localEOF := localEOF c \<or> got = [],
            localToConsoleOffset := localToConsoleOffset ?c + length got, localStdinSource := False\<rparr>"
          by (intro raw_console.equality) simp_all
        have "raw_inv i u d (?d\<lparr>stdinSources := stdinSources ?d - 1\<rparr>)" unfolding eq
          by (rule queue_console_inv [OF inv' _ 1(1) _ 1(3)]) (use \<open>attached c\<close> fits in simp_all)
        from inv_update [OF this] have "raw_inv i u d ((update_events ?d)\<lparr>stdinSources := stdinSources (update_events ?d) - 1\<rparr>)"
          by (subst update_stdin_gone) (use fired in simp_all)
        then show ?thesis using False by (cases "got = []") auto
      qed
    next
      case False
      then have "localToConsole c = None" using inv by (simp add: raw_inv_def raw_wf_def raw_idle_def)
      then have "got = []" using Read_bytes by (simp add: read_nonblocking_none)
      have "local_read E ret c = ?c\<lparr>localEOF := True\<rparr>"
        using inv False Read_bytes \<open>got = []\<close>
        by (intro raw_console.equality)
          (simp_all add: local_read_def Let_def update_events_idle raw_inv_def raw_wf_def raw_idle_def)
      moreover have "raw_inv i u d (?c\<lparr>localEOF := True\<rparr>)" using inv' False by (intro idle_eof_inv) simp_all
      ultimately show ?thesis by simp
    qed
  qed
qed

lemma console_read_inv:
  assumes inv: "raw_inv i u d c" and fired: "0 < inputSources c"
  shows "raw_inv i u d (console_read E ret c)"
proof -
  let ?n = "inputSources c - 1"
  let ?c = "c\<lparr>inputSources := ?n\<rparr>"
  have inv': "raw_inv i u d ?c" using assms by (rule input_fired)
  have d: d using assms by (rule input_fired)
  note [simp] = Let_def console_read_def close_sources
  show ?thesis
  proof (cases "read_nonblocking (consoleToLocal c) (consoleToLocalLength c - consoleToLocalOffset c) ret")
    case Read_error
    then show ?thesis using inv_close [OF inv'] by (simp add: close_sources)
  next
    case (Read_bytes got)
    have fits: "length got \<le> consoleToLocalLength c - consoleToLocalOffset c"
      using read_nonblocking_fits [OF Read_bytes] .
    let ?d = "c\<lparr>consoleToLocal :=
        map_option (\<lambda>b. buf_write b (consoleToLocalOffset c) got) (consoleToLocal c),
        fromConsole := fromConsole c @ got\<rparr>"
    show ?thesis
    proof (cases "attached c")
      case True
      then obtain s where 1: "inputSources ?c = 0" "input_live ?c"
        "s \<in> shuffles (localWritten ?c) (toConsole ?c)" "fromConsole ?c = s @ pending_local ?c"
        using input_fired(3) [OF assms] by auto
      show ?thesis
      proof (cases "got = [] \<or> hd got = CONTROL (get_escape (base c))")
        case True
        have eq: "?d\<lparr>inputSources := ?n\<rparr> = ?c\<lparr>consoleToLocal :=
            map_option (\<lambda>b. buf_write b (consoleToLocalOffset ?c) got) (consoleToLocal ?c),
            fromConsole := fromConsole ?c @ got\<rparr>"
          by (intro raw_console.equality) simp_all
        have "raw_inv i u d (?d\<lparr>inputSources := ?n\<rparr>)" unfolding eq
          by (rule dropped_local_inv [OF inv' _ d 1(1,2) _ 1(3,4)]) (use \<open>attached c\<close> fits in simp_all)
        from inv_close [OF this] show ?thesis using True by (cases "got = []") (simp_all add: Read_bytes)
      next
        case False
        let ?e = "?d\<lparr>consoleToLocalOffset := consoleToLocalOffset c + length got, consoleInputSource := False\<rparr>"
        have eq: "?e\<lparr>inputSources := inputSources ?e - 1\<rparr> = ?c\<lparr>consoleToLocal :=
            map_option (\<lambda>b. buf_write b (consoleToLocalOffset ?c) got) (consoleToLocal ?c),
            consoleToLocalOffset := consoleToLocalOffset ?c + length got,
            fromConsole := fromConsole ?c @ got, consoleInputSource := False\<rparr>"
          by (intro raw_console.equality) simp_all
        have "raw_inv i u d (?e\<lparr>inputSources := inputSources ?e - 1\<rparr>)" unfolding eq
          by (rule queue_local_inv [OF inv']) (use \<open>attached c\<close> fits d 1 in auto)
        from inv_update [OF this] have "raw_inv i u d ((update_events ?e)\<lparr>inputSources := inputSources (update_events ?e) - 1\<rparr>)"
          by (subst update_input_gone) (use fired in simp_all)
        then show ?thesis using False by (simp add: Read_bytes)
      qed
    next
      case False
      then have "consoleToLocal c = None" using inv by (simp add: raw_inv_def raw_wf_def raw_idle_def)
      then have "got = []" using Read_bytes by (simp add: read_nonblocking_none)
      have "?d\<lparr>inputSources := ?n\<rparr> = ?c" using \<open>got = []\<close> \<open>consoleToLocal c = None\<close>
        by (intro raw_console.equality) simp_all
      then have "raw_inv i u d (?d\<lparr>inputSources := ?n\<rparr>)" using inv' by simp
      then show ?thesis using \<open>got = []\<close> inv_close [of i u d "?d\<lparr>inputSources := ?n\<rparr>" E False]
        by (simp add: Read_bytes)
    qed
  qed
qed

section \<open>Everything an attachment can reach\<close>

lemma raw_step_inv: "raw_step E c c' \<Longrightarrow> raw_inv i u d c \<Longrightarrow> raw_inv i u d c'"
  by (induction rule: raw_step.induct)
    (simp_all add: raw_readwrite_inv local_read_inv local_write_inv console_read_inv
      console_write_inv inv_detach)

lemma open_remote_ok:
  assumes "open_remote V c = (c', None)"
  shows "\<exists>p. c' = (if direct (base c) then c\<lparr>consolePty := p, consoleInput := True, consoleOutput := True\<rparr>
    else c\<lparr>console := True\<rparr>)"
  using assms by (auto simp: open_remote_def get_direct_def Let_def split: if_splits option.splits list.splits)

lemma attach_inv:
  assumes "attach V i u (raw_init obj) = (c, None)"
  shows "raw_inv i u (direct obj) c"
proof -
  obtain t where t: "(if i then start_term (re_term V) (raw_init obj) else (raw_init obj, None)) =
      ((raw_init obj)\<lparr>termiosActive := t\<rparr>, None)"
    using assms by (auto simp: attach_def start_term_def raw_init_def split: if_splits)
  let ?c = "(raw_init obj)\<lparr>termiosActive := t, localStdin := i, localStdout := u, localStderr := True\<rparr>"
  obtain c1 where c1: "open_remote V ?c = (c1, None)"
    and c: "c = update_events ((if i then c1\<lparr>consoleToLocalLength := BUFFER_LENGTH, consoleToLocal := Some [],
          localToConsoleLength := BUFFER_LENGTH, localToConsole := Some []\<rparr>
        else c1\<lparr>consoleToLocalLength := BUFFER_LENGTH, consoleToLocal := Some []\<rparr>)
        \<lparr>attached := True, fromConsole := [], toConsole := [], stdinRead := [], localWritten := []\<rparr>)"
    using assms unfolding attach_def t by (auto simp: raw_init_def Let_def split: prod.splits option.splits)
  obtain p where "c1 = (if direct obj then ?c\<lparr>consolePty := p, consoleInput := True, consoleOutput := True\<rparr>
    else ?c\<lparr>console := True\<rparr>)" using open_remote_ok [OF c1] by (auto simp: raw_init_def)
  then show ?thesis unfolding c
    by (intro inv_update; cases i; cases "direct obj")
      (simp_all add: raw_inv_def raw_wf_def raw_open_def raw_sources_def from_ok_def read_ok_def raw_init_def
        buf_ok_def pending_local_def pending_console_def)
qed

lemma raw_run_inv: "raw_run V i u d c \<Longrightarrow> raw_inv i u d c"
  by (induction rule: raw_run.induct) (auto intro: attach_inv raw_step_inv)

section \<open>Without a local stdout\<close>

text \<open>
  With only a stderr (\<open>console_attach_stderr\<close>); \<open>k\<close> says that the source of stderr is gone while the
  private data still has it.
\<close>

definition stderr_state :: "bool \<Rightarrow> raw_console \<Rightarrow> bool" where
  "stderr_state k c \<longleftrightarrow>
     stdoutSources c = 0 \<and> outputSources c = 0 \<and>
     (attached c \<longrightarrow> \<not> localStdout c \<and> localToConsoleLength c = 0 \<and> localToConsoleOffset c = 0 \<and>
        stderrSources c \<le> of_bool (localStderrSource c) \<and>
        (k \<longrightarrow> stderrSources c = 0 \<and> localStderrSource c \<and> consoleToLocalOffset c \<noteq> 0)) \<and>
     (\<not> attached c \<longrightarrow> consoleToLocal c = None)"

lemma stderr_state_update: "stderr_state k c \<Longrightarrow> stderr_state k (update_events c)"
  by (cases "attached c")
    (auto simp: stderr_state_def raw_events_eq update_events_idle src_defs of_bool_def split: if_splits)

lemma stderr_state_close: "stderr_state k c \<Longrightarrow> stderr_state k (close E e c)"
  by (auto simp: stderr_state_def close_def detach_def stop_term_def Let_def split: if_splits)

lemma stderr_state_detach: "stderr_state k c \<Longrightarrow> stderr_state k (fst (detach E c))"
  by (auto simp: stderr_state_def detach_def stop_term_def split: if_splits)

lemma close_written [simp]: "localWritten (close E e c) = localWritten c"
  by (simp add: close_def detach_def stop_term_def Let_def)

lemma stderr_stream_read:
  assumes "stderr_state k c"
  shows "stderr_state k (snd (stream_read E ret c))" "localWritten (snd (stream_read E ret c)) = localWritten c"
proof -
  have st: "stderr_state k (c\<lparr>consoleToLocal := map_option f (consoleToLocal c),
      consoleToLocalOffset := consoleToLocalOffset c + n, fromConsole := r\<rparr>)" for f r n
    using assms by (auto simp: stderr_state_def)
  show "stderr_state k (snd (stream_read E ret c))"
    using st stderr_state_close [OF assms] assms by (cases ret) (simp_all add: stream_read_def Let_def)
  show "localWritten (snd (stream_read E ret c)) = localWritten c"
    by (cases ret) (simp_all add: stream_read_def Let_def)
qed

lemma stderr_stream_send:
  assumes "stderr_state k c"
  shows "stderr_state k (snd (stream_send E ret c))" "localWritten (snd (stream_send E ret c)) = localWritten c"
proof -
  have st: "stderr_state k (c\<lparr>localToConsole := b, localToConsoleOffset := localToConsoleOffset c - n,
      toConsole := r\<rparr>)" for b r n
    using assms by (auto simp: stderr_state_def)
  show "stderr_state k (snd (stream_send E ret c))"
    using st stderr_state_close [OF assms] by (cases ret) (simp_all add: stream_send_def Let_def)
  show "localWritten (snd (stream_send E ret c)) = localWritten c"
    by (cases ret) (simp_all add: stream_send_def Let_def)
qed

lemma stderr_state_watch:
  "stderr_state k (c\<lparr>consoleWatch := b, streamWatch := w\<rparr>) = stderr_state k c"
  "stderr_state k (c\<lparr>streamWatch := w\<rparr>) = stderr_state k c"
  "stderr_state k (c\<lparr>consoleWatch := b\<rparr>) = stderr_state k c"
  by (simp_all add: stderr_state_def)

lemma stderr_readwrite:
  assumes "stderr_state k c"
  shows "stderr_state k (stream_readwrite E r w rret wret c) \<and>
    localWritten (stream_readwrite E r w rret wret c) = localWritten c"
proof -
  obtain f1 c1 where 1: "(if r then stream_read E rret c else (Raw_write, c)) = (f1, c1)"
    by (cases "if r then stream_read E rret c else (Raw_write, c)")
  have i1: "stderr_state k c1 \<and> localWritten c1 = localWritten c"
    using stderr_stream_read [OF assms, of E rret] 1 assms by (auto split: if_splits)
  obtain f2 c2 where 2: "(if f1 = Raw_write then (if w then stream_send E wret c1 else (Raw_done, c1)) else (f1, c1)) = (f2, c2)"
    by (cases "if f1 = Raw_write then (if w then stream_send E wret c1 else (Raw_done, c1)) else (f1, c1)")
  have i2: "stderr_state k c2 \<and> localWritten c2 = localWritten c"
    using stderr_stream_send [of k c1 E wret] 2 i1 by (auto split: if_splits)
  have fin: "stderr_state k (c2\<lparr>consoleWatch := False, streamWatch := None\<rparr>)" "stderr_state k (c2\<lparr>streamWatch := None\<rparr>)"
    using conjunct1 [OF i2] by (simp_all only: stderr_state_watch)
  have eq: "stream_readwrite E r w rret wret c = (if f2 = Raw_done
      then update_events (c2\<lparr>consoleWatch := False, streamWatch := None\<rparr>) else c2\<lparr>streamWatch := None\<rparr>)"
    unfolding stream_readwrite_def 1 by (simp only: Let_def prod.case 2)
  show ?thesis using fin(2) stderr_state_update [OF fin(1)] i2
    unfolding eq by (cases "f2 = Raw_done") simp_all
qed

lemma stderr_state_num [simp]:
  "stderr_state k (c\<lparr>stdinSources := n\<rparr>) = stderr_state k c"
  "stderr_state k (c\<lparr>inputSources := n\<rparr>) = stderr_state k c"
  by (simp_all add: stderr_state_def)

lemma stderr_local_read:
  assumes "stderr_state k c"
  shows "stderr_state k (local_read E ret c)" "localWritten (local_read E ret c) = localWritten c"
proof -
  let ?r = "read_nonblocking (localToConsole c) (localToConsoleLength c - localToConsoleOffset c) ret"
  have none: "attached c \<Longrightarrow> ?r = Read_bytes []" using assms by (simp add: stderr_state_def read_nonblocking_def)
  show "stderr_state k (local_read E ret c)"
  proof (cases ?r)
    case Read_error
    then show ?thesis using assms by (simp add: local_read_def Let_def stderr_state_close)
  next
    case (Read_bytes got)
    have st: "stderr_state k (c\<lparr>localToConsole := b, stdinRead := r, localEOF := e,
        localToConsoleOffset := localToConsoleOffset c + length got, localStdinSource := False\<rparr>)"
      "stderr_state k (c\<lparr>localToConsole := b, stdinRead := r\<rparr>)" for b r e
      using assms none Read_bytes by (auto simp: stderr_state_def)
    show ?thesis using st(1) [where e = "localEOF c", THEN stderr_state_update]
        st(1) [where e = True and r = "stdinRead c @ got", THEN stderr_state_update]
        stderr_state_close [OF st(2)]
      by (cases "got = []") (simp_all add: local_read_def Let_def Read_bytes)
  qed
  show "localWritten (local_read E ret c) = localWritten c"
    by (simp add: local_read_def Let_def split: read_result.splits)
qed

lemma stderr_console_read:
  assumes "stderr_state k c"
  shows "stderr_state k (console_read E ret c)" "localWritten (console_read E ret c) = localWritten c"
proof -
  have st: "stderr_state k (c\<lparr>consoleToLocal := map_option f (consoleToLocal c), fromConsole := r\<rparr>)"
    "stderr_state k (c\<lparr>consoleToLocal := map_option f (consoleToLocal c), fromConsole := r,
        consoleToLocalOffset := consoleToLocalOffset c + n, consoleInputSource := False\<rparr>)"
    "stderr_state k (c\<lparr>consoleToLocal := map_option f (consoleToLocal c)\<rparr>)" for f r n
    using assms by (auto simp: stderr_state_def)
  show "stderr_state k (console_read E ret c)"
    using stderr_state_close [OF st(1)] stderr_state_update [OF st(2)] stderr_state_close [OF st(3)] stderr_state_close [OF assms]
    by (simp add: console_read_def Let_def split: read_result.splits)
  show "localWritten (console_read E ret c) = localWritten c"
    by (simp add: console_read_def Let_def split: read_result.splits)
qed

text \<open>The callback itself: either everything pending was written, or the source is lost.\<close>

lemma stderr_local_write:
  assumes "stderr_state k c" "0 < stderrSources c"
  shows "stderr_state k (local_write E True ret c) \<and>
    (k \<longrightarrow> localWritten (local_write E True ret c) = localWritten c)"
proof (cases "write_nonblocking (consoleToLocal c) (consoleToLocalOffset c) ret")
  case None
  then have att: "attached c" and "\<not> k"
    using assms by (auto simp: stderr_state_def write_nonblocking_def)
  then show ?thesis using assms None
    by (auto simp: local_write_def Let_def stderr_state_def close_def detach_def stop_term_def of_bool_def
        split: if_splits)
next
  case (Some sent)
  show ?thesis
  proof (cases "attached c")
    case True
    then show ?thesis using assms Some
      by (auto simp: local_write_def Let_def stderr_state_def raw_events_eq src_defs of_bool_def
          split: if_splits)
  next
    case False
    then show ?thesis using assms Some
      by (auto simp: local_write_def Let_def stderr_state_def update_events_idle write_nonblocking_def)
  qed
qed

lemma stderr_step:
  assumes "raw_step E c c'" "stderr_state k c"
  shows "stderr_state k c' \<and> (k \<longrightarrow> localWritten c' = localWritten c)"
  using assms
proof (induction rule: raw_step.induct)
  case (stream c r0 w0 r w rret wret)
  then show ?case using stderr_readwrite by blast
next
  case (detach c)
  then show ?case by (simp add: stderr_state_detach) (simp add: detach_def stop_term_def)
next
  case (stdout c ret)
  then show ?case by (simp add: stderr_state_def)
next
  case (pty_out c ret)
  then show ?case by (simp add: stderr_state_def)
next
  case (stdin c rd)
  then show ?case using stderr_local_read by blast
next
  case (pty_in c rd)
  then show ?case using stderr_console_read by blast
next
  case (stderr c ret)
  then show ?case using stderr_local_write by blast
qed

lemma attach_stderr_state:
  assumes "raw_run V False False d c"
  shows "stderr_state False c"
  using assms
proof (induction rule: raw_run.induct)
  case (start obj c)
  have inv: "raw_inv False False (direct obj) c" using start by (rule attach_inv)
  have "attached c" using raw.attach_done [OF _ start] by (simp add: raw_init_def)
  have "stdoutSources c = 0 \<and> outputSources c = 0 \<and> stderrSources c = 0"
    using start by (auto simp: attach_def open_remote_def raw_init_def get_direct_def Let_def raw_events_eq
        src_defs split: if_splits option.splits list.splits)
  then show ?case using inv \<open>attached c\<close> by (simp add: stderr_state_def raw_inv_def raw_wf_def raw_open_def)
next
  case (step d c c')
  then show ?case using stderr_step by blast
qed

lemma stalled_steps:
  "(raw_step E)\<^sup>*\<^sup>* c c' \<Longrightarrow> stderr_state True c \<Longrightarrow> stderr_state True c' \<and> localWritten c' = localWritten c"
  by (induction rule: rtranclp_induct) (use stderr_step in fastforce)+

lemma short_write_stalls:
  assumes "stderr_state False c" "0 < stderrSources c" "n < consoleToLocalOffset c"
    "consoleToLocal c = None \<longrightarrow> consoleToLocalOffset c = 0"
  shows "stderr_state True (local_write E True (Wrote n) c)"
proof -
  obtain b where b: "consoleToLocal c = Some b" and "attached c"
    using assms by (cases "consoleToLocal c"; cases "attached c"; simp add: stderr_state_def)
  then show ?thesis using assms
    by (simp add: local_write_def Let_def write_nonblocking_def stderr_state_def raw_events_eq src_defs
        of_bool_def split: if_splits)
qed

section \<open>A computed console\<close>

definition demo_raw_env :: raw_env where
  "demo_raw_env =
     \<lparr>re_term = \<lparr>te_isatty = False, te_getattr = True, te_setattr = True\<rparr>,
      re_open_console = (\<lambda>_ _. True),
      re_devices = (\<lambda>_. Some [\<lparr>dev_alias = Some ''console0'',
                              dev_chardev = Some (Source_pty (Some ''/dev/pts/7''))\<rparr>]),
      re_open = (\<lambda>_. 5)\<rparr>"

definition demo_raw_start :: "bool \<Rightarrow> bool \<Rightarrow> bool \<Rightarrow> raw_console" where
  "demo_raw_start i u d =
     fst (attach demo_raw_env i u (raw_init (set_direct d (console_construct
       [PROP_DEVNAME \<mapsto> V_string (Some ''console0'')]))))"

definition demo_raw_stream :: raw_console where
  "demo_raw_stream =
     (let E = re_term demo_raw_env in
      stream_readwrite E False True Receive_block (Wrote 1)
        (local_read E (Read_bytes [0x78])
          (local_write E False (Wrote 1)
            (stream_readwrite E True False (Receive_bytes [0x68, 0x69]) (Wrote 0)
              (demo_raw_start True True False)))))"

definition demo_raw_direct :: raw_console where
  "demo_raw_direct =
     (let E = re_term demo_raw_env in
      local_write E False (Wrote 1)
        (console_write E (Wrote 1)
          (local_read E (Read_bytes [0x78])
            (console_read E (Read_bytes [0x68, 0x69]) (demo_raw_start True True True)))))"

definition demo_raw_stderr :: raw_console where
  "demo_raw_stderr =
     stream_readwrite (re_term demo_raw_env) True False (Receive_bytes [0x68, 0x69]) (Wrote 0)
       (demo_raw_start False False False)"

lemmas raw_eval = Let_def demo_raw_start_def demo_raw_env_def attach_def open_remote_def start_term_def
  raw_init_def get_direct_def set_direct_def console_construct_simps raw_events_eq src_defs
  room_local_def room_console_def BUFFER_LENGTH_def stream_readwrite_def stream_read_def stream_send_def
  local_read_def local_write_def console_read_def console_write_def read_nonblocking_def write_nonblocking_def
  buf_read_def buf_write_def buf_shift_def get_escape_def CONTROL_def

lemma demo_raw_starts: "raw_run demo_raw_env i u d (demo_raw_start i u d)"
proof -
  let ?obj = "set_direct d (console_construct [PROP_DEVNAME \<mapsto> V_string (Some ''console0'')])"
  have "snd (attach demo_raw_env i u (raw_init ?obj)) = None"
    by (simp add: attach_def open_remote_def start_term_def demo_raw_env_def raw_init_def get_direct_def
        set_direct_def console_construct_simps Let_def)
  then have "attach demo_raw_env i u (raw_init ?obj) = (demo_raw_start i u d, None)"
    by (simp add: demo_raw_start_def prod_eq_iff)
  from raw_run.start [OF this] show ?thesis by (simp add: set_direct_def)
qed

lemma raw_run_stream:
  assumes "raw_run V i u d c" "streamWatch c = Some (p, q)" "r \<longrightarrow> p" "w \<longrightarrow> q" "r \<or> w"
    "E = re_term V"
  shows "raw_run V i u d (stream_readwrite E r w rret wret c)"
  using assms raw_run.step raw_step.stream by metis

lemma demo_raw_stream_run: "raw_run demo_raw_env True True False demo_raw_stream"
  unfolding demo_raw_stream_def Let_def
  by (rule raw_run_stream [where p = True and q = True], rule raw_run.step [OF _ raw_step.stdin],
      rule raw_run.step [OF _ raw_step.stdout], rule raw_run_stream [where p = True and q = False],
      rule demo_raw_starts) (simp_all add: raw_eval)

lemma demo_raw_direct_run: "raw_run demo_raw_env True True True demo_raw_direct"
  unfolding demo_raw_direct_def Let_def
  by (intro raw_run.step [OF _ raw_step.pty_in] raw_run.step [OF _ raw_step.pty_out]
        raw_run.step [OF _ raw_step.stdin] raw_run.step [OF _ raw_step.stdout] demo_raw_starts)
    (simp_all add: raw_eval)

lemma demo_raw_stderr_run: "raw_run demo_raw_env False False False demo_raw_stderr"
  unfolding demo_raw_stderr_def
  by (rule raw_run_stream [where p = True and q = False], rule demo_raw_starts) (simp_all add: raw_eval)

lemma demo_raw_values:
  "localWritten demo_raw_stream = [0x68]" "fromConsole demo_raw_stream = [0x68, 0x69]"
  "toConsole demo_raw_stream = [0x78]" "stdinRead demo_raw_direct = [0x78]"
  "toConsole demo_raw_direct = [0x68]" "localWritten demo_raw_direct = [0x69]"
  by (simp_all add: raw_eval demo_raw_stream_def demo_raw_direct_def)

section \<open>Properties\<close>



text \<open>
  C31. Over the stream the raw console is transparent: what the local output has accepted is always a prefix
  of what the domain sent, what the domain has accepted is a prefix of what was read from stdin, and as
  long as the console is attached nothing the domain sent is missing: it is written or in the buffer.
\<close>

theorem raw_stream_in_order:
  assumes "raw_run V i u False c"
  shows "prefix (localWritten c) (fromConsole c) \<and> prefix (toConsole c) (stdinRead c) \<and>
    (attached c \<longrightarrow> fromConsole c = localWritten c @ pending_local c)"
  using raw_run_inv [OF assms] by (auto simp: raw_inv_def from_ok_def read_ok_def prefix_def)

theorem raw_stream_in_order_witness:
  "prefix (localWritten demo_raw_stream) (fromConsole demo_raw_stream) \<and>
   localWritten demo_raw_stream = [0x68] \<and> fromConsole demo_raw_stream = [0x68, 0x69] \<and>
   toConsole demo_raw_stream = [0x78]"
  using raw_stream_in_order [OF demo_raw_stream_run] demo_raw_values by (simp only: simp_thms)

text \<open>
  C32. With direct access to the pseudo terminal no input ever reaches the domain: the bytes received from
  the terminal are dealt out between the local output and the terminal itself, each byte to one of them,
  and at most one buffer of local input is read at all.
\<close>

theorem raw_direct_input_lost:
  assumes "raw_run V i u True c"
  shows "(\<exists>s \<in> shuffles (localWritten c) (toConsole c). prefix s (fromConsole c)) \<and>
    length (stdinRead c) \<le> 4096"
proof
  have inv: "from_ok True c" "read_ok True c" using raw_run_inv [OF assms] by (simp_all add: raw_inv_def)
  then show "\<exists>s \<in> shuffles (localWritten c) (toConsole c). prefix s (fromConsole c)"
    unfolding from_ok_def by (metis (full_types) prefixI)
  show "length (stdinRead c) \<le> 4096" using inv by (simp add: read_ok_def BUFFER_LENGTH_def)
qed

theorem raw_direct_input_lost_witness:
  "(\<exists>s \<in> shuffles (localWritten demo_raw_direct) (toConsole demo_raw_direct). prefix s (fromConsole demo_raw_direct)) \<and>
   stdinRead demo_raw_direct = [0x78] \<and> toConsole demo_raw_direct = [0x68] \<and>
   localWritten demo_raw_direct = [0x69]"
  using raw_direct_input_lost [OF demo_raw_direct_run] demo_raw_values by (simp only: simp_thms)

text \<open>
  C33. A console attached with a stderr only goes silent after a short write: when stderr has taken less than
  what was pending, nothing the domain sends later is ever written, whatever happens next.
\<close>

theorem raw_stderr_stalls:
  assumes "raw_run V False False d c" "0 < stderrSources c" "n < consoleToLocalOffset c"
    and "(raw_step (re_term V))\<^sup>*\<^sup>* (local_write (re_term V) True (Wrote n) c) c'"
  shows "localWritten c' = localWritten (local_write (re_term V) True (Wrote n) c)"
proof -
  have "consoleToLocal c = None \<longrightarrow> consoleToLocalOffset c = 0"
    using raw_run_inv [OF assms(1)]
    by (cases "attached c") (simp_all add: raw_inv_def raw_wf_def raw_open_def raw_idle_def buf_ok_def split: option.splits)
  from short_write_stalls [OF attach_stderr_state [OF assms(1)] assms(2,3) this]
  show ?thesis using stalled_steps [OF assms(4)] by blast
qed

theorem raw_stderr_stalls_witness:
  "let E = re_term demo_raw_env;
       c = local_write E True (Wrote 1) demo_raw_stderr;
       c' = stream_readwrite E True False (Receive_bytes [0x6A]) (Wrote 0) c
   in localWritten c' = localWritten c \<and> localWritten c = [0x68] \<and> pending_local c' = [0x69, 0x6A]"
proof -
  let ?E = "re_term demo_raw_env"
  let ?c = "local_write ?E True (Wrote 1) demo_raw_stderr"
  let ?d = "stream_readwrite ?E True False (Receive_bytes [0x6A]) (Wrote 0) ?c"
  have "streamWatch ?c = Some (True, False)" by (simp add: raw_eval demo_raw_stderr_def)
  then have "raw_step ?E ?c ?d" by (rule raw_step.stream) simp_all
  moreover have "0 < stderrSources demo_raw_stderr" "1 < consoleToLocalOffset demo_raw_stderr"
    by (simp_all add: raw_eval demo_raw_stderr_def)
  ultimately have "localWritten ?d = localWritten ?c"
    using raw_stderr_stalls [OF demo_raw_stderr_run _ _ r_into_rtranclp] by blast
  moreover have "localWritten ?c = [0x68]" "pending_local ?d = [0x69, 0x6A]"
    by (simp_all add: raw_eval demo_raw_stderr_def pending_local_def)
  ultimately show ?thesis by (simp add: Let_def)
qed

end
