(* ===== verification/Xdr.thy ===== *)
theory Xdr
  imports Prelude
begin

unbundle bit_operations_syntax

text \<open>
  The interface to XDR. The routines \<open>xdr_u_int\<close>, \<open>xdr_GVirSandboxProtocolHeader\<close> and
  \<open>xdr_GVirSandboxProtocolMessageExit\<close> are not in the repository: the first is the XDR
  library's, the others are generated by rpcgen from libvirt-sandbox-protocol.x. They are a
  parameter \<open>X\<close> of every definition that calls them. What the code relies on is the locale
  \<open>xdr_library\<close>: each routine is a fixed-width filter (RFC 4506) of 4, 16 and 4 bytes. The
  section at the end builds the RFC's big-endian filters and interprets the locales on them.
\<close>

section \<open>Protocol data (libvirt-sandbox-protocol.x)\<close>

text \<open>
  XDR enums are carried as 32-bit integers and decoded without a range check, so the fields of
  a header are raw words; the enumerators are constants.
\<close>

definition PACKET_MAX :: nat where "PACKET_MAX = 262144"
definition LEN_MAX :: nat where "LEN_MAX = 4"
definition HEADER_MAX :: nat where "HEADER_MAX = 16"
definition PAYLOAD_MAX :: nat where "PAYLOAD_MAX = 262128"

definition HANDSHAKE_WAIT :: byte where "HANDSHAKE_WAIT = 27"
definition HANDSHAKE_SYNC :: byte where "HANDSHAKE_SYNC = 28"

definition PROC_STDIN :: u32 where "PROC_STDIN = 1"
definition PROC_STDOUT :: u32 where "PROC_STDOUT = 2"
definition PROC_STDERR :: u32 where "PROC_STDERR = 3"
definition PROC_EXIT :: u32 where "PROC_EXIT = 4"
definition PROC_QUIT :: u32 where "PROC_QUIT = 5"

definition TYPE_MESSAGE :: u32 where "TYPE_MESSAGE = 0"
definition TYPE_DATA :: u32 where "TYPE_DATA = 1"

definition STATUS_OK :: u32 where "STATUS_OK = 0"

record rpc_header =
  h_proc :: u32
  h_type :: u32
  h_status :: u32
  h_serial :: u32

lemmas proc_defs = PROC_STDIN_def PROC_STDOUT_def PROC_STDERR_def PROC_EXIT_def PROC_QUIT_def
lemmas size_defs = PACKET_MAX_def LEN_MAX_def HEADER_MAX_def PAYLOAD_MAX_def

lemma procs_distinct [simp]:
  "PROC_STDOUT \<noteq> PROC_STDIN" "PROC_STDERR \<noteq> PROC_STDIN" "PROC_EXIT \<noteq> PROC_STDIN"
  "PROC_QUIT \<noteq> PROC_STDIN" "PROC_STDERR \<noteq> PROC_STDOUT" "PROC_EXIT \<noteq> PROC_STDOUT"
  "PROC_QUIT \<noteq> PROC_STDOUT" "PROC_EXIT \<noteq> PROC_STDERR" "PROC_QUIT \<noteq> PROC_STDERR"
  "PROC_QUIT \<noteq> PROC_EXIT"
  by (simp_all add: proc_defs)

lemmas procs_distinct_sym [simp] = procs_distinct [symmetric]

lemma handshake_distinct [simp]:
  "HANDSHAKE_WAIT \<noteq> HANDSHAKE_SYNC" "HANDSHAKE_SYNC \<noteq> HANDSHAKE_WAIT"
  by (simp_all add: HANDSHAKE_WAIT_def HANDSHAKE_SYNC_def)

section \<open>Filters\<close>

text \<open>
  A filter over a memory stream: \<open>xenc f space v\<close> is the bytes it writes when \<open>space\<close> bytes
  are left (\<open>None\<close> where the routine returns FALSE), \<open>xdec f bs\<close> the value it reads from the
  bytes that are left and the number of bytes it consumed (what \<open>xdr_getpos\<close> returns).
\<close>

record 'a xdr_filter =
  xenc :: "nat \<Rightarrow> 'a \<Rightarrow> byte list option"
  xdec :: "byte list \<Rightarrow> ('a \<times> nat) option"

record xdr_lib =
  xdr_u_int :: "u32 xdr_filter"
  xdr_header :: "rpc_header xdr_filter"
  xdr_exit :: "u32 xdr_filter"

definition xbytes :: "'a xdr_filter \<Rightarrow> nat \<Rightarrow> 'a \<Rightarrow> byte list" where
  "xbytes f n v = the (xenc f n v)"

definition xval :: "'a xdr_filter \<Rightarrow> byte list \<Rightarrow> 'a" where
  "xval f bs = fst (the (xdec f bs))"

locale xdr_fixed =
  fixes f :: "'a xdr_filter" and n :: nat
  assumes enc_enough: "n \<le> space \<Longrightarrow> \<exists>bs. xenc f space v = Some bs \<and> length bs = n"
    and enc_short: "space < n \<Longrightarrow> xenc f space v = None"
    and enc_space: "xenc f s v = Some bs \<Longrightarrow> xenc f s' v = Some bs' \<Longrightarrow> bs' = bs"
    and dec_enough: "n \<le> length bs \<Longrightarrow> \<exists>v. xdec f bs = Some (v, n)"
    and dec_short: "length bs < n \<Longrightarrow> xdec f bs = None"
    and dec_take: "n \<le> length bs \<Longrightarrow> xdec f (take n bs) = xdec f bs"
    and dec_enc: "xenc f s v = Some bs \<Longrightarrow> xdec f bs = Some (v, n)"
begin

lemma enc_eq: "xenc f space v = (if n \<le> space then Some (xbytes f n v) else None)"
proof (cases "n \<le> space")
  case True
  obtain bs bs' where "xenc f space v = Some bs" "xenc f n v = Some bs'"
    using enc_enough [OF True] enc_enough [OF order_refl] by blast
  moreover from this have "bs' = bs" by (rule enc_space)
  ultimately show ?thesis using True by (simp add: xbytes_def)
next
  case False
  then show ?thesis by (simp add: enc_short)
qed

lemma length_xbytes [simp]: "length (xbytes f n v) = n"
  using enc_enough [OF order_refl, of v] by (auto simp: xbytes_def)

lemma dec_eq: "xdec f bs = (if n \<le> length bs then Some (xval f (take n bs), n) else None)"
proof (cases "n \<le> length bs")
  case True
  with dec_enough [OF True] dec_take [OF True] show ?thesis by (auto simp: xval_def)
next
  case False
  then show ?thesis by (simp add: dec_short)
qed

lemma xval_xbytes [simp]: "xval f (xbytes f n v) = v"
  using dec_enc [of n v "xbytes f n v"] by (simp add: enc_eq xval_def)

lemma dec_append: "xdec f (xbytes f n v @ rest) = Some (v, n)"
  by (simp add: dec_eq)

end

locale xdr_library =
  fixes X :: xdr_lib
  assumes u_int_4: "xdr_fixed (xdr_u_int X) 4"
    and header_16: "xdr_fixed (xdr_header X) 16"
    and exit_4: "xdr_fixed (xdr_exit X) 4"
begin

lemmas u_int_enc = xdr_fixed.enc_eq [OF u_int_4]
  and u_int_dec = xdr_fixed.dec_eq [OF u_int_4]
  and header_enc = xdr_fixed.enc_eq [OF header_16]
  and header_dec = xdr_fixed.dec_eq [OF header_16]
  and exit_enc = xdr_fixed.enc_eq [OF exit_4]
  and exit_dec = xdr_fixed.dec_eq [OF exit_4]

lemmas lengths = xdr_fixed.length_xbytes [OF u_int_4] xdr_fixed.length_xbytes [OF header_16]
  xdr_fixed.length_xbytes [OF exit_4]

lemmas vals = xdr_fixed.xval_xbytes [OF u_int_4] xdr_fixed.xval_xbytes [OF header_16]
  xdr_fixed.xval_xbytes [OF exit_4]

lemmas filters = u_int_enc u_int_dec header_enc header_dec exit_enc exit_dec lengths vals

end

section \<open>The big-endian filters of RFC 4506\<close>

definition be32 :: "u32 \<Rightarrow> byte list" where
  "be32 w = [ucast (drop_bit 24 w), ucast (drop_bit 16 w), ucast (drop_bit 8 w), ucast w]"

fun un_be32 :: "byte list \<Rightarrow> u32" where
  "un_be32 (a # b # c # d # _) =
     push_bit 24 (ucast a) OR push_bit 16 (ucast b) OR push_bit 8 (ucast c) OR ucast d"
| "un_be32 _ = 0"

lemma length_be32 [simp]: "length (be32 w) = 4"
  by (simp add: be32_def)

lemma un_be32_be32 [simp]: "un_be32 (be32 w) = w"
proof (rule bit_word_eqI)
  fix i assume "i < LENGTH(32)"
  then consider "i < 8" | "8 \<le> i" "i < 16" | "16 \<le> i" "i < 24" | "24 \<le> i" "i < 32"
    by fastforce
  then show "bit (un_be32 (be32 w)) i = bit w i"
    by cases (auto simp: be32_def bit_simps)
qed

lemma un_be32_take [simp]: "4 \<le> length bs \<Longrightarrow> un_be32 (take 4 bs) = un_be32 bs"
  by (induction bs rule: un_be32.induct) auto

definition u_int_filter :: "u32 xdr_filter" where
  "u_int_filter =
     \<lparr>xenc = (\<lambda>space w. if 4 \<le> space then Some (be32 w) else None),
      xdec = (\<lambda>bs. if 4 \<le> length bs then Some (un_be32 (take 4 bs), 4) else None)\<rparr>"

definition seq_filter :: "'a xdr_filter \<Rightarrow> 'b xdr_filter \<Rightarrow> ('a \<times> 'b) xdr_filter" where
  "seq_filter f g =
     \<lparr>xenc = (\<lambda>space v. case xenc f space (fst v) of None \<Rightarrow> None
        | Some bs \<Rightarrow> (case xenc g (space - length bs) (snd v) of None \<Rightarrow> None
             | Some cs \<Rightarrow> Some (bs @ cs))),
      xdec = (\<lambda>bs. case xdec f bs of None \<Rightarrow> None
        | Some (a, m) \<Rightarrow> (case xdec g (drop m bs) of None \<Rightarrow> None
             | Some (b, n) \<Rightarrow> Some ((a, b), m + n)))\<rparr>"

definition iso_filter :: "('b \<Rightarrow> 'a) \<Rightarrow> ('a \<Rightarrow> 'b) \<Rightarrow> 'a xdr_filter \<Rightarrow> 'b xdr_filter" where
  "iso_filter to from f =
     \<lparr>xenc = (\<lambda>space v. xenc f space (to v)),
      xdec = (\<lambda>bs. map_option (\<lambda>(a, n). (from a, n)) (xdec f bs))\<rparr>"

text \<open>The filters rpcgen builds from a struct: its fields in order, each with its own filter.\<close>

definition header_filter :: "rpc_header xdr_filter" where
  "header_filter =
     iso_filter (\<lambda>h. (h_proc h, h_type h, h_status h, h_serial h))
       (\<lambda>(p, t, s, n). \<lparr>h_proc = p, h_type = t, h_status = s, h_serial = n\<rparr>)
       (seq_filter u_int_filter
         (seq_filter u_int_filter (seq_filter u_int_filter u_int_filter)))"

definition rfc4506 :: xdr_lib where
  "rfc4506 = \<lparr>xdr_u_int = u_int_filter, xdr_header = header_filter, xdr_exit = u_int_filter\<rparr>"

interpretation u_int: xdr_fixed u_int_filter 4
  by unfold_locales (auto simp: u_int_filter_def split: if_splits)

lemma xdr_fixed_seq:
  assumes "xdr_fixed f m" "xdr_fixed g n"
  shows "xdr_fixed (seq_filter f g) (m + n)"
proof -
  note F = xdr_fixed.enc_eq [OF assms(1)] xdr_fixed.dec_eq [OF assms(1)]
    xdr_fixed.length_xbytes [OF assms(1)] xdr_fixed.xval_xbytes [OF assms(1)]
  note G = xdr_fixed.enc_eq [OF assms(2)] xdr_fixed.dec_eq [OF assms(2)]
    xdr_fixed.length_xbytes [OF assms(2)] xdr_fixed.xval_xbytes [OF assms(2)]
  show ?thesis
  proof
    fix v :: "'a \<times> 'b" and s s' bs bs'
    assume "xenc (seq_filter f g) s v = Some bs"
    then show "xdec (seq_filter f g) bs = Some (v, m + n)"
      by (auto simp: seq_filter_def F G split: if_splits)
  qed (auto simp: seq_filter_def F G min_def drop_take split: if_splits)
qed

lemma xdr_fixed_iso:
  assumes "xdr_fixed f n" "\<And>v. from (to v) = v"
  shows "xdr_fixed (iso_filter to from f) n"
proof -
  note F = xdr_fixed.enc_eq [OF assms(1)] xdr_fixed.dec_eq [OF assms(1)]
    xdr_fixed.length_xbytes [OF assms(1)] xdr_fixed.xval_xbytes [OF assms(1)]
  show ?thesis
    by unfold_locales (auto simp: iso_filter_def F assms(2) split: if_splits)
qed

interpretation header: xdr_fixed header_filter 16
proof -
  have "xdr_fixed (seq_filter u_int_filter
      (seq_filter u_int_filter (seq_filter u_int_filter u_int_filter))) (4 + (4 + (4 + 4)))"
    by (intro xdr_fixed_seq u_int.xdr_fixed_axioms)
  then show "xdr_fixed header_filter 16"
    unfolding header_filter_def by (intro xdr_fixed_iso) auto
qed

interpretation rfc: xdr_library rfc4506
  by (rule xdr_library.intro)
    (simp_all add: rfc4506_def u_int.xdr_fixed_axioms header.xdr_fixed_axioms)

end
