(* ===== verification/Rpc_Packet.thy ===== *)
theory Rpc_Packet
  imports Xdr
begin

text \<open>
  The RPC packet of libvirt-sandbox-rpcpacket.c and .h: one fixed array that holds a length
  word, a header and a payload, with the length and the offset the callers move through it.
  The definitions follow the C functions of the same names (\<open>gvir_sandbox_\<close> is dropped); a
  function that sets its \<open>GError\<close> and returns FALSE is an \<open>Inl\<close>. On FALSE every caller in the
  repository frees the packet, so its content is not kept.

  The lemmas state the wire format as a separate specification (\<open>wire\<close>), prove that the
  encoders produce it and that the decoders invert it, and bound the declared length of a
  packet by its array whatever length word arrives.
\<close>

datatype rpc_error =
    Cannot_decode_length
  | Too_small u32
  | Too_large u32
  | Cannot_decode_header
  | Cannot_encode_length
  | Cannot_encode_header
  | Cannot_reencode_length
  | Cannot_encode_payload
  | Cannot_decode_payload
  | Raw_too_long nat nat

record rpc_packet =
  buffer :: "byte list"
  bufferLength :: nat
  bufferOffset :: nat
  header :: rpc_header

text \<open>\<open>sizeof(msg->buffer)\<close>\<close>

definition BUFFER_SIZE :: nat where
  "BUFFER_SIZE = PACKET_MAX + LEN_MAX"

definition zero_header :: rpc_header where
  "zero_header = \<lparr>h_proc = 0, h_type = 0, h_status = 0, h_serial = 0\<rparr>"

section \<open>Operations\<close>

definition rpcpacket_new :: "bool \<Rightarrow> rpc_packet" where
  "rpcpacket_new rxready =
     \<lparr>buffer = [], bufferLength = (if rxready then LEN_MAX else 0), bufferOffset = 0,
      header = zero_header\<rparr>"

text \<open>What \<open>xdrmem_create(\<dots>, buffer + off, bufferLength - off, \<dots>)\<close> gives the filter.\<close>

definition xdrmem_size :: "rpc_packet \<Rightarrow> nat" where
  "xdrmem_size msg = u_int_of (gsize_minus (bufferLength msg) (bufferOffset msg))"

definition xdrmem_bytes :: "rpc_packet \<Rightarrow> byte list" where
  "xdrmem_bytes msg = buf_read (buffer msg) (bufferOffset msg) (xdrmem_size msg)"

definition rpcpacket_decode_length :: "xdr_lib \<Rightarrow> rpc_packet \<Rightarrow> rpc_error + rpc_packet" where
  "rpcpacket_decode_length X msg =
     (case xdec (xdr_u_int X) (buf_read (buffer msg) 0 (u_int_of (bufferLength msg))) of
        None \<Rightarrow> Inl Cannot_decode_length
      | Some (len, pos) \<Rightarrow>
          let msg = msg\<lparr>bufferOffset := pos\<rparr> in
          if len < of_nat LEN_MAX then Inl (Too_small len)
          else
            let len = len - of_nat LEN_MAX in
            if len > of_nat PACKET_MAX then Inl (Too_large len)
            else Inr (msg\<lparr>bufferLength := bufferLength msg + unat len\<rparr>))"

definition rpcpacket_decode_header :: "xdr_lib \<Rightarrow> rpc_packet \<Rightarrow> rpc_error + rpc_packet" where
  "rpcpacket_decode_header X msg =
     (let msg = msg\<lparr>bufferOffset := LEN_MAX\<rparr> in
      case xdec (xdr_header X) (xdrmem_bytes msg) of
        None \<Rightarrow> Inl Cannot_decode_header
      | Some (h, pos) \<Rightarrow>
          Inr (msg\<lparr>header := h, bufferOffset := bufferOffset msg + pos\<rparr>))"

definition rpcpacket_encode_header :: "xdr_lib \<Rightarrow> rpc_packet \<Rightarrow> rpc_error + rpc_packet" where
  "rpcpacket_encode_header X msg =
     (let msg = msg\<lparr>bufferLength := BUFFER_SIZE, bufferOffset := 0\<rparr>;
          space = u_int_of (bufferLength msg)
      in case xenc (xdr_u_int X) space 0 of
        None \<Rightarrow> Inl Cannot_encode_length
      | Some lenw \<Rightarrow>
        (case xenc (xdr_header X) (space - length lenw) (header msg) of
           None \<Rightarrow> Inl Cannot_encode_header
         | Some hdr \<Rightarrow>
             let buf = buf_write (buf_write (buffer msg) 0 lenw) (length lenw) hdr;
                 len = length lenw + length hdr
             in case xenc (xdr_u_int X) space (of_nat len) of
                  None \<Rightarrow> Inl Cannot_reencode_length
                | Some lenw' \<Rightarrow>
                    Inr (msg\<lparr>buffer := buf_write buf 0 lenw',
                             bufferOffset := bufferOffset msg + len\<rparr>)))"

text \<open>
  The tail shared by the three payload encoders: the length word is written again with the
  final offset, and the packet is made ready to be sent from its start.
\<close>

definition reencode_length :: "xdr_lib \<Rightarrow> rpc_packet \<Rightarrow> rpc_error + rpc_packet" where
  "reencode_length X msg =
     (case xenc (xdr_u_int X) LEN_MAX (of_nat (bufferOffset msg)) of
        None \<Rightarrow> Inl Cannot_encode_length
      | Some lenw \<Rightarrow>
          Inr (msg\<lparr>buffer := buf_write (buffer msg) 0 lenw,
                   bufferLength := bufferOffset msg, bufferOffset := 0\<rparr>))"

definition rpcpacket_encode_payload_msg ::
  "xdr_lib \<Rightarrow> 'a xdr_filter \<Rightarrow> 'a \<Rightarrow> rpc_packet \<Rightarrow> rpc_error + rpc_packet" where
  "rpcpacket_encode_payload_msg X flt data msg =
     (case xenc flt (xdrmem_size msg) data of
        None \<Rightarrow> Inl Cannot_encode_payload
      | Some bs \<Rightarrow>
          reencode_length X
            (msg\<lparr>buffer := buf_write (buffer msg) (bufferOffset msg) bs,
                 bufferOffset := bufferOffset msg + length bs\<rparr>))"

definition rpcpacket_decode_payload_msg ::
  "'a xdr_filter \<Rightarrow> rpc_packet \<Rightarrow> rpc_error + (rpc_packet \<times> 'a)" where
  "rpcpacket_decode_payload_msg flt msg =
     (case xdec flt (xdrmem_bytes msg) of
        None \<Rightarrow> Inl Cannot_decode_payload
      | Some (v, pos) \<Rightarrow> Inr (msg\<lparr>bufferOffset := bufferOffset msg + pos\<rparr>, v))"

definition rpcpacket_encode_payload_raw ::
  "xdr_lib \<Rightarrow> byte list \<Rightarrow> rpc_packet \<Rightarrow> rpc_error + rpc_packet" where
  "rpcpacket_encode_payload_raw X data msg =
     (if gsize_minus (bufferLength msg) (bufferOffset msg) < length data
      then Inl (Raw_too_long (length data) (gsize_minus (bufferLength msg) (bufferOffset msg)))
      else reencode_length X
             (msg\<lparr>buffer := buf_write (buffer msg) (bufferOffset msg) data,
                  bufferOffset := bufferOffset msg + length data\<rparr>))"

definition rpcpacket_encode_payload_empty :: "xdr_lib \<Rightarrow> rpc_packet \<Rightarrow> rpc_error + rpc_packet" where
  "rpcpacket_encode_payload_empty X msg = reencode_length X msg"

section \<open>Closed forms over a library that obeys RFC 4506\<close>

lemma buf_write_end [buf_simps]: "off = length b \<Longrightarrow> buf_write b off bs = b @ bs"
  by (simp add: buf_write_def)

lemma buf_write_prefix [buf_simps]: "length a = length c \<Longrightarrow> buf_write (a @ b) 0 c = c @ b"
  by (simp add: buf_write_def)

lemma buf_read_append_left [buf_simps]: "n = length a \<Longrightarrow> buf_read (a @ b) 0 n = a"
  by (simp add: buf_read_def)

lemma buf_read_append_right [buf_simps]:
  "off = length a \<Longrightarrow> buf_read (a @ b) off n = buf_read b 0 n"
  by (simp add: buf_read_def)

lemma buffer_size: "BUFFER_SIZE = 262148"
  by (simp add: BUFFER_SIZE_def size_defs)

lemmas packet_sizes = size_defs buffer_size

definition packet_bytes :: "rpc_packet \<Rightarrow> byte list" where
  "packet_bytes p = buf_read (buffer p) 0 (bufferLength p)"

text \<open>The bytes of a packet on the wire: the total length, the header, the payload.\<close>

definition wire :: "xdr_lib \<Rightarrow> rpc_header \<Rightarrow> byte list \<Rightarrow> byte list" where
  "wire X h payload =
     xbytes (xdr_u_int X) 4 (of_nat (20 + length payload)) @ xbytes (xdr_header X) 16 h @ payload"

text \<open>A packet that is ready to be sent, with the given header and payload.\<close>

definition wire_packet :: "xdr_lib \<Rightarrow> rpc_header \<Rightarrow> byte list \<Rightarrow> rpc_packet" where
  "wire_packet X h payload =
     \<lparr>buffer = wire X h payload, bufferLength = 20 + length payload, bufferOffset = 0,
      header = h\<rparr>"

lemma wire_packet_sel [simp]:
  "buffer (wire_packet X h payload) = wire X h payload"
  "bufferLength (wire_packet X h payload) = 20 + length payload"
  "bufferOffset (wire_packet X h payload) = 0"
  "header (wire_packet X h payload) = h"
  by (simp_all add: wire_packet_def)

definition packet_ok :: "rpc_packet \<Rightarrow> bool" where
  "packet_ok p \<longleftrightarrow> bufferOffset p \<le> bufferLength p \<and> bufferLength p \<le> BUFFER_SIZE"

lemma packet_ok_new [simp]: "packet_ok (rpcpacket_new r)"
  by (simp add: packet_ok_def rpcpacket_new_def packet_sizes)

lemma packet_ok_xdrmem_size:
  "packet_ok p \<Longrightarrow> xdrmem_size p = bufferLength p - bufferOffset p"
  by (auto simp: packet_ok_def xdrmem_size_def packet_sizes gsize_simps)

context xdr_library
begin

lemma length_wire [simp]: "length (wire X h payload) = 20 + length payload"
  by (simp add: wire_def lengths)

lemma packet_bytes_wire [simp]: "packet_bytes (wire_packet X h payload) = wire X h payload"
  by (simp add: packet_bytes_def wire_packet_def) (metis buf_read_full length_wire)

lemma drop_wire [simp]: "drop 20 (wire X h payload) = payload"
  by (simp add: wire_def lengths)

lemma encode_header_fresh:
  assumes "buffer msg = []"
  shows "rpcpacket_encode_header X msg =
    Inr (msg\<lparr>buffer := xbytes (xdr_u_int X) 4 20 @ xbytes (xdr_header X) 16 (header msg),
             bufferLength := BUFFER_SIZE, bufferOffset := 20\<rparr>)"
  using assms
  by (simp add: rpcpacket_encode_header_def Let_def filters packet_sizes gsize_simps buf_simps)

lemma reencode_length_eq:
  assumes "buffer msg = lenw @ body" "length lenw = 4"
  shows "reencode_length X msg =
    Inr (msg\<lparr>buffer := xbytes (xdr_u_int X) 4 (of_nat (bufferOffset msg)) @ body,
             bufferLength := bufferOffset msg, bufferOffset := 0\<rparr>)"
  using assms by (simp add: reencode_length_def filters packet_sizes buf_simps)

lemma encode_raw_fresh:
  assumes "buffer msg = []" "rpcpacket_encode_header X msg = Inr m"
  shows "rpcpacket_encode_payload_raw X data m =
    (if length data \<le> PAYLOAD_MAX then Inr (wire_packet X (header msg) data)
     else Inl (Raw_too_long (length data) PAYLOAD_MAX))"
  using assms
  by (auto simp: encode_header_fresh rpcpacket_encode_payload_raw_def packet_sizes gsize_simps
      reencode_length_eq [where lenw = "xbytes (xdr_u_int X) 4 20"] lengths buf_simps
      wire_packet_def wire_def add.commute)

lemma encode_msg_fresh:
  assumes "buffer msg = []" "rpcpacket_encode_header X msg = Inr m" "xdr_fixed f n" "n \<le> PAYLOAD_MAX"
  shows "rpcpacket_encode_payload_msg X f v m = Inr (wire_packet X (header msg) (xbytes f n v))"
proof -
  note F = xdr_fixed.enc_eq [OF assms(3)] xdr_fixed.length_xbytes [OF assms(3)]
  show ?thesis
    using assms(1,2,4)
    by (auto simp: encode_header_fresh rpcpacket_encode_payload_msg_def packet_sizes gsize_simps
        xdrmem_size_def F reencode_length_eq [where lenw = "xbytes (xdr_u_int X) 4 20"] lengths
        buf_simps wire_packet_def wire_def add.commute)
qed

lemma encode_empty_fresh:
  assumes "buffer msg = []" "rpcpacket_encode_header X msg = Inr m"
  shows "rpcpacket_encode_payload_empty X m = Inr (wire_packet X (header msg) [])"
  using assms
  by (auto simp: encode_header_fresh rpcpacket_encode_payload_empty_def
      reencode_length_eq [where lenw = "xbytes (xdr_u_int X) 4 20"] lengths
      wire_packet_def wire_def)

lemma decode_length_eq:
  assumes "4 \<le> bufferLength msg" "bufferLength msg \<le> BUFFER_SIZE"
  shows "rpcpacket_decode_length X msg =
    (let len = xval (xdr_u_int X) (buf_read (buffer msg) 0 4) in
     if unat len < 4 then Inl (Too_small len)
     else if 262148 < unat len then Inl (Too_large (len - 4))
     else Inr (msg\<lparr>bufferOffset := 4, bufferLength := bufferLength msg + unat len - 4\<rparr>))"
proof -
  have sub: "unat (len - 4) = unat len - 4" if "4 \<le> unat len" for len :: u32
    using that by (simp add: unat_sub word_le_nat_alt)
  have lt: "len < 4 \<longleftrightarrow> unat len < 4" for len :: u32
    by (simp add: word_less_nat_alt)
  have gt: "len - 4 > 262144 \<longleftrightarrow> 262148 < unat len" if "4 \<le> unat len" for len :: u32
    using that by (simp add: word_less_nat_alt sub) arith
  show ?thesis
    using assms
    by (simp add: rpcpacket_decode_length_def packet_sizes filters gsize_simps buf_read_take
        Let_def lt gt sub)
qed

lemma decode_header_eq:
  assumes "4 \<le> bufferLength msg" "bufferLength msg \<le> BUFFER_SIZE"
  shows "rpcpacket_decode_header X msg =
    (if 20 \<le> bufferLength msg
     then Inr (msg\<lparr>bufferOffset := 20,
                   header := xval (xdr_header X) (buf_read (buffer msg) 4 16)\<rparr>)
     else Inl Cannot_decode_header)"
  using assms
  by (auto simp: rpcpacket_decode_header_def Let_def packet_sizes filters xdrmem_bytes_def
      xdrmem_size_def gsize_simps buf_read_take)

end

section \<open>Properties\<close>

lemma unat_wire_length: "length data \<le> PAYLOAD_MAX \<Longrightarrow>
    unat (of_nat (20 + length data) :: u32) = 20 + length data"
  by (simp add: packet_sizes unat_of_nat del: of_nat_add)

lemma decode_wire_length:
  assumes "xdr_library X" "length data \<le> PAYLOAD_MAX" "buffer msg = take 4 (wire X h data)"
    "bufferLength msg = 4"
  shows "rpcpacket_decode_length X msg =
    Inr (msg\<lparr>bufferOffset := 4, bufferLength := 20 + length data\<rparr>)"
proof -
  have buf: "buf_read (buffer msg) 0 4 = xbytes (xdr_u_int X) 4 (of_nat (20 + length data))"
    using assms(1,3) by (simp add: wire_def xdr_library.lengths buf_read_def)
  have "unat (of_nat (20 + length data) :: u32) = 20 + length data"
    using assms(2) by (rule unat_wire_length)
  with buf assms(1,2,4) show ?thesis
    by (simp add: xdr_library.decode_length_eq xdr_library.vals packet_sizes Let_def
        del: of_nat_add)
qed

lemma decode_wire_header:
  assumes "xdr_library X" "length data \<le> PAYLOAD_MAX" "buffer msg = wire X h data"
    "bufferLength msg = 20 + length data"
  shows "rpcpacket_decode_header X msg = Inr (msg\<lparr>bufferOffset := 20, header := h\<rparr>)"
proof -
  have "buf_read (buffer msg) 4 16 = xbytes (xdr_header X) 16 h"
    using assms(1,3) by (simp add: wire_def xdr_library.lengths buf_read_def)
  with assms show ?thesis
    by (simp add: xdr_library.decode_header_eq xdr_library.vals packet_sizes)
qed

text \<open>
  C2. Whatever a sender packs with \<open>encode_header\<close> and \<open>encode_payload_raw\<close>, a receiver that
  reads the length word, extends its buffer and decodes the header gets back: the same total
  length, the same header, and the payload after the header.
\<close>

theorem raw_packet_roundtrip:
  assumes "xdr_library X" and "length data \<le> PAYLOAD_MAX"
  shows "\<exists>m p r r'.
     rpcpacket_encode_header X ((rpcpacket_new False)\<lparr>header := h\<rparr>) = Inr m \<and>
     rpcpacket_encode_payload_raw X data m = Inr p \<and>
     rpcpacket_decode_length X
       ((rpcpacket_new True)\<lparr>buffer := take 4 (packet_bytes p), bufferOffset := 4\<rparr>) = Inr r \<and>
     bufferLength r = bufferLength p \<and>
     rpcpacket_decode_header X (r\<lparr>buffer := packet_bytes p\<rparr>) = Inr r' \<and>
     header r' = h \<and> drop (bufferOffset r') (packet_bytes p) = data"
proof -
  let ?m0 = "(rpcpacket_new False)\<lparr>header := h\<rparr>"
  have fresh: "buffer ?m0 = []" "header ?m0 = h" by (simp_all add: rpcpacket_new_def)
  obtain m where m: "rpcpacket_encode_header X ?m0 = Inr m"
    using xdr_library.encode_header_fresh [OF assms(1) fresh(1)] by blast
  have p: "rpcpacket_encode_payload_raw X data m = Inr (wire_packet X h data)"
    using xdr_library.encode_raw_fresh [OF assms(1) fresh(1) m] assms(2) fresh(2) by simp
  let ?p = "wire_packet X h data"
  let ?rx = "(rpcpacket_new True)\<lparr>buffer := take 4 (packet_bytes ?p), bufferOffset := 4\<rparr>"
  note bytes = xdr_library.packet_bytes_wire [OF assms(1), of h data]
  have r: "rpcpacket_decode_length X ?rx =
     Inr (?rx\<lparr>bufferOffset := 4, bufferLength := 20 + length data\<rparr>)" (is "_ = Inr ?r")
    by (rule decode_wire_length [OF assms]) (simp_all add: bytes rpcpacket_new_def size_defs)
  have h: "rpcpacket_decode_header X (?r\<lparr>buffer := packet_bytes ?p\<rparr>) =
     Inr (?r\<lparr>buffer := packet_bytes ?p, bufferOffset := 20, header := h\<rparr>)" (is "_ = Inr ?r'")
    by (rule decode_wire_header [OF assms]) (simp_all add: bytes)
  have "bufferLength ?r = bufferLength ?p" "header ?r' = h"
    "drop (bufferOffset ?r') (packet_bytes ?p) = data"
    by (simp_all add: bytes xdr_library.drop_wire [OF assms(1)])
  with m p r h show ?thesis by blast
qed

definition sample_header :: rpc_header where
  "sample_header = \<lparr>h_proc = PROC_STDIN, h_type = TYPE_DATA, h_status = STATUS_OK, h_serial = 7\<rparr>"

theorem raw_packet_roundtrip_witness:
  "\<exists>m p r r'.
     rpcpacket_encode_header rfc4506 ((rpcpacket_new False)\<lparr>header := sample_header\<rparr>) = Inr m \<and>
     rpcpacket_encode_payload_raw rfc4506 [104, 105] m = Inr p \<and>
     rpcpacket_decode_length rfc4506
       ((rpcpacket_new True)\<lparr>buffer := take 4 (packet_bytes p), bufferOffset := 4\<rparr>) = Inr r \<and>
     bufferLength r = bufferLength p \<and>
     rpcpacket_decode_header rfc4506 (r\<lparr>buffer := packet_bytes p\<rparr>) = Inr r' \<and>
     header r' = sample_header \<and> drop (bufferOffset r') (packet_bytes p) = [104, 105]"
  by (rule raw_packet_roundtrip [OF rfc.xdr_library_axioms]) (simp add: size_defs)

lemma decode_length_accepts:
  assumes "xdr_library X" and "bufferLength msg = LEN_MAX"
  defines "len \<equiv> unat (xval (xdr_u_int X) (buf_read (buffer msg) 0 4))"
  shows "((\<exists>m. rpcpacket_decode_length X msg = Inr m) \<longleftrightarrow> LEN_MAX \<le> len \<and> len \<le> BUFFER_SIZE) \<and>
    (case rpcpacket_decode_length X msg of
       Inl _ \<Rightarrow> True
     | Inr m \<Rightarrow> bufferLength m = len \<and> bufferOffset m = 4 \<and> packet_ok m \<and> buffer m = buffer msg)"
  using assms(1,2)
  by (auto simp: xdr_library.decode_length_eq len_def packet_sizes packet_ok_def Let_def)

text \<open>
  C3. A length word read from the peer is accepted exactly when it lies between 4 and 262148,
  and then the declared length of the packet is that word: the array can never be overrun by a
  packet whose length word was accepted, and nothing is accepted that would wrap around.
\<close>

theorem decode_length_bounds:
  assumes "xdr_library X" and "bufferLength msg = LEN_MAX"
  defines "len \<equiv> unat (xval (xdr_u_int X) (buf_read (buffer msg) 0 4))"
  shows "((\<exists>m. rpcpacket_decode_length X msg = Inr m) \<longleftrightarrow> LEN_MAX \<le> len \<and> len \<le> BUFFER_SIZE) \<and>
    (case rpcpacket_decode_length X msg of
       Inl _ \<Rightarrow> True
     | Inr m \<Rightarrow> bufferLength m = len \<and> bufferOffset m = 4 \<and> packet_ok m \<and> buffer m = buffer msg)"
  unfolding len_def by (rule decode_length_accepts [OF assms(1,2)])

theorem decode_length_bounds_witness:
  "\<exists>m. rpcpacket_decode_length rfc4506
     ((rpcpacket_new True)\<lparr>buffer := [0, 4, 0, 4], bufferOffset := 4\<rparr>) = Inr m"
proof -
  let ?msg = "(rpcpacket_new True)\<lparr>buffer := [0, 4, 0, 4], bufferOffset := 4\<rparr>"
  have len: "unat (xval (xdr_u_int rfc4506) (buf_read (buffer ?msg) 0 4)) = 262148"
    by (simp add: xval_def rfc4506_def u_int_filter_def buf_read_def)
  show ?thesis
    using decode_length_bounds [OF rfc.xdr_library_axioms, of ?msg] len
    by (simp add: rpcpacket_new_def packet_sizes)
qed

text \<open>
  \<open>encode_payload_raw\<close> on a packet whose header has been encoded fails exactly on a payload
  of more than 262128 bytes, and reports the sizes; otherwise the bytes to be sent are the wire
  format, the packet is rewound and its declared length fits the array.
\<close>

theorem encode_raw_limit:
  assumes "xdr_library X" and "rpcpacket_encode_header X ((rpcpacket_new False)\<lparr>header := h\<rparr>) = Inr m"
  shows "case rpcpacket_encode_payload_raw X data m of
       Inl e \<Rightarrow> PAYLOAD_MAX < length data \<and> e = Raw_too_long (length data) PAYLOAD_MAX
     | Inr p \<Rightarrow> length data \<le> PAYLOAD_MAX \<and> packet_bytes p = wire X h data \<and>
                bufferOffset p = 0 \<and> packet_ok p"
proof -
  have fresh: "buffer ((rpcpacket_new False)\<lparr>header := h\<rparr>) = []" by (simp add: rpcpacket_new_def)
  from xdr_library.encode_raw_fresh [OF assms(1) fresh assms(2)]
    xdr_library.packet_bytes_wire [OF assms(1)]
  show ?thesis
    by (simp add: packet_ok_def packet_sizes)
qed

theorem encode_raw_limit_witness:
  "\<exists>m. rpcpacket_encode_header rfc4506 ((rpcpacket_new False)\<lparr>header := sample_header\<rparr>) = Inr m \<and>
     (case rpcpacket_encode_payload_raw rfc4506 (replicate 262129 0) m of
       Inl e \<Rightarrow> e = Raw_too_long 262129 262128 | Inr p \<Rightarrow> False)"
proof -
  have fresh: "buffer ((rpcpacket_new False)\<lparr>header := sample_header\<rparr>) = []"
    by (simp add: rpcpacket_new_def)
  obtain m where m: "rpcpacket_encode_header rfc4506
      ((rpcpacket_new False)\<lparr>header := sample_header\<rparr>) = Inr m"
    using xdr_library.encode_header_fresh [OF rfc.xdr_library_axioms fresh] by blast
  show ?thesis
    using m encode_raw_limit [OF rfc.xdr_library_axioms m, of "replicate 262129 0"]
    by (auto simp: packet_sizes split: sum.splits)
qed

end
