(* ===== verification/Framing.thy ===== *)
theory Framing
  imports Rpc_Packet "HOL-Library.Sublist"
begin

text \<open>
  What a reader of a byte stream relies on: frames that are not empty, of which none is a proper
  prefix of another, and which carry one message each. The locale \<open>frame_format\<close> states it and
  proves that a stream determines its messages; the RPC packets of \<open>Rpc_Packet\<close> are shown to be
  such frames, for every XDR library that obeys its laws.
\<close>

definition framed :: "(byte list \<Rightarrow> 'm \<Rightarrow> bool) \<Rightarrow> byte list \<Rightarrow> 'm list \<Rightarrow> bool" where
  "framed P bs ms \<longleftrightarrow> (\<exists>fs. bs = concat fs \<and> list_all2 P fs ms)"

lemma framed_Nil [simp, intro]: "framed P [] []"
  by (auto simp: framed_def)

lemma framed_append: "framed P a ms \<Longrightarrow> framed P b ns \<Longrightarrow> framed P (a @ b) (ms @ ns)"
  unfolding framed_def by (metis concat_append list_all2_appendI)

lemma framed_single: "P f m \<Longrightarrow> framed P f [m]"
  unfolding framed_def by (rule exI [of _ "[f]"]) simp

lemma framed_snoc: "framed P a ms \<Longrightarrow> P f m \<Longrightarrow> framed P (a @ f) (ms @ [m])"
  by (intro framed_append framed_single)

locale frame_format =
  fixes P :: "byte list \<Rightarrow> 'm \<Rightarrow> bool"
  assumes frame_nonempty: "P f m \<Longrightarrow> f \<noteq> []"
    and frame_prefix_free: "P f m \<Longrightarrow> P g n \<Longrightarrow> f @ x = g @ y \<Longrightarrow> f = g"
    and frame_functional: "P f m \<Longrightarrow> P f n \<Longrightarrow> m = n"
begin

lemma frames_prefix:
  "list_all2 P fs ms \<Longrightarrow> list_all2 P gs ns \<Longrightarrow> concat gs = concat fs @ r \<Longrightarrow> prefix ms ns"
proof (induction fs arbitrary: ms gs ns)
  case Nil
  then show ?case by simp
next
  case (Cons f fs)
  then obtain m ms' where ms: "ms = m # ms'" "P f m" "list_all2 P fs ms'"
    by (auto simp: list_all2_Cons1)
  from Cons.prems(3) frame_nonempty [OF ms(2)] obtain g gs' where gs: "gs = g # gs'"
    by (cases gs) auto
  with Cons.prems(2) obtain n ns' where ns: "ns = n # ns'" "P g n" "list_all2 P gs' ns'"
    by (auto simp: list_all2_Cons1)
  have fg: "f = g"
    using frame_prefix_free [OF ms(2) ns(2), of "concat fs @ r" "concat gs'"] Cons.prems(3) gs
    by simp
  moreover from this have "m = n" using ms(2) ns(2) frame_functional by blast
  moreover have "prefix ms' ns'"
    using Cons.IH [OF ms(3) ns(3)] Cons.prems(3) gs fg by simp
  ultimately show ?case using ms ns by simp
qed

lemma framed_prefix: "framed P a ms \<Longrightarrow> framed P b ns \<Longrightarrow> prefix a b \<Longrightarrow> prefix ms ns"
  unfolding framed_def prefix_def [of a b] using frames_prefix by metis

lemma framed_unique: "framed P a ms \<Longrightarrow> framed P a ns \<Longrightarrow> ms = ns"
  using framed_prefix [of a ms a ns] framed_prefix [of a ns a ms] by (simp add: prefix_order.eq_iff)

end

section \<open>RPC packets as frames\<close>

type_synonym message = "rpc_header \<times> byte list"

definition rpc_frame :: "xdr_lib \<Rightarrow> byte list \<Rightarrow> message \<Rightarrow> bool" where
  "rpc_frame X f m \<longleftrightarrow>
     20 \<le> length f \<and> length f \<le> BUFFER_SIZE \<and>
     unat (xval (xdr_u_int X) (take 4 f)) = length f \<and>
     m = (xval (xdr_header X) (take 16 (drop 4 f)), drop 20 f)"

lemma rpc_frame_format: "frame_format (rpc_frame X)"
proof
  fix f m g n x y
  assume f: "rpc_frame X f m" and g: "rpc_frame X g n" and eq: "f @ x = g @ y"
  have "take 4 (f @ x) = take 4 f" "take 4 (g @ y) = take 4 g"
    using f g by (simp_all add: rpc_frame_def)
  with eq have "take 4 f = take 4 g" by simp
  with f g have "length f = length g" by (simp add: rpc_frame_def)
  with eq show "f = g" by simp
qed (auto simp: rpc_frame_def)

sublocale xdr_library \<subseteq> frames: frame_format "rpc_frame X"
  by (rule rpc_frame_format)

interpretation rfc_frames: frame_format "rpc_frame rfc4506"
  by (rule rpc_frame_format)

text \<open>A sequence of messages on the wire, and the condition that each fits a packet.\<close>

definition wires :: "xdr_lib \<Rightarrow> message list \<Rightarrow> byte list" where
  "wires X ms = concat (map (\<lambda>(h, payload). wire X h payload) ms)"

definition fits :: "message list \<Rightarrow> bool" where
  "fits ms \<longleftrightarrow> (\<forall>(h, payload) \<in> set ms. length payload \<le> PAYLOAD_MAX)"

lemma wires_simps [simp]:
  "wires X [] = []" "wires X (ms @ ns) = wires X ms @ wires X ns"
  "wires X [(h, payload)] = wire X h payload"
  by (simp_all add: wires_def)

lemma fits_simps [simp]:
  "fits []" "fits (ms @ ns) \<longleftrightarrow> fits ms \<and> fits ns"
  "fits [(h, payload)] \<longleftrightarrow> length payload \<le> PAYLOAD_MAX"
  by (auto simp: fits_def)

context xdr_library
begin

lemma wire_frame: "length payload \<le> PAYLOAD_MAX \<Longrightarrow> rpc_frame X (wire X h payload) (h, payload)"
  using unat_wire_length [of payload]
  by (simp add: rpc_frame_def wire_def lengths vals packet_sizes)

lemma wires_framed: "fits ms \<Longrightarrow> framed (rpc_frame X) (wires X ms) ms"
proof (induction ms rule: rev_induct)
  case Nil
  then show ?case by simp
next
  case (snoc m ms)
  then show ?case
    by (cases m) (simp add: framed_snoc wire_frame)
qed

end

text \<open>The payloads of the messages for one procedure, in order.\<close>

definition data_of :: "u32 \<Rightarrow> message list \<Rightarrow> byte list" where
  "data_of proc ms = concat (map snd (filter (\<lambda>m. h_proc (fst m) = proc) ms))"

lemma data_of_simps [simp]:
  "data_of proc [] = []"
  "data_of proc (ms @ ns) = data_of proc ms @ data_of proc ns"
  "data_of proc [(h, payload)] = (if h_proc h = proc then payload else [])"
  by (simp_all add: data_of_def)

lemma data_of_prefix: "prefix ms ns \<Longrightarrow> prefix (data_of proc ms) (data_of proc ns)"
  by (auto simp: prefix_def)

end
