(* ===== verification/Frame_Reader.thy ===== *)
theory Frame_Reader
  imports Framing
begin

text \<open>
  Reading packets from a byte stream in pieces. Both ends do it the same way: a receive packet
  takes bytes at its offset until its declared length is reached, first for the length word, then
  for the rest. \<open>rx_partial\<close> says what such a packet holds between two reads; the lemmas say what
  storing more bytes does to it.
\<close>

text \<open>The bytes between the offset and the declared length: what the C copies as the payload.\<close>

definition pkt_rest :: "rpc_packet \<Rightarrow> byte list" where
  "pkt_rest pkt =
     buf_read (buffer pkt) (bufferOffset pkt) (gsize_minus (bufferLength pkt) (bufferOffset pkt))"

definition stream_want :: "rpc_packet \<Rightarrow> nat" where
  "stream_want p = gsize_minus (bufferLength p) (bufferOffset p)"

definition store_received :: "rpc_packet \<Rightarrow> byte list \<Rightarrow> rpc_packet" where
  "store_received p got =
     p\<lparr>buffer := buf_write (buffer p) (bufferOffset p) got,
       bufferOffset := bufferOffset p + length got\<rparr>"

definition handshaken :: "byte list \<Rightarrow> byte list \<Rightarrow> bool" where
  "handshaken r bs \<longleftrightarrow> (\<exists>w. r = w @ HANDSHAKE_SYNC # bs \<and> HANDSHAKE_SYNC \<notin> set w)"

lemma handshaken_append: "handshaken r bs \<Longrightarrow> handshaken (r @ x) (bs @ x)"
  by (auto simp: handshaken_def)

lemma handshaken_unique: "handshaken r bs \<Longrightarrow> handshaken r bs' \<Longrightarrow> bs = bs'"
proof -
  have drop: "bs = tl (dropWhile (\<lambda>b. b \<noteq> HANDSHAKE_SYNC) r)" if "handshaken r bs" for bs
    using that by (auto simp: handshaken_def dropWhile_append)
  assume "handshaken r bs" "handshaken r bs'"
  then show "bs = bs'" by (metis drop)
qed

lemma handshaken_guest_stream:
  assumes "handshaken r bs" "prefix r (w @ HANDSHAKE_SYNC # b)" "HANDSHAKE_SYNC \<notin> set w"
  shows "prefix bs b \<and> r = w @ HANDSHAKE_SYNC # bs"
proof -
  from assms(1) obtain v where r: "r = v @ HANDSHAKE_SYNC # bs" "HANDSHAKE_SYNC \<notin> set v"
    by (auto simp: handshaken_def)
  from assms(2) obtain z where z: "w @ HANDSHAKE_SYNC # b = v @ HANDSHAKE_SYNC # (bs @ z)"
    by (auto simp: prefix_def r(1))
  have tw: "takeWhile (\<lambda>b. b \<noteq> HANDSHAKE_SYNC) (u @ HANDSHAKE_SYNC # y) = u"
    if "HANDSHAKE_SYNC \<notin> set u" for u y
    using that by (induction u) auto
  have "w = v" using tw [OF assms(3), of b] tw [OF r(2), of "bs @ z"] z by simp
  with z have "b = bs @ z" by simp
  with \<open>w = v\<close> r(1) show ?thesis by simp
qed

text \<open>The receive packet holds the first \<open>bufferOffset\<close> bytes of a frame.\<close>

definition rx_partial :: "xdr_lib \<Rightarrow> rpc_packet option \<Rightarrow> byte list \<Rightarrow> bool" where
  "rx_partial X r part = (case r of
       None \<Rightarrow> part = []
     | Some p \<Rightarrow> packet_ok p \<and> part = buf_read (buffer p) 0 (bufferOffset p) \<and>
         (bufferLength p = 4 \<and> bufferOffset p < 4 \<or>
          4 \<le> bufferOffset p \<and> unat (xval (xdr_u_int X) (buf_read (buffer p) 0 4)) = bufferLength p
            \<and> (bufferOffset p < bufferLength p \<or> bufferLength p = 4)))"

lemma buf_read_store:
  assumes "bufferOffset p = off"
  shows "buf_read (buffer (store_received p got)) 0 (off + length got) =
    buf_read (buffer p) 0 off @ got"
  using assms by (simp add: store_received_def buf_read_append buf_simps)

lemma store_received_fields [simp]:
  "bufferOffset (store_received p got) = bufferOffset p + length got"
  "bufferLength (store_received p got) = bufferLength p"
  by (simp_all add: store_received_def)

lemma stream_want_ok: "packet_ok p \<Longrightarrow> stream_want p = bufferLength p - bufferOffset p"
  by (simp add: stream_want_def packet_ok_def packet_sizes gsize_simps)

text \<open>Receiving more of a frame without completing it.\<close>

lemma rx_partial_store:
  assumes "rx_partial X (Some p) part" "bufferOffset p + length got < bufferLength p"
  shows "rx_partial X (Some (store_received p got)) (part @ got)"
proof -
  have "buf_read (buffer (store_received p got)) 0 4 = buf_read (buffer p) 0 4"
    if "4 \<le> bufferOffset p"
    using that by (simp add: store_received_def buf_simps)
  with assms show ?thesis
    by (auto simp: rx_partial_def packet_ok_def buf_read_store)
qed

text \<open>Completing the length word.\<close>

lemma rx_partial_length:
  assumes "xdr_library X" "rx_partial X (Some p) part" "bufferLength p = 4"
    "bufferOffset p + length got = 4" "got \<noteq> []"
    "rpcpacket_decode_length X (store_received p got) = Inr p'"
  shows "rx_partial X (Some p') (part @ got)"
proof -
  let ?len = "unat (xval (xdr_u_int X) (buf_read (buffer (store_received p got)) 0 4))"
  have p': "bufferLength p' = ?len" "bufferOffset p' = 4" "packet_ok p'"
    "buffer p' = buffer (store_received p got)"
    using decode_length_accepts [OF assms(1), of "store_received p got"] assms(3,6)
    by (auto simp: size_defs)
  have "part = buf_read (buffer p) 0 (bufferOffset p)"
    using assms(2) by (simp add: rx_partial_def)
  then have "buf_read (buffer p') 0 4 = part @ got"
    using buf_read_store [of p "bufferOffset p" got] assms(4) p'(4) by simp
  with p' show ?thesis
    unfolding rx_partial_def packet_ok_def by auto
qed

text \<open>Completing a frame.\<close>

lemma rx_partial_frame:
  assumes "rx_partial X (Some p) part" "bufferLength p \<noteq> 4"
    "bufferOffset p + length got = bufferLength p" "20 \<le> bufferLength p"
  shows "rpc_frame X (part @ got)
    (xval (xdr_header X) (buf_read (buffer (store_received p got)) 4 16),
     buf_read (buffer (store_received p got)) 20 (bufferLength p - 20))"
proof -
  let ?b = "buffer (store_received p got)" and ?n = "bufferLength p"
  have part: "part = buf_read (buffer p) 0 (bufferOffset p)" and off: "4 \<le> bufferOffset p"
    and size: "?n \<le> BUFFER_SIZE"
    and len: "unat (xval (xdr_u_int X) (buf_read (buffer p) 0 4)) = ?n"
    using assms(1,2) by (auto simp: rx_partial_def packet_ok_def)
  have eq: "part @ got = buf_read ?b 0 ?n"
    using buf_read_store [of p "bufferOffset p" got] assms(3) part by simp
  have "take 4 (part @ got) = buf_read (buffer p) 0 4"
    using off part by (simp add: buf_read_take)
  with len have "unat (xval (xdr_u_int X) (take 4 (part @ got))) = length (part @ got)"
    by (simp add: eq)
  with assms(4) size show ?thesis
    unfolding rpc_frame_def eq by (simp add: buf_read_take buf_read_drop)
qed

lemma rx_partial_want:
  assumes "rx_partial X (Some p) part" "got \<noteq> []" "length got \<le> stream_want p"
  shows "bufferOffset p < bufferLength p" "bufferOffset p + length got \<le> bufferLength p"
proof -
  have "packet_ok p" using assms(1) by (simp add: rx_partial_def)
  with assms(2,3) show "bufferOffset p < bufferLength p"
    "bufferOffset p + length got \<le> bufferLength p"
    by (auto simp: stream_want_ok packet_ok_def Suc_le_eq [symmetric] simp flip: length_greater_0_conv)
qed

lemma pkt_rest_ok:
  "packet_ok p \<Longrightarrow> pkt_rest p = buf_read (buffer p) (bufferOffset p) (bufferLength p - bufferOffset p)"
  by (simp add: pkt_rest_def packet_ok_def packet_sizes gsize_simps)

lemma rx_partial_new [simp]: "rx_partial X (Some (rpcpacket_new True)) []"
  by (simp add: rx_partial_def) (simp add: rpcpacket_new_def size_defs)

section \<open>Sending\<close>

lemma tx_rest_wire: "length d \<le> PAYLOAD_MAX \<Longrightarrow> xdr_library X \<Longrightarrow>
    pkt_rest (wire_packet X h d) = wire X h d"
  by (simp add: pkt_rest_def packet_sizes gsize_simps)
    (metis buf_read_full xdr_library.length_wire)

lemma packet_ok_wire: "length d \<le> PAYLOAD_MAX \<Longrightarrow> packet_ok (wire_packet X h d)"
  by (simp add: packet_ok_def packet_sizes)

text \<open>What a write of the rest of a packet, possibly a short one, leaves of it.\<close>

lemma packet_sent:
  assumes "packet_ok p" "\<exists>n. sent = take n (pkt_rest p)"
  defines "q \<equiv> p\<lparr>bufferOffset := bufferOffset p + length sent\<rparr>"
  shows "packet_ok q" "sent @ pkt_rest q = pkt_rest p" "bufferOffset q = bufferLength q \<Longrightarrow> pkt_rest q = []"
proof -
  obtain n where n: "sent = take n (pkt_rest p)" using assms(2) by blast
  have rest: "pkt_rest p = buf_read (buffer p) (bufferOffset p) (bufferLength p - bufferOffset p)"
    by (rule pkt_rest_ok [OF assms(1)])
  have len: "length sent \<le> bufferLength p - bufferOffset p" by (simp add: n rest)
  have "bufferOffset p + length sent \<le> bufferLength p"
    using len assms(1) unfolding packet_ok_def by linarith
  then show ok: "packet_ok q" using assms(1) by (simp add: q_def packet_ok_def)
  have "sent = take (length sent) (pkt_rest p)"
    by (metis n append_eq_conv_conj append_take_drop_id)
  moreover have "pkt_rest q = drop (length sent) (pkt_rest p)"
    using len by (simp add: pkt_rest_ok [OF ok] rest buf_read_drop) (simp add: q_def)
  ultimately show "sent @ pkt_rest q = pkt_rest p" by (metis append_take_drop_id)
  show "bufferOffset q = bufferLength q \<Longrightarrow> pkt_rest q = []"
    by (simp add: pkt_rest_ok [OF ok])
qed

text \<open>
  The two streams of the line: the guest answers with a SYNC, the host repeats WAIT until it has seen
  it and sends a SYNC of its own; then both send packets.
\<close>

definition guest_stream :: "xdr_lib \<Rightarrow> byte list \<Rightarrow> message list \<Rightarrow> byte list" where
  "guest_stream X w ms = w @ HANDSHAKE_SYNC # wires X ms"

definition host_stream :: "xdr_lib \<Rightarrow> nat \<Rightarrow> message list \<Rightarrow> byte list" where
  "host_stream X n ms = replicate n HANDSHAKE_WAIT @ HANDSHAKE_SYNC # wires X ms"

end
