(* ===== verification/Console_Rpc.thy ===== *)
theory Console_Rpc
  imports Frame_Reader Console
begin

text \<open>
  The host side of the RPC console, libvirt-sandbox-console-rpc.c: its private data, the
  callbacks the GLib main loop invokes, and attach and detach. Every definition follows the C
  function of the same name (without \<open>gvir_sandbox_console_rpc_\<close> or \<open>do_console_rpc_\<close>).

  The record holds the private structure and, after it, the part of the world the callbacks
  act on: the sources attached to the main context, the pending timers, the guest's stream
  (the chunks it will deliver, the bytes received from it, the bytes it accepted), the local
  input and outputs, and the signals emitted. What a system call returns is an argument of the
  callback that makes it. A C function that returns FALSE with its \<open>GError\<close> set is a state
  paired with \<open>Some\<close> error.
\<close>

section \<open>Data\<close>

datatype rpc_state = INACTIVE | WAITING | SYNCING | RUNNING | STOPPING | FINISHED

datatype console_error =
    Packet_error rpc_error
  | Unexpected_status u32
  | Unexpected_proc u32
  | Unexpected_state rpc_state
  | Already_attached
  | Cannot_query_term
  | Cannot_update_term
  | Cannot_restore_term
  | Cannot_open_console

text \<open>A chunk the stream delivers: bytes (none of them: end of file) or an I/O error.\<close>

datatype stream_in = In_bytes "byte list" | In_error

definition MAX_QUEUED_DATA :: nat where "MAX_QUEUED_DATA = 1024"
definition MAX_IO :: nat where "MAX_IO = 4096"

record rpc_console =
  st :: rpc_state
  rx :: "rpc_packet option"
  tx :: "rpc_packet option"
  localStdin :: bool
  termiosActive :: bool
  localToStdout :: "byte list option"
  localToStdoutLength :: nat
  localToStdoutOffset :: nat
  localToStderr :: "byte list option"
  localToStderrLength :: nat
  localToStderrOffset :: nat
  localEOF :: bool
  localStdinSource :: bool
  localStdoutSource :: bool
  localStderrSource :: bool
  consoleWatch :: bool
  allowEscape :: bool
  serial :: nat
  escape :: byte
  stdinSources :: nat
  stdoutSources :: nat
  stderrSources :: nat
  streamWatch :: "(bool \<times> bool) option"
  waitTimers :: nat
  fromGuest :: "stream_in list"
  received :: "byte list"
  toGuest :: "byte list"
  stdinRead :: "byte list"
  outWritten :: "byte list"
  errWritten :: "byte list"
  signals :: "console_signal list"

type_synonym 'a outcome = "'a \<times> console_error option"

section \<open>Building packets\<close>

definition build_handshake_wait :: rpc_packet where
  "build_handshake_wait =
     (rpcpacket_new False)\<lparr>buffer := [HANDSHAKE_WAIT], bufferLength := 1, bufferOffset := 0\<rparr>"

definition build_handshake_sync :: rpc_packet where
  "build_handshake_sync =
     (rpcpacket_new False)\<lparr>buffer := [HANDSHAKE_SYNC], bufferLength := 1, bufferOffset := 0\<rparr>"

definition next_serial :: "rpc_console \<Rightarrow> rpc_console" where
  "next_serial c = c\<lparr>serial := (serial c + 1) mod 2 ^ 64\<rparr>"

definition build_quit :: "xdr_lib \<Rightarrow> rpc_console \<Rightarrow> rpc_console \<times> (rpc_error + rpc_packet)" where
  "build_quit X c =
     (let pkt = (rpcpacket_new False)\<lparr>header :=
            \<lparr>h_proc = PROC_QUIT, h_type = TYPE_DATA, h_status = STATUS_OK,
             h_serial = of_nat (serial c)\<rparr>\<rparr>
      in (next_serial c,
          case rpcpacket_encode_header X pkt of
            Inl e \<Rightarrow> Inl e
          | Inr pkt \<Rightarrow> rpcpacket_encode_payload_empty X pkt))"

definition build_stdin ::
  "xdr_lib \<Rightarrow> byte list \<Rightarrow> rpc_console \<Rightarrow> rpc_console \<times> (rpc_error + rpc_packet)" where
  "build_stdin X data c =
     (let pkt = (rpcpacket_new False)\<lparr>header :=
            \<lparr>h_proc = PROC_STDIN, h_type = TYPE_DATA, h_status = STATUS_OK,
             h_serial = of_nat (serial c)\<rparr>\<rparr>
      in (next_serial c,
          case rpcpacket_encode_header X pkt of
            Inl e \<Rightarrow> Inl e
          | Inr pkt \<Rightarrow> rpcpacket_encode_payload_raw X data pkt))"

section \<open>Terminal\<close>

definition start_term :: "term_env \<Rightarrow> bool \<Rightarrow> rpc_console \<Rightarrow> rpc_console outcome" where
  "start_term E has_stdin c =
     (if \<not> has_stdin then (c, None)
      else if \<not> te_isatty E then (c\<lparr>allowEscape := False\<rparr>, None)
      else
        let c = c\<lparr>allowEscape := True\<rparr> in
        if \<not> te_getattr E then (c, Some Cannot_query_term)
        else if \<not> te_setattr E then (c, Some Cannot_update_term)
        else (c\<lparr>termiosActive := True\<rparr>, None))"

definition stop_term :: "term_env \<Rightarrow> bool \<Rightarrow> rpc_console \<Rightarrow> rpc_console outcome" where
  "stop_term E has_stdin c =
     (if \<not> has_stdin then (c, None)
      else if \<not> te_isatty E then (c, None)
      else if \<not> te_setattr E then (c, Some Cannot_restore_term)
      else (c\<lparr>termiosActive := False\<rparr>, None))"

section \<open>State changes and event sources\<close>

definition set_state :: "xdr_lib \<Rightarrow> rpc_state \<Rightarrow> rpc_console \<Rightarrow> rpc_console outcome" where
  "set_state X s c =
     (if st c = s then (c, None)
      else
        let c = c\<lparr>st := s\<rparr> in
        case s of
          WAITING \<Rightarrow>
            (c\<lparr>tx := Some build_handshake_wait,
               rx := Some ((rpcpacket_new False)\<lparr>bufferLength := 1\<rparr>)\<rparr>, None)
        | SYNCING \<Rightarrow> (c\<lparr>tx := Some build_handshake_sync\<rparr>, None)
        | RUNNING \<Rightarrow> (c\<lparr>rx := Some (rpcpacket_new True)\<rparr>, None)
        | STOPPING \<Rightarrow> (c\<lparr>tx := None\<rparr>, None)
        | FINISHED \<Rightarrow>
            (case build_quit X c of
               (c, Inl e) \<Rightarrow> (c\<lparr>tx := None\<rparr>, Some (Packet_error e))
             | (c, Inr pkt) \<Rightarrow> (c\<lparr>tx := Some pkt\<rparr>, None))
        | INACTIVE \<Rightarrow> (c, None))"

text \<open>The four switch cases of \<open>update_events\<close> fall through; each need is the union of its cases.\<close>

definition need_stdin :: "rpc_console \<Rightarrow> bool" where
  "need_stdin c \<longleftrightarrow> st c = RUNNING \<and> tx c = None \<and> \<not> localEOF c"

definition need_stdout :: "rpc_console \<Rightarrow> bool" where
  "need_stdout c \<longleftrightarrow> st c \<in> {RUNNING, STOPPING} \<and> localToStdoutLength c \<noteq> 0"

definition need_stderr :: "rpc_console \<Rightarrow> bool" where
  "need_stderr c \<longleftrightarrow> st c \<in> {RUNNING, STOPPING} \<and> localToStderrLength c \<noteq> 0"

definition stream_cond :: "rpc_console \<Rightarrow> bool \<times> bool" where
  "stream_cond c =
     (st c \<in> {RUNNING, STOPPING, WAITING, SYNCING} \<and> rx c \<noteq> None,
      st c \<in> {RUNNING, STOPPING, WAITING, SYNCING, FINISHED} \<and> tx c \<noteq> None)"

definition update_stdin_source :: "bool \<Rightarrow> rpc_console \<Rightarrow> rpc_console" where
  "update_stdin_source need c =
     (if need then
        (if localStdinSource c then c
         else c\<lparr>localStdinSource := True, stdinSources := stdinSources c + 1\<rparr>)
      else
        (if localStdinSource c
         then c\<lparr>localStdinSource := False, stdinSources := stdinSources c - 1\<rparr> else c))"

definition update_stdout_source :: "bool \<Rightarrow> rpc_console \<Rightarrow> rpc_console" where
  "update_stdout_source need c =
     (if need then
        (if localStdoutSource c then c
         else c\<lparr>localStdoutSource := True, stdoutSources := stdoutSources c + 1\<rparr>)
      else
        (if localStdoutSource c
         then c\<lparr>localStdoutSource := False, stdoutSources := stdoutSources c - 1\<rparr> else c))"

definition update_stderr_source :: "bool \<Rightarrow> rpc_console \<Rightarrow> rpc_console" where
  "update_stderr_source need c =
     (if need then
        (if localStderrSource c then c
         else c\<lparr>localStderrSource := True, stderrSources := stderrSources c + 1\<rparr>)
      else
        (if localStderrSource c
         then c\<lparr>localStderrSource := False, stderrSources := stderrSources c - 1\<rparr> else c))"

definition update_watch :: "bool \<times> bool \<Rightarrow> rpc_console \<Rightarrow> rpc_console" where
  "update_watch cond c =
     c\<lparr>consoleWatch := cond \<noteq> (False, False),
       streamWatch := (if cond \<noteq> (False, False) then Some cond
                       else if consoleWatch c then None else streamWatch c)\<rparr>"

definition update_events :: "rpc_console \<Rightarrow> rpc_console" where
  "update_events c =
     update_watch (stream_cond c)
       (update_stderr_source (need_stderr c)
         (update_stdout_source (need_stdout c)
           (update_stdin_source (need_stdin c) c)))"

text \<open>The same with the tests pushed into the fields.\<close>

lemma update_stdin_source_eq: "update_stdin_source need c =
    c\<lparr>localStdinSource := need, stdinSources := stdinSources c + of_bool (need \<and> \<not> localStdinSource c)
        - of_bool (\<not> need \<and> localStdinSource c)\<rparr>"
  by (cases need; cases "localStdinSource c") (simp_all add: update_stdin_source_def)

lemma update_stdout_source_eq: "update_stdout_source need c =
    c\<lparr>localStdoutSource := need, stdoutSources := stdoutSources c + of_bool (need \<and> \<not> localStdoutSource c)
        - of_bool (\<not> need \<and> localStdoutSource c)\<rparr>"
  by (cases need; cases "localStdoutSource c") (simp_all add: update_stdout_source_def)

lemma update_stderr_source_eq: "update_stderr_source need c =
    c\<lparr>localStderrSource := need, stderrSources := stderrSources c + of_bool (need \<and> \<not> localStderrSource c)
        - of_bool (\<not> need \<and> localStderrSource c)\<rparr>"
  by (cases need; cases "localStderrSource c") (simp_all add: update_stderr_source_def)

lemma update_events_eq: "update_events c =
    c\<lparr>localStdinSource := need_stdin c,
      stdinSources := stdinSources c + of_bool (need_stdin c \<and> \<not> localStdinSource c)
        - of_bool (\<not> need_stdin c \<and> localStdinSource c),
      localStdoutSource := need_stdout c,
      stdoutSources := stdoutSources c + of_bool (need_stdout c \<and> \<not> localStdoutSource c)
        - of_bool (\<not> need_stdout c \<and> localStdoutSource c),
      localStderrSource := need_stderr c,
      stderrSources := stderrSources c + of_bool (need_stderr c \<and> \<not> localStderrSource c)
        - of_bool (\<not> need_stderr c \<and> localStderrSource c),
      consoleWatch := stream_cond c \<noteq> (False, False),
      streamWatch := (if stream_cond c \<noteq> (False, False) then Some (stream_cond c)
                      else if consoleWatch c then None else streamWatch c)\<rparr>"
  unfolding update_events_def update_watch_def update_stdin_source_eq update_stdout_source_eq
    update_stderr_source_eq by simp

section \<open>Detach and close\<close>

text \<open>
  \<open>detach\<close> drops its references to the local sources (\<open>g_source_unref\<close>) without destroying
  them: what is attached to the main context stays there. Only the stream's watch is removed.
\<close>

definition detach :: "term_env \<Rightarrow> rpc_console \<Rightarrow> rpc_console outcome" where
  "detach E c =
     (if st c = INACTIVE then (c, None)
      else
        case stop_term E (localStdin c) c of
          (c, Some e) \<Rightarrow> (c, Some e)
        | (c, None) \<Rightarrow>
            (c\<lparr>localStdinSource := False, localStdoutSource := False, localStderrSource := False,
               streamWatch := (if consoleWatch c then None else streamWatch c),
               consoleWatch := False, localStdin := False,
               localToStdout := None, localToStderr := None,
               localToStdoutLength := 0, localToStdoutOffset := 0,
               localToStderrLength := 0, localToStderrOffset := 0,
               tx := None, rx := None, st := INACTIVE\<rparr>, None))"

definition close :: "term_env \<Rightarrow> bool \<Rightarrow> rpc_console \<Rightarrow> rpc_console" where
  "close E err c =
     (let c = fst (detach E c) in c\<lparr>signals := signals c @ [Sig_closed err]\<rparr>)"

section \<open>Processing packets\<close>

text \<open>\<open>g_new0(gchar, 0)\<close> is NULL: an empty payload leaves an empty queue unallocated.\<close>

definition queue_stdout :: "byte list \<Rightarrow> rpc_console \<Rightarrow> rpc_console" where
  "queue_stdout data c =
     (let c = (case localToStdout c of
                 None \<Rightarrow> c\<lparr>localToStdoutOffset := 0, localToStdoutLength := 0,
                           localToStdout := (if data = [] then None else Some [])\<rparr>
               | Some _ \<Rightarrow> c)
      in c\<lparr>localToStdout :=
             map_option (\<lambda>b. buf_write b (localToStdoutLength c) data) (localToStdout c),
           localToStdoutLength := localToStdoutLength c + length data\<rparr>)"

definition queue_stderr :: "byte list \<Rightarrow> rpc_console \<Rightarrow> rpc_console" where
  "queue_stderr data c =
     (let c = (case localToStderr c of
                 None \<Rightarrow> c\<lparr>localToStderrOffset := 0, localToStderrLength := 0,
                           localToStderr := (if data = [] then None else Some [])\<rparr>
               | Some _ \<Rightarrow> c)
      in c\<lparr>localToStderr :=
             map_option (\<lambda>b. buf_write b (localToStderrLength c) data) (localToStderr c),
           localToStderrLength := localToStderrLength c + length data\<rparr>)"

definition dispatch_proc :: "xdr_lib \<Rightarrow> rpc_packet \<Rightarrow> rpc_console \<Rightarrow> rpc_console outcome" where
  "dispatch_proc X pkt c =
     (case rpcpacket_decode_header X pkt of
        Inl e \<Rightarrow> (c, Some (Packet_error e))
      | Inr pkt \<Rightarrow>
          if h_status (header pkt) \<noteq> STATUS_OK
          then (c, Some (Unexpected_status (h_status (header pkt))))
          else if h_proc (header pkt) = PROC_STDOUT then (queue_stdout (pkt_rest pkt) c, None)
          else if h_proc (header pkt) = PROC_STDERR then (queue_stderr (pkt_rest pkt) c, None)
          else if h_proc (header pkt) = PROC_EXIT then
            (case rpcpacket_decode_payload_msg (xdr_exit X) pkt of
               Inl e \<Rightarrow> (c, Some (Packet_error e))
             | Inr (_, status) \<Rightarrow>
                 let c = c\<lparr>signals := signals c @ [Sig_exited status]\<rparr> in
                 if localToStdoutLength c = 0 \<and> localToStderrLength c = 0
                 then set_state X FINISHED c
                 else set_state X STOPPING c)
          else (c, Some (Unexpected_proc (h_proc (header pkt)))))"

definition process_packet_rx :: "xdr_lib \<Rightarrow> rpc_packet \<Rightarrow> rpc_console \<Rightarrow> rpc_console outcome" where
  "process_packet_rx X pkt c =
     (case st c of
        WAITING \<Rightarrow>
          if buf_read (buffer pkt) 0 1 = [HANDSHAKE_SYNC] then set_state X SYNCING c
          else (c\<lparr>rx := Some ((rpcpacket_new False)\<lparr>bufferLength := 1\<rparr>)\<rparr>, None)
      | RUNNING \<Rightarrow>
          if bufferLength pkt = LEN_MAX then
            (case rpcpacket_decode_length X pkt of
               Inl e \<Rightarrow> (c, Some (Packet_error e))
             | Inr pkt \<Rightarrow> (c\<lparr>rx := Some pkt\<rparr>, None))
          else
            (case dispatch_proc X pkt c of
               (c, Some e) \<Rightarrow> (c, Some e)
             | (c, None) \<Rightarrow>
                 if st c = RUNNING \<and> localToStdoutLength c < MAX_QUEUED_DATA
                    \<and> localToStderrLength c < MAX_QUEUED_DATA
                 then (c\<lparr>rx := Some (rpcpacket_new True)\<rparr>, None)
                 else (c, None))
      | _ \<Rightarrow> (c, Some (Unexpected_state (st c))))"

definition handshake_wait_tx_queue :: "rpc_console \<Rightarrow> rpc_console" where
  "handshake_wait_tx_queue c =
     (let c = c\<lparr>waitTimers := waitTimers c - 1\<rparr> in
      if st c \<noteq> WAITING then c
      else if tx c \<noteq> None then c
      else update_events (c\<lparr>tx := Some build_handshake_wait\<rparr>))"

definition process_packet_tx ::
  "xdr_lib \<Rightarrow> term_env \<Rightarrow> rpc_packet \<Rightarrow> rpc_console \<Rightarrow> rpc_console outcome" where
  "process_packet_tx X E pkt c =
     (case st c of
        WAITING \<Rightarrow> (c\<lparr>waitTimers := waitTimers c + 1\<rparr>, None)
      | SYNCING \<Rightarrow>
          if buf_read (buffer pkt) 0 1 = [HANDSHAKE_WAIT]
          then (c\<lparr>tx := Some build_handshake_sync\<rparr>, None)
          else set_state X RUNNING c
      | FINISHED \<Rightarrow> (close E False c, None)
      | RUNNING \<Rightarrow> (c, None)
      | STOPPING \<Rightarrow> (c, None)
      | INACTIVE \<Rightarrow> (c, Some (Unexpected_state INACTIVE)))"

section \<open>The stream callback\<close>

text \<open>
  How the read loop is left: the loop's own condition or EWOULDBLOCK (the write half follows),
  end of file (\<open>goto done\<close>), or an error (\<open>goto cleanup\<close>, the console has been closed).
\<close>

datatype flow = Flow_write | Flow_done | Flow_cleanup

text \<open>
  \<open>gvir_stream_receive\<close>: at most \<open>want\<close> bytes of the next chunk; the rest of the chunk stays.
  The chunk list being empty is \<open>G_IO_ERROR_WOULD_BLOCK\<close>; end of file stays at the front.
\<close>

definition push_back :: "byte list \<Rightarrow> stream_in list \<Rightarrow> stream_in list" where
  "push_back rest ins = (if rest = [] then ins else In_bytes rest # ins)"

fun chunks_size :: "stream_in list \<Rightarrow> nat" where
  "chunks_size [] = 0"
| "chunks_size (In_bytes bs # ins) = 1 + length bs + chunks_size ins"
| "chunks_size (In_error # ins) = 1 + chunks_size ins"

text \<open>One turn of \<open>while (priv->rx)\<close> on a packet and the bytes a receive returned for it.\<close>

definition rx_turn ::
  "xdr_lib \<Rightarrow> rpc_packet \<Rightarrow> byte list \<Rightarrow> rpc_console \<Rightarrow> rpc_console outcome" where
  "rx_turn X p got c =
     (let p = store_received p got;
          c = c\<lparr>received := received c @ got\<rparr>
      in if bufferOffset p = bufferLength p
         then process_packet_rx X p (c\<lparr>rx := None\<rparr>)
         else (c\<lparr>rx := Some p\<rparr>, None))"

function rx_loop ::
  "xdr_lib \<Rightarrow> term_env \<Rightarrow> stream_in list \<Rightarrow> rpc_console \<Rightarrow> flow \<times> stream_in list \<times> rpc_console" where
  "rx_loop X E ins c =
     (case rx c of
        None \<Rightarrow> (Flow_write, ins, c)
      | Some p \<Rightarrow>
          (case ins of
             [] \<Rightarrow> (Flow_write, ins, c)
           | In_error # ins' \<Rightarrow> (Flow_cleanup, ins', close E True c)
           | In_bytes bs # ins' \<Rightarrow>
               let got = take (stream_want p) bs in
               if got = [] then (Flow_done, ins, c)
               else
                 let rest = push_back (drop (stream_want p) bs) ins' in
                 (case rx_turn X p got c of
                    (c, Some e) \<Rightarrow> (Flow_cleanup, rest, close E True c)
                  | (c, None) \<Rightarrow> rx_loop X E rest c)))"
  by pat_completeness auto
termination
  by (relation "measure (\<lambda>(X, E, ins, c). chunks_size ins)")
    (auto simp: push_back_def take_eq_Nil)

declare rx_loop.simps [simp del]

definition stream_write ::
  "xdr_lib \<Rightarrow> term_env \<Rightarrow> write_result \<Rightarrow> rpc_console \<Rightarrow> flow \<times> rpc_console" where
  "stream_write X E ret c =
     (case tx c of
        None \<Rightarrow> (Flow_done, c)
      | Some p \<Rightarrow>
          (case ret of
             Write_error \<Rightarrow> (Flow_cleanup, close E True c)
           | Wrote n \<Rightarrow>
               let sent = take n (pkt_rest p);
                   p = p\<lparr>bufferOffset := bufferOffset p + length sent\<rparr>;
                   c = c\<lparr>toGuest := toGuest c @ sent\<rparr>
               in if bufferOffset p = bufferLength p
                  then (case process_packet_tx X E p (c\<lparr>tx := None\<rparr>) of
                          (c, Some e) \<Rightarrow> (Flow_cleanup, close E True c)
                        | (c, None) \<Rightarrow> (Flow_done, c))
                  else (Flow_done, c\<lparr>tx := Some p\<rparr>)))"

text \<open>
  The watch that fired is removed because the callback returns FALSE; on the \<open>done\<close> path
  \<open>update_events\<close> has by then added the next one.
\<close>

definition stream_readwrite ::
  "xdr_lib \<Rightarrow> term_env \<Rightarrow> bool \<Rightarrow> bool \<Rightarrow> write_result \<Rightarrow> rpc_console \<Rightarrow> rpc_console" where
  "stream_readwrite X E readable writable ret c =
     (let (flow, c) =
            (if readable
             then (case rx_loop X E (fromGuest c) c of
                     (flow, ins, c) \<Rightarrow> (flow, c\<lparr>fromGuest := ins\<rparr>))
             else (Flow_write, c));
          (flow, c) =
            (if flow = Flow_write
             then (if writable then stream_write X E ret c else (Flow_done, c))
             else (flow, c))
      in if flow = Flow_done
         then update_events (c\<lparr>consoleWatch := False, streamWatch := None\<rparr>)
         else c\<lparr>streamWatch := None\<rparr>)"

section \<open>The local callbacks\<close>

text \<open>
  Each returns FALSE: the source that fired leaves the main context when the callback is done.
\<close>

definition stdin_read :: "xdr_lib \<Rightarrow> term_env \<Rightarrow> read_result \<Rightarrow> rpc_console \<Rightarrow> rpc_console" where
  "stdin_read X E ret c =
     (let c =
        (case ret of
           Read_error \<Rightarrow> update_events (close E True c)
         | Read_bytes bs \<Rightarrow>
             let buf = take MAX_IO bs;
                 c = c\<lparr>stdinRead := stdinRead c @ buf\<rparr>
             in if buf \<noteq> [] \<and> allowEscape c \<and> hd buf = CONTROL (escape c)
                then update_events (close E False c)
                else
                  let c = (if buf = [] then c\<lparr>localEOF := True\<rparr> else c) in
                  (case build_stdin X buf c of
                     (c, Inl e) \<Rightarrow> update_events (close E True (c\<lparr>tx := None\<rparr>))
                   | (c, Inr pkt) \<Rightarrow>
                       update_events (c\<lparr>tx := Some pkt, localStdinSource := False\<rparr>)))
      in c\<lparr>stdinSources := stdinSources c - 1\<rparr>)"

text \<open>\<open>else if (0)\<close>: a partly written queue is kept as it is, with its offset advanced.\<close>

definition stdout_write :: "xdr_lib \<Rightarrow> term_env \<Rightarrow> write_result \<Rightarrow> rpc_console \<Rightarrow> rpc_console" where
  "stdout_write X E ret c =
     (let c =
        (case ret of
           Write_error \<Rightarrow> close E True c
         | Wrote n \<Rightarrow>
             let data = (case localToStdout c of None \<Rightarrow> [] | Some b \<Rightarrow>
                   buf_read b (localToStdoutOffset c)
                     (gsize_minus (localToStdoutLength c) (localToStdoutOffset c)));
                 sent = take n data;
                 c = c\<lparr>outWritten := outWritten c @ sent,
                       localToStdoutOffset := localToStdoutOffset c + length sent\<rparr>
             in if localToStdoutOffset c = localToStdoutLength c then
                  let c = c\<lparr>localToStdout := None, localToStdoutOffset := 0,
                            localToStdoutLength := 0\<rparr>;
                      c = (if st c = RUNNING \<and> rx c = None
                              \<and> localToStderrLength c < MAX_QUEUED_DATA
                           then c\<lparr>rx := Some (rpcpacket_new True)\<rparr> else c)
                  in (case (if st c = STOPPING \<and> localToStderrLength c = 0
                            then set_state X FINISHED c else (c, None)) of
                        (c, Some e) \<Rightarrow> close E True c
                      | (c, None) \<Rightarrow> update_events (c\<lparr>localStdoutSource := False\<rparr>))
                else update_events (c\<lparr>localStdoutSource := False\<rparr>))
      in c\<lparr>stdoutSources := stdoutSources c - 1\<rparr>)"

text \<open>
  Unlike \<open>stdout_write\<close>, the call passes the start of the queue and the \<^emph>\<open>offset\<close> as the number
  of bytes to write.
\<close>

definition stderr_write :: "xdr_lib \<Rightarrow> term_env \<Rightarrow> write_result \<Rightarrow> rpc_console \<Rightarrow> rpc_console" where
  "stderr_write X E ret c =
     (let c =
        (case ret of
           Write_error \<Rightarrow> close E True c
         | Wrote n \<Rightarrow>
             let data = (case localToStderr c of None \<Rightarrow> [] | Some b \<Rightarrow>
                   buf_read b 0 (localToStderrOffset c));
                 sent = take n data;
                 c = c\<lparr>errWritten := errWritten c @ sent,
                       localToStderrOffset := localToStderrOffset c + length sent\<rparr>
             in if localToStderrOffset c = localToStderrLength c then
                  let c = c\<lparr>localToStderr := None, localToStderrOffset := 0,
                            localToStderrLength := 0\<rparr>;
                      c = (if st c = RUNNING \<and> rx c = None
                              \<and> localToStdoutLength c < MAX_QUEUED_DATA
                           then c\<lparr>rx := Some (rpcpacket_new True)\<rparr> else c)
                  in (case (if st c = STOPPING \<and> localToStdoutLength c = 0
                            then set_state X FINISHED c else (c, None)) of
                        (c, Some e) \<Rightarrow> close E True c
                      | (c, None) \<Rightarrow> update_events (c\<lparr>localStderrSource := False\<rparr>))
                else update_events (c\<lparr>localStderrSource := False\<rparr>))
      in c\<lparr>stderrSources := stderrSources c - 1\<rparr>)"

section \<open>Attach\<close>

text \<open>
  \<open>gvir_connection_get_stream\<close> gives a new stream, so the logs of the stream and of the outputs
  start again. \<open>localEOF\<close> and \<open>serial\<close> keep the values of an earlier attachment.
\<close>

definition new_stream :: "rpc_console \<Rightarrow> rpc_console" where
  "new_stream c =
     c\<lparr>fromGuest := [], received := [], toGuest := [], stdinRead := [],
       outWritten := [], errWritten := []\<rparr>"

definition attach ::
  "xdr_lib \<Rightarrow> term_env \<Rightarrow> bool \<Rightarrow> bool \<Rightarrow> rpc_console \<Rightarrow> rpc_console outcome" where
  "attach X E has_stdin open_ok c =
     (if st c \<noteq> INACTIVE then (c, Some Already_attached)
      else
        case start_term E has_stdin c of
          (c, Some e) \<Rightarrow> (c, Some e)
        | (c, None) \<Rightarrow>
            let c = new_stream (if has_stdin then c\<lparr>localStdin := True\<rparr> else c) in
            if \<not> open_ok then (fst (stop_term E has_stdin c), Some Cannot_open_console)
            else
              (case set_state X WAITING c of
                 (c, Some e) \<Rightarrow> (fst (stop_term E has_stdin c), Some e)
               | (c, None) \<Rightarrow> (update_events c, None)))"

text \<open>A new object: everything zero, the escape character set by the caller.\<close>

definition console_new :: "byte \<Rightarrow> rpc_console" where
  "console_new esc =
     \<lparr>st = INACTIVE, rx = None, tx = None, localStdin = False, termiosActive = False,
      localToStdout = None, localToStdoutLength = 0, localToStdoutOffset = 0,
      localToStderr = None, localToStderrLength = 0, localToStderrOffset = 0,
      localEOF = False, localStdinSource = False, localStdoutSource = False,
      localStderrSource = False, consoleWatch = False, allowEscape = False, serial = 0,
      escape = esc, stdinSources = 0, stdoutSources = 0, stderrSources = 0,
      streamWatch = None, waitTimers = 0, fromGuest = [], received = [], toGuest = [],
      stdinRead = [], outWritten = [], errWritten = [], signals = []\<rparr>"

section \<open>The main loop\<close>

text \<open>
  A step of the default main context: bytes arrive on the stream, or the callback of an attached
  source, watch or timer runs, or the owner detaches the console.
\<close>

inductive console_step :: "xdr_lib \<Rightarrow> term_env \<Rightarrow> rpc_console \<Rightarrow> rpc_console \<Rightarrow> bool"
  for X E where
  arrive: "console_step X E c (c\<lparr>fromGuest := fromGuest c @ [i]\<rparr>)"
| stream: "streamWatch c = Some (r0, w0) \<Longrightarrow> (r \<longrightarrow> r0) \<Longrightarrow> (w \<longrightarrow> w0) \<Longrightarrow> r \<or> w \<Longrightarrow>
     console_step X E c (stream_readwrite X E r w ret c)"
| stdin: "0 < stdinSources c \<Longrightarrow> console_step X E c (stdin_read X E rd c)"
| stdout: "0 < stdoutSources c \<Longrightarrow> console_step X E c (stdout_write X E ret c)"
| stderr: "0 < stderrSources c \<Longrightarrow> console_step X E c (stderr_write X E ret c)"
| timer: "0 < waitTimers c \<Longrightarrow> console_step X E c (handshake_wait_tx_queue c)"
| detach: "console_step X E c (fst (detach E c))"

text \<open>One attachment of a new console: what can be reached from a successful attach.\<close>

inductive attached :: "xdr_lib \<Rightarrow> term_env \<Rightarrow> rpc_console \<Rightarrow> bool"
  for X E where
  start: "attach X E has_stdin True (console_new esc) = (c, None) \<Longrightarrow> attached X E c"
| step: "attached X E c \<Longrightarrow> console_step X E c c' \<Longrightarrow> attached X E c'"

text \<open>The RPC console is a console.\<close>

interpretation rpc: console_class "\<lambda>i u. attach X E i open_ok" "detach E" "\<lambda>c. st c \<noteq> INACTIVE" Already_attached
  for X E open_ok
proof
  fix c d :: rpc_console and i u :: bool and e
  show "st c \<noteq> INACTIVE \<Longrightarrow> attach X E i open_ok c = (c, Some Already_attached)"
    by (simp add: attach_def)
  show "\<not> st c \<noteq> INACTIVE \<Longrightarrow> attach X E i open_ok c = (d, None) \<Longrightarrow> st d \<noteq> INACTIVE"
    by (auto simp: attach_def start_term_def new_stream_def set_state_def update_events_eq Let_def
        split: if_splits)
  show "\<not> st c \<noteq> INACTIVE \<Longrightarrow> attach X E i open_ok c = (d, Some e) \<Longrightarrow> \<not> st d \<noteq> INACTIVE"
    by (auto simp: attach_def start_term_def stop_term_def new_stream_def set_state_def Let_def
        split: if_splits)
  show "\<not> st c \<noteq> INACTIVE \<Longrightarrow> detach E c = (c, None)"
    by (simp add: detach_def)
  show "detach E c = (d, None) \<Longrightarrow> \<not> st d \<noteq> INACTIVE"
    by (auto simp: detach_def split: prod.splits option.splits if_splits)
  show "detach E c = (d, Some e) \<Longrightarrow> st c \<noteq> INACTIVE \<and> d = c"
    by (auto simp: detach_def stop_term_def split: prod.splits option.splits if_splits)
qed

end
