(* ===== verification/Console_Rpc_Run.thy ===== *)
theory Console_Rpc_Run
  imports Console_Rpc
begin

text \<open>
  One attachment of a console whose stdin is not a terminal, step by step: the handshake, a
  packet with two bytes of output, their delivery, and the exit message. The states are computed
  by the simplifier from the definitions; the properties of the console use them as witnesses.
\<close>

definition no_tty :: term_env where
  "no_tty = \<lparr>te_isatty = False, te_getattr = False, te_setattr = False\<rparr>"

lemmas console_eval = Let_def rpcpacket_new_def zero_header_def size_defs buffer_size
  build_handshake_wait_def build_handshake_sync_def HANDSHAKE_WAIT_def HANDSHAKE_SYNC_def
  set_state_def update_events_eq need_stdin_def need_stdout_def need_stderr_def stream_cond_def
  stream_readwrite_def stream_write_def pkt_rest_def process_packet_tx_def
  process_packet_rx_def rx_turn_def store_received_def stream_want_def push_back_def
  gsize_minus_def u_int_of_def buf_read_def buf_write_def rx_loop.simps MAX_QUEUED_DATA_def

lemmas packet_eval = rpcpacket_decode_length_def rpcpacket_decode_header_def
  rpcpacket_decode_payload_msg_def xdrmem_bytes_def xdrmem_size_def dispatch_proc_def
  rpcpacket_encode_header_def rpcpacket_encode_payload_empty_def reencode_length_def
  rpcpacket_encode_payload_raw_def
  queue_stdout_def queue_stderr_def proc_defs STATUS_OK_def TYPE_DATA_def be32_def
  rfc4506_def u_int_filter_def header_filter_def iso_filter_def seq_filter_def

definition stdout_packet :: "byte list" where
  "stdout_packet = [0, 0, 0, 22, 0, 0, 0, 2, 0, 0, 0, 1, 0, 0, 0, 0, 0, 0, 0, 0, 104, 105]"

definition exit_packet :: "byte list" where
  "exit_packet = [0, 0, 0, 24, 0, 0, 0, 4, 0, 0, 0, 0, 0, 0, 0, 0, 0, 0, 0, 1, 0, 0, 0, 3]"

definition run_attach :: rpc_console where
  "run_attach = fst (attach rfc4506 no_tty True True (console_new 29))"

definition run_wait_sent :: rpc_console where
  "run_wait_sent = stream_readwrite rfc4506 no_tty False True (Wrote 1) run_attach"

definition run_synced :: rpc_console where
  "run_synced = stream_readwrite rfc4506 no_tty True False (Wrote 0)
     (run_wait_sent\<lparr>fromGuest := fromGuest run_wait_sent @ [In_bytes [HANDSHAKE_SYNC]]\<rparr>)"

definition run_running :: rpc_console where
  "run_running = stream_readwrite rfc4506 no_tty False True (Wrote 1) run_synced"

definition run_output :: rpc_console where
  "run_output = stream_readwrite rfc4506 no_tty True False (Wrote 0)
     (run_running\<lparr>fromGuest := fromGuest run_running @ [In_bytes stdout_packet]\<rparr>)"

definition run_written :: rpc_console where
  "run_written = stdout_write rfc4506 no_tty (Wrote 2) run_output"

definition run_finished :: rpc_console where
  "run_finished = stream_readwrite rfc4506 no_tty True False (Wrote 0)
     (run_written\<lparr>fromGuest := fromGuest run_written @ [In_bytes exit_packet]\<rparr>)"

lemma run_attach: "run_attach = (console_new 29)\<lparr>st := WAITING, localStdin := True,
    tx := Some build_handshake_wait, rx := Some ((rpcpacket_new False)\<lparr>bufferLength := 1\<rparr>),
    consoleWatch := True, streamWatch := Some (True, True)\<rparr>"
  by (simp add: run_attach_def attach_def start_term_def no_tty_def console_new_def new_stream_def
      console_eval)

lemma run_attach_ok: "attach rfc4506 no_tty True True (console_new 29) = (run_attach, None)"
  by (simp add: run_attach_def attach_def start_term_def no_tty_def console_new_def new_stream_def
      console_eval)

lemma run_wait_sent: "run_wait_sent =
    run_attach\<lparr>toGuest := [27], tx := None, waitTimers := 1, streamWatch := Some (True, False)\<rparr>"
  by (simp add: run_wait_sent_def run_attach console_new_def console_eval)

lemma run_synced: "run_synced =
    run_wait_sent\<lparr>st := SYNCING, rx := None, tx := Some build_handshake_sync, received := [28],
      streamWatch := Some (False, True)\<rparr>"
  by (simp add: run_synced_def run_wait_sent run_attach console_new_def console_eval)

lemma run_running: "run_running =
    run_synced\<lparr>st := RUNNING, rx := Some (rpcpacket_new True), tx := None, toGuest := [27, 28],
      localStdinSource := True, stdinSources := 1, streamWatch := Some (True, False)\<rparr>"
  by (simp add: run_running_def run_synced run_wait_sent run_attach console_new_def console_eval)

lemma run_output: "run_output =
    run_running\<lparr>received := 28 # stdout_packet, localToStdout := Some [104, 105],
      localToStdoutLength := 2, localStdoutSource := True, stdoutSources := 1\<rparr>"
  by (simp add: run_output_def run_running run_synced run_wait_sent run_attach console_new_def
      console_eval packet_eval stdout_packet_def)

lemma run_written: "run_written =
    run_output\<lparr>outWritten := [104, 105], localToStdout := None, localToStdoutLength := 0,
      localStdoutSource := False, stdoutSources := 0\<rparr>"
  by (simp add: run_written_def stdout_write_def run_output run_running run_synced run_wait_sent
      run_attach console_new_def console_eval)

lemma run_finished:
  "st run_finished = FINISHED" "received run_finished = 28 # stdout_packet @ exit_packet"
  "outWritten run_finished = [104, 105]" "signals run_finished = [Sig_exited 3]"
  by (simp_all add: run_finished_def run_written run_output run_running run_synced run_wait_sent
      run_attach console_new_def console_eval packet_eval build_quit_def next_serial_def
      PROC_QUIT_def exit_packet_def stdout_packet_def)

lemmas run_states = run_written run_output run_running run_synced run_wait_sent run_attach

lemma attached_run:
  "attached rfc4506 no_tty run_attach" "attached rfc4506 no_tty run_running"
  "attached rfc4506 no_tty run_output" "attached rfc4506 no_tty run_written"
  "attached rfc4506 no_tty run_finished"
proof -
  note arrive = attached.step [OF _ console_step.arrive]
  show att: "attached rfc4506 no_tty run_attach"
    by (rule attached.start [OF run_attach_ok])
  have "attached rfc4506 no_tty run_wait_sent"
    unfolding run_wait_sent_def
    by (rule attached.step [OF att console_step.stream [where ?r0.0 = True and ?w0.0 = True]])
      (simp_all add: run_attach)
  then have "attached rfc4506 no_tty run_synced"
    unfolding run_synced_def
    by (intro attached.step [OF arrive console_step.stream [where ?r0.0 = True and ?w0.0 = False]])
      (simp_all add: run_wait_sent)
  then show run: "attached rfc4506 no_tty run_running"
    unfolding run_running_def
    by (rule attached.step [OF _ console_step.stream [where ?r0.0 = False and ?w0.0 = True]])
      (simp_all add: run_synced)
  then show out: "attached rfc4506 no_tty run_output"
    unfolding run_output_def
    by (intro attached.step [OF arrive console_step.stream [where ?r0.0 = True and ?w0.0 = False]])
      (simp_all add: run_running)
  then show wr: "attached rfc4506 no_tty run_written"
    unfolding run_written_def
    by (rule attached.step [OF _ console_step.stdout]) (simp add: run_output)
  then show "attached rfc4506 no_tty run_finished"
    unfolding run_finished_def
    by (intro attached.step [OF arrive console_step.stream [where ?r0.0 = True and ?w0.0 = False]])
      (simp_all add: run_states)
qed

end
