(* ===== verification/Console_Rpc_Rx.thy ===== *)
theory Console_Rpc_Rx
  imports Console_Rpc_Run
begin

text \<open>
  What the host does with the bytes the guest sends. The abstract view of an attachment is a
  list of messages: the bytes received are the handshake up to the first SYNC byte, then
  complete frames, then the part of a frame that is in the receive packet. The invariant
  \<open>recv_inv\<close> relates that view to the concrete state, and every callback keeps it. From it
  follow the properties of the two output streams.
\<close>

section \<open>The abstract view\<close>

definition queue_ok :: "byte list option \<Rightarrow> nat \<Rightarrow> nat \<Rightarrow> bool" where
  "queue_ok q len off =
     (case q of None \<Rightarrow> len = 0 \<and> off = 0 | Some b \<Rightarrow> len = length b \<and> off < len)"

definition pending :: "byte list option \<Rightarrow> nat \<Rightarrow> byte list" where
  "pending q off = (case q of None \<Rightarrow> [] | Some b \<Rightarrow> drop off b)"

definition out_ok :: "rpc_console \<Rightarrow> message list \<Rightarrow> bool" where
  "out_ok c ms \<longleftrightarrow>
     queue_ok (localToStdout c) (localToStdoutLength c) (localToStdoutOffset c) \<and>
     queue_ok (localToStderr c) (localToStderrLength c) (localToStderrOffset c) \<and>
     outWritten c @ pending (localToStdout c) (localToStdoutOffset c) = data_of PROC_STDOUT ms \<and>
     localToStderrOffset c = 0 \<and> errWritten c = [] \<and>
     pending (localToStderr c) 0 = data_of PROC_STDERR ms"

definition received_messages :: "xdr_lib \<Rightarrow> rpc_console \<Rightarrow> message list \<Rightarrow> byte list \<Rightarrow> bool" where
  "received_messages X c ms part \<longleftrightarrow>
     (\<exists>bs. handshaken (received c) (bs @ part) \<and> framed (rpc_frame X) bs ms)"

definition out_hist :: "xdr_lib \<Rightarrow> rpc_console \<Rightarrow> bool" where
  "out_hist X c \<longleftrightarrow> errWritten c = [] \<and>
     (outWritten c = [] \<or>
      (\<exists>ms part. received_messages X c ms part \<and> prefix (outWritten c) (data_of PROC_STDOUT ms)))"

definition waiting_rx :: rpc_packet where
  "waiting_rx = (rpcpacket_new False)\<lparr>bufferLength := 1\<rparr>"

definition no_queues :: "rpc_console \<Rightarrow> bool" where
  "no_queues c \<longleftrightarrow> localToStdout c = None \<and> localToStderr c = None \<and>
     localToStdoutLength c = 0 \<and> localToStdoutOffset c = 0 \<and>
     localToStderrLength c = 0 \<and> localToStderrOffset c = 0"

text \<open>
  Reading is suspended while a queue holds \<open>MAX_QUEUED_DATA\<close> bytes or more, but one packet is
  queued whole: a queue may exceed that limit by the payload of one packet.
\<close>

definition queues_bounded :: "rpc_console \<Rightarrow> bool" where
  "queues_bounded c \<longleftrightarrow>
     (rx c \<noteq> None \<longrightarrow> localToStdoutLength c < MAX_QUEUED_DATA \<and>
                      localToStderrLength c < MAX_QUEUED_DATA) \<and>
     localToStdoutLength c < MAX_QUEUED_DATA + PAYLOAD_MAX \<and>
     localToStderrLength c < MAX_QUEUED_DATA + PAYLOAD_MAX"

definition recv_inv :: "xdr_lib \<Rightarrow> rpc_console \<Rightarrow> bool" where
  "recv_inv X c = (case st c of
       INACTIVE \<Rightarrow> rx c = None \<and> out_hist X c \<and> no_queues c
     | WAITING \<Rightarrow> rx c = Some waiting_rx \<and> HANDSHAKE_SYNC \<notin> set (received c) \<and> out_ok c []
     | SYNCING \<Rightarrow> rx c = None \<and> handshaken (received c) [] \<and> out_ok c []
     | RUNNING \<Rightarrow> queues_bounded c \<and>
         (\<exists>ms part. received_messages X c ms part \<and> rx_partial X (rx c) part \<and> out_ok c ms)
     | STOPPING \<Rightarrow> queues_bounded c \<and>
         (\<exists>ms. received_messages X c ms [] \<and> rx c = None \<and> out_ok c ms)
     | FINISHED \<Rightarrow> \<exists>ms. received_messages X c ms [] \<and> rx c = None \<and> out_ok c ms \<and> no_queues c)"

definition term_ok :: "term_env \<Rightarrow> rpc_console \<Rightarrow> bool" where
  "term_ok E c \<longleftrightarrow> (localStdin c \<longrightarrow> te_isatty E \<longrightarrow> te_setattr E)"

lemma out_ok_Nil: "out_ok c [] \<longleftrightarrow> no_queues c \<and> outWritten c = [] \<and> errWritten c = []"
  by (auto simp: out_ok_def no_queues_def queue_ok_def pending_def split: option.splits)

lemma out_ok_empty: "out_ok c ms \<Longrightarrow> localToStdoutLength c = 0 \<Longrightarrow> localToStderrLength c = 0
    \<Longrightarrow> no_queues c"
  by (auto simp: out_ok_def no_queues_def queue_ok_def split: option.splits)

text \<open>\<open>recv_inv\<close> reads these fields only.\<close>

definition same_rx :: "rpc_console \<Rightarrow> rpc_console \<Rightarrow> bool" where
  "same_rx c d \<longleftrightarrow>
     st d = st c \<and> rx d = rx c \<and> received d = received c \<and>
     localToStdout d = localToStdout c \<and> localToStdoutLength d = localToStdoutLength c \<and>
     localToStdoutOffset d = localToStdoutOffset c \<and>
     localToStderr d = localToStderr c \<and> localToStderrLength d = localToStderrLength c \<and>
     localToStderrOffset d = localToStderrOffset c \<and>
     outWritten d = outWritten c \<and> errWritten d = errWritten c"

lemma same_rx_parts:
  assumes "same_rx c d"
  shows "out_ok d ms = out_ok c ms" "no_queues d = no_queues c" "out_hist X d = out_hist X c"
    "queues_bounded d = queues_bounded c"
    "received_messages X d ms part = received_messages X c ms part"
  using assms unfolding same_rx_def out_ok_def no_queues_def out_hist_def received_messages_def queues_bounded_def
  by (elim conjE, simp only:)+

lemma same_rx_inv:
  assumes "same_rx c d" "recv_inv X c"
  shows "recv_inv X d"
proof -
  have "st d = st c" "rx d = rx c" "received d = received c"
    using assms(1) by (simp_all add: same_rx_def)
  with assms(2) show ?thesis
    by (simp only: recv_inv_def same_rx_parts [OF assms(1)])
qed

lemma same_rx_trans: "same_rx c d \<Longrightarrow> same_rx d e \<Longrightarrow> same_rx c e"
  by (simp add: same_rx_def)

lemma same_rx_update_events [simp]: "same_rx c (update_events c)"
  unfolding update_events_eq by (simp add: same_rx_def)

lemma recv_inv_update_events: "recv_inv X c \<Longrightarrow> recv_inv X (update_events c)"
  by (rule same_rx_inv [OF same_rx_update_events])

lemma localStdin_update [simp]: "localStdin (update_events c) = localStdin c"
  by (simp add: update_events_eq)

lemma term_ok_update [simp]: "term_ok E (update_events c) = term_ok E c"
  by (simp add: term_ok_def)

section \<open>Closing\<close>

lemma detach_ok:
  assumes "term_ok E c" "st c \<noteq> INACTIVE"
  shows "snd (detach E c) = None" "st (fst (detach E c)) = INACTIVE"
    "no_queues (fst (detach E c))" "received (fst (detach E c)) = received c"
    "outWritten (fst (detach E c)) = outWritten c" "errWritten (fst (detach E c)) = errWritten c"
    "localStdin (fst (detach E c)) = False" "rx (fst (detach E c)) = None"
  using assms by (auto simp: detach_def stop_term_def term_ok_def no_queues_def)

lemma out_hist_mono:
  assumes "out_hist X c" "outWritten d = outWritten c" "errWritten d = errWritten c"
    "received d = received c @ x"
  shows "out_hist X d"
  using assms unfolding out_hist_def received_messages_def
  by (metis append.assoc handshaken_append)

lemma recv_inv_out_hist:
  assumes "recv_inv X c"
  shows "out_hist X c"
proof -
  have ok: "out_hist X c" if "received_messages X c ms part" "out_ok c ms" for ms part
    using that unfolding out_hist_def out_ok_def by (metis prefixI)
  show ?thesis
    using assms ok unfolding recv_inv_def
    by (cases "st c") (auto simp: out_ok_Nil out_hist_def)
qed

lemma detach_recv_inv:
  assumes "term_ok E c" "out_hist X c" "st c = INACTIVE \<Longrightarrow> rx c = None \<and> no_queues c"
  shows "recv_inv X (fst (detach E c))"
proof (cases "st c = INACTIVE")
  case True
  with assms show ?thesis by (simp add: detach_def recv_inv_def)
next
  case False
  note d = detach_ok [OF assms(1) False]
  have "out_hist X (fst (detach E c))"
    by (rule out_hist_mono [OF assms(2)]) (simp_all add: d)
  with d show ?thesis by (simp add: recv_inv_def)
qed

lemma close_fields:
  "same_rx (fst (detach E c)) (close E e c)" "localStdin (close E e c) = localStdin (fst (detach E c))"
  by (simp_all add: close_def Let_def same_rx_def)

lemma close_recv_inv:
  assumes "term_ok E c" "out_hist X c" "st c = INACTIVE \<Longrightarrow> rx c = None \<and> no_queues c"
  shows "recv_inv X (close E e c)"
  by (rule same_rx_inv [OF close_fields(1) detach_recv_inv [OF assms]])

lemma detach_localStdin: "localStdin (fst (detach E c)) \<Longrightarrow> localStdin c"
  by (auto simp: detach_def stop_term_def split: if_splits)

lemma close_localStdin: "localStdin (close E e c) \<Longrightarrow> localStdin c"
  by (auto simp: close_fields dest: detach_localStdin)

section \<open>Receiving\<close>

section \<open>Dispatching a message\<close>

lemma queue_stdout_ok:
  assumes "out_ok c ms" "h_proc h = PROC_STDOUT"
  shows "out_ok (queue_stdout data c) (ms @ [(h, data)])"
  using assms
  by (cases "localToStdout c"; cases "localToStderr c")
    (auto simp: out_ok_def queue_stdout_def queue_ok_def pending_def buf_simps Let_def)

lemma queue_stderr_ok:
  assumes "out_ok c ms" "h_proc h = PROC_STDERR"
  shows "out_ok (queue_stderr data c) (ms @ [(h, data)])"
  using assms
  by (cases "localToStdout c"; cases "localToStderr c")
    (auto simp: out_ok_def queue_stderr_def queue_ok_def pending_def buf_simps Let_def)

lemma queue_fields [simp]:
  "st (queue_stdout d c) = st c" "rx (queue_stdout d c) = rx c"
  "received (queue_stdout d c) = received c" "outWritten (queue_stdout d c) = outWritten c"
  "errWritten (queue_stdout d c) = errWritten c" "localStdin (queue_stdout d c) = localStdin c"
  "st (queue_stderr d c) = st c" "rx (queue_stderr d c) = rx c"
  "received (queue_stderr d c) = received c" "outWritten (queue_stderr d c) = outWritten c"
  "errWritten (queue_stderr d c) = errWritten c" "localStdin (queue_stderr d c) = localStdin c"
  by (cases "localToStdout c"; cases "localToStderr c";
      simp add: queue_stdout_def queue_stderr_def Let_def)+

lemma queue_lengths:
  assumes "out_ok c ms"
  shows "localToStdoutLength (queue_stdout d c) = localToStdoutLength c + length d"
    "localToStderrLength (queue_stdout d c) = localToStderrLength c"
    "localToStdoutLength (queue_stderr d c) = localToStdoutLength c"
    "localToStderrLength (queue_stderr d c) = localToStderrLength c + length d"
  using assms
  by (cases "localToStdout c"; cases "localToStderr c";
      simp add: queue_stdout_def queue_stderr_def Let_def out_ok_def queue_ok_def)+

text \<open>What \<open>set_state\<close> leaves alone, whatever it answers.\<close>

lemma set_state_fields [simp]:
  "received (fst (set_state X s c)) = received c"
  "outWritten (fst (set_state X s c)) = outWritten c"
  "errWritten (fst (set_state X s c)) = errWritten c"
  "localStdin (fst (set_state X s c)) = localStdin c"
  "st (fst (set_state X s c)) = s"
  "localToStdout (fst (set_state X s c)) = localToStdout c"
  "localToStdoutLength (fst (set_state X s c)) = localToStdoutLength c"
  "localToStdoutOffset (fst (set_state X s c)) = localToStdoutOffset c"
  "localToStderr (fst (set_state X s c)) = localToStderr c"
  "localToStderrLength (fst (set_state X s c)) = localToStderrLength c"
  "localToStderrOffset (fst (set_state X s c)) = localToStderrOffset c"
  by (cases "st c = s"; cases s;
      auto simp: set_state_def Let_def build_quit_def next_serial_def split: sum.splits)+

lemma set_state_rx:
  "s \<in> {STOPPING, FINISHED, SYNCING} \<Longrightarrow> rx (fst (set_state X s c)) = rx c"
  by (cases "st c = s"; cases s)
    (auto simp: set_state_def Let_def build_quit_def next_serial_def split: sum.splits)

lemma set_state_out_ok [simp]:
  "out_ok (fst (set_state X s c)) ms = out_ok c ms"
  "no_queues (fst (set_state X s c)) = no_queues c"
  by (simp_all add: out_ok_def no_queues_def)

lemma out_ok_signals [simp]: "out_ok (c\<lparr>signals := s\<rparr>) ms = out_ok c ms"
  by (simp add: out_ok_def)

lemma dispatch_fields [simp]:
  "received (fst (dispatch_proc X p c)) = received c"
  "outWritten (fst (dispatch_proc X p c)) = outWritten c"
  "errWritten (fst (dispatch_proc X p c)) = errWritten c"
  "localStdin (fst (dispatch_proc X p c)) = localStdin c"
  by (auto simp: dispatch_proc_def Let_def split: sum.split)

lemma dispatch_st:
  "st c = RUNNING \<Longrightarrow> st (fst (dispatch_proc X p c)) \<in> {RUNNING, STOPPING, FINISHED}"
  by (auto simp: dispatch_proc_def Let_def split: sum.split)

lemma dispatch_message:
  assumes "xdr_library X" "4 \<le> bufferLength p" "bufferLength p \<le> BUFFER_SIZE"
    "out_ok c ms" "st c = RUNNING" "rx c = None" "dispatch_proc X p c = (c', None)"
  shows "20 \<le> bufferLength p"
    and "out_ok c' (ms @ [(xval (xdr_header X) (buf_read (buffer p) 4 16),
                          buf_read (buffer p) 20 (bufferLength p - 20))])"
    and "rx c' = None" and "st c' \<in> {RUNNING, STOPPING} \<or> st c' = FINISHED \<and> no_queues c'"
    and "localToStdoutLength c' \<le> localToStdoutLength c + (bufferLength p - 20)"
    and "localToStderrLength c' \<le> localToStderrLength c + (bufferLength p - 20)"
proof -
  define h where "h = xval (xdr_header X) (buf_read (buffer p) 4 16)"
  define q where "q = p\<lparr>bufferOffset := 20, header := h\<rparr>"
  note dec = xdr_library.decode_header_eq [OF assms(1-3), folded h_def]
  show n: "20 \<le> bufferLength p"
    using assms(7) dec by (simp add: dispatch_proc_def split: if_splits)
  with dec have q: "rpcpacket_decode_header X p = Inr q" by (simp add: q_def)
  have "packet_ok q" using n assms(3) by (simp add: packet_ok_def q_def)
  then have rest: "pkt_rest q = buf_read (buffer p) 20 (bufferLength p - 20)"
    by (simp add: pkt_rest_ok) (simp add: q_def)
  have hq: "header q = h" by (simp add: q_def)
  let ?d = "buf_read (buffer p) 20 (bufferLength p - 20)"
  consider (out) "h_proc h = PROC_STDOUT" "c' = queue_stdout ?d c"
    | (err) "h_proc h = PROC_STDERR" "c' = queue_stderr ?d c"
    | (exit) s status where "h_proc h = PROC_EXIT"
      "set_state X s (c\<lparr>signals := signals c @ [Sig_exited status]\<rparr>) = (c', None)"
      "s = (if localToStdoutLength c = 0 \<and> localToStderrLength c = 0 then FINISHED else STOPPING)"
    using assms(7) unfolding dispatch_proc_def
    by (auto simp: q rest Let_def hq split: if_splits sum.splits)
  then have "out_ok c' (ms @ [(h, ?d)]) \<and> rx c' = None \<and>
      (st c' \<in> {RUNNING, STOPPING} \<or> st c' = FINISHED \<and> no_queues c') \<and>
      localToStdoutLength c' \<le> localToStdoutLength c + (bufferLength p - 20) \<and>
      localToStderrLength c' \<le> localToStderrLength c + (bufferLength p - 20)"
  proof cases
    case exit
    let ?c = "c\<lparr>signals := signals c @ [Sig_exited status]\<rparr>"
    have c': "c' = fst (set_state X s ?c)" by (metis exit(2) fst_conv)
    have s: "s \<in> {STOPPING, FINISHED, SYNCING}" using exit(3) by simp
    have "out_ok c' (ms @ [(h, ?d)])"
      using assms(4) exit(1) by (simp add: c') (auto simp: out_ok_def)
    moreover have "rx c' = None" using assms(6) by (simp add: c' set_state_rx [OF s])
    moreover have "st c' = s" by (simp add: c')
    moreover have "no_queues c'" if "s = FINISHED"
      using out_ok_empty [OF assms(4)] that exit(3)
      by (auto simp: c' no_queues_def split: if_splits)
    moreover have "localToStdoutLength c' = localToStdoutLength c"
      "localToStderrLength c' = localToStderrLength c" by (simp_all add: c')
    ultimately show ?thesis using exit(3) by (auto split: if_splits)
  qed (use assms(4-6) queue_lengths [OF assms(4)] in \<open>simp_all add: queue_stdout_ok queue_stderr_ok\<close>)
  then show "out_ok c' (ms @ [(xval (xdr_header X) (buf_read (buffer p) 4 16), ?d)])"
    and "rx c' = None" and "st c' \<in> {RUNNING, STOPPING} \<or> st c' = FINISHED \<and> no_queues c'"
    and "localToStdoutLength c' \<le> localToStdoutLength c + (bufferLength p - 20)"
    and "localToStderrLength c' \<le> localToStderrLength c + (bufferLength p - 20)"
    by (simp_all add: h_def)
qed

section \<open>The read loop\<close>

lemma process_rx_fields [simp]:
  "received (fst (process_packet_rx X p c)) = received c"
  "outWritten (fst (process_packet_rx X p c)) = outWritten c"
  "errWritten (fst (process_packet_rx X p c)) = errWritten c"
  "localStdin (fst (process_packet_rx X p c)) = localStdin c"
proof -
  have "received (fst (process_packet_rx X p c)) = received c \<and>
    outWritten (fst (process_packet_rx X p c)) = outWritten c \<and>
    errWritten (fst (process_packet_rx X p c)) = errWritten c \<and>
    localStdin (fst (process_packet_rx X p c)) = localStdin c"
    using dispatch_fields [of X p c]
    by (cases "dispatch_proc X p c"; cases "st c")
      (simp_all add: process_packet_rx_def split: sum.split option.split)
  then show "received (fst (process_packet_rx X p c)) = received c"
    "outWritten (fst (process_packet_rx X p c)) = outWritten c"
    "errWritten (fst (process_packet_rx X p c)) = errWritten c"
    "localStdin (fst (process_packet_rx X p c)) = localStdin c" by blast+
qed

lemma process_rx_st:
  "st c \<noteq> INACTIVE \<Longrightarrow> st (fst (process_packet_rx X p c)) \<noteq> INACTIVE"
  using dispatch_st [of c X p]
  by (cases "st c"; cases "dispatch_proc X p c")
    (auto simp: process_packet_rx_def split: sum.split option.split)

lemma rx_turn_fields [simp]:
  "received (fst (rx_turn X p got c)) = received c @ got"
  "outWritten (fst (rx_turn X p got c)) = outWritten c"
  "errWritten (fst (rx_turn X p got c)) = errWritten c"
  "localStdin (fst (rx_turn X p got c)) = localStdin c"
  by (simp_all add: rx_turn_def Let_def)

lemma rx_turn_st: "st c \<noteq> INACTIVE \<Longrightarrow> st (fst (rx_turn X p got c)) \<noteq> INACTIVE"
  by (simp add: rx_turn_def Let_def process_rx_st)

lemma received_messages_step:
  "received_messages X c ms part \<Longrightarrow> received d = received c @ got \<Longrightarrow>
    received_messages X d ms (part @ got)"
  unfolding received_messages_def by (metis append.assoc handshaken_append)

lemma received_messages_frame:
  "received_messages X c ms part \<Longrightarrow> rpc_frame X part m \<Longrightarrow> received_messages X c (ms @ [m]) []"
  unfolding received_messages_def by (metis append_Nil2 framed_snoc)

lemma out_ok_rx [simp]: "out_ok (c\<lparr>rx := r\<rparr>) ms = out_ok c ms" "out_ok (c\<lparr>received := b\<rparr>) ms = out_ok c ms"
  by (simp_all add: out_ok_def)

lemma no_queues_rx [simp]: "no_queues (c\<lparr>rx := r\<rparr>) = no_queues c"
  by (simp add: no_queues_def)

lemma received_messages_rx [simp]:
  "received_messages X (c\<lparr>rx := r\<rparr>) ms part = received_messages X c ms part"
  by (simp add: received_messages_def)

text \<open>A turn in the handshake: one byte.\<close>

lemma rx_turn_waiting:
  assumes "recv_inv X c" "st c = WAITING" "rx c = Some p" "got = take (stream_want p) bs" "got \<noteq> []"
    "rx_turn X p got c = (c', None)"
  shows "recv_inv X c'"
proof -
  have p: "p = waiting_rx" "HANDSHAKE_SYNC \<notin> set (received c)" "out_ok c []"
    using assms(1-3) by (simp_all add: recv_inv_def)
  have "stream_want p = 1"
    by (simp add: p(1) stream_want_ok) (simp add: waiting_rx_def rpcpacket_new_def stream_want_def gsize_minus_def)
  with assms(4,5) obtain b where got: "got = [b]" by (cases bs) auto
  have buf: "buf_read (buffer (store_received p got)) 0 1 = [b]"
    by (simp add: got p(1) waiting_rx_def rpcpacket_new_def store_received_def buf_write_def buf_read_def)
  have len: "bufferOffset (store_received p got) = bufferLength (store_received p got)"
    by (simp add: got p(1) waiting_rx_def rpcpacket_new_def)
  show ?thesis
  proof (cases "b = HANDSHAKE_SYNC")
    case True
    then have "c' = c\<lparr>received := received c @ [b], rx := None, st := SYNCING,
        tx := Some build_handshake_sync\<rparr>"
      using assms(6,2) len buf by (simp add: rx_turn_def Let_def process_packet_rx_def set_state_def got)
    with p True show ?thesis
      by (auto simp: recv_inv_def handshaken_def out_ok_def)
  next
    case False
    then have "c' = c\<lparr>received := received c @ [b], rx := Some waiting_rx\<rparr>"
      using assms(6,2) len buf
      by (simp add: rx_turn_def Let_def process_packet_rx_def got waiting_rx_def)
    with p False assms(2) show ?thesis
      by (auto simp: recv_inv_def)
  qed
qed

text \<open>A turn while the console runs: part of a frame, its length word, or its end.\<close>

lemma rx_turn_running:
  assumes "xdr_library X" "recv_inv X c" "st c = RUNNING" "rx c = Some p"
    "got \<noteq> []" "length got \<le> stream_want p" "rx_turn X p got c = (c', None)"
  shows "recv_inv X c'"
proof -
  obtain ms part where msgs: "received_messages X c ms part" and part: "rx_partial X (Some p) part"
    and out: "out_ok c ms"
    using assms(2-4) by (auto simp: recv_inv_def)
  have bound: "localToStdoutLength c < MAX_QUEUED_DATA" "localToStderrLength c < MAX_QUEUED_DATA"
    using assms(2-4) by (simp_all add: recv_inv_def queues_bounded_def)
  note want = rx_partial_want [OF part assms(5,6)]
  let ?p = "store_received p got"
  let ?c = "c\<lparr>received := received c @ got, rx := None\<rparr>"
  have msgs': "received_messages X ?c ms (part @ got)"
    using received_messages_step [OF msgs] by simp
  show ?thesis
  proof (cases "bufferOffset ?p = bufferLength ?p")
    case False
    then have "c' = ?c\<lparr>rx := Some ?p\<rparr>"
      using assms(7) by (simp add: rx_turn_def Let_def)
    moreover have "rx_partial X (Some ?p) (part @ got)"
      using want False by (intro rx_partial_store [OF part]) simp
    ultimately show ?thesis
      using msgs' out bound assms(3) by (auto simp: recv_inv_def queues_bounded_def)
  next
    case True
    then have proc: "process_packet_rx X ?p ?c = (c', None)"
      using assms(7) by (simp add: rx_turn_def Let_def)
    show ?thesis
    proof (cases "bufferLength p = 4")
      case True
      then obtain p' where p': "rpcpacket_decode_length X ?p = Inr p'" "c' = ?c\<lparr>rx := Some p'\<rparr>"
        using proc assms(3) by (auto simp: process_packet_rx_def size_defs split: sum.splits)
      have "rx_partial X (Some p') (part @ got)"
        using rx_partial_length [OF assms(1) part True _ assms(5) p'(1)] True
          \<open>bufferOffset ?p = bufferLength ?p\<close> by simp
      with p' msgs' out bound assms(3) show ?thesis
        by (auto simp: recv_inv_def queues_bounded_def)
    next
      case False
      have bounds: "4 \<le> bufferLength ?p" "bufferLength ?p \<le> BUFFER_SIZE"
        using part False by (auto simp: rx_partial_def packet_ok_def)
      obtain d where d: "dispatch_proc X ?p ?c = (d, None)"
        using proc assms(3) False by (auto simp: process_packet_rx_def size_defs split: prod.splits option.splits)
      let ?m = "(xval (xdr_header X) (buf_read (buffer ?p) 4 16),
                 buf_read (buffer ?p) 20 (bufferLength p - 20))"
      have out': "out_ok ?c ms" using out by simp
      note disp = dispatch_message [OF assms(1) bounds out' _ _ d]
      have "rpc_frame X (part @ got) ?m"
        using rx_partial_frame [OF part False] disp(1) \<open>bufferOffset ?p = bufferLength ?p\<close> assms(3)
        by simp
      with msgs' have "received_messages X ?c (ms @ [?m]) []"
        by (rule received_messages_frame)
      then have msgs2: "received_messages X d (ms @ [?m]) []"
        using dispatch_fields(1) [of X ?p ?c] d by (simp add: received_messages_def)
      have lens: "localToStdoutLength d < MAX_QUEUED_DATA + PAYLOAD_MAX"
        "localToStderrLength d < MAX_QUEUED_DATA + PAYLOAD_MAX"
        using disp(1,5,6) bound bounds(2) assms(3) by (simp_all add: packet_sizes)
      have c': "c' = d \<or> st d = RUNNING \<and> c' = d\<lparr>rx := Some (rpcpacket_new True)\<rparr> \<and>
          localToStdoutLength d < MAX_QUEUED_DATA \<and> localToStderrLength d < MAX_QUEUED_DATA"
        using proc assms(3) False d by (auto simp: process_packet_rx_def size_defs split: if_splits)
      from disp(2-4) assms(3) msgs2 c' lens show ?thesis
        by (fastforce simp: recv_inv_def queues_bounded_def rx_partial_def [of X None]
            intro: rx_partial_new)
    qed
  qed
qed

lemma rx_turn_inv:
  assumes "xdr_library X" "recv_inv X c" "rx c = Some p" "got = take (stream_want p) bs" "got \<noteq> []"
    "rx_turn X p got c = (c', None)"
  shows "recv_inv X c'"
proof -
  have len: "length got \<le> stream_want p" using assms(4) by simp
  show ?thesis
  proof (cases "st c")
    case WAITING
    then show ?thesis using rx_turn_waiting assms by blast
  next
    case RUNNING
    then show ?thesis using rx_turn_running [OF assms(1,2) _ assms(3,5) len assms(6)] by simp
  qed (use assms(2,3) in \<open>auto simp: recv_inv_def\<close>)
qed

lemma rx_loop_inv:
  "xdr_library X \<Longrightarrow> recv_inv X c \<Longrightarrow> term_ok E c \<Longrightarrow>
    recv_inv X (snd (snd (rx_loop X E ins c))) \<and> term_ok E (snd (snd (rx_loop X E ins c)))"
proof (induction X E ins c rule: rx_loop.induct)
  case (1 X E ins c)
  have close: "recv_inv X (close E e d) \<and> term_ok E (close E e d)"
    if "out_hist X d" "term_ok E d" "st d = INACTIVE \<Longrightarrow> rx d = None \<and> no_queues d" for d e
    using close_recv_inv [OF that(2,1,3)] that(2) by (auto simp: term_ok_def dest: close_localStdin)
  show ?case
  proof (cases "rx c")
    case None
    with "1.prems" rx_loop.simps [of X E ins c] show ?thesis by simp
  next
    case (Some p)
    then have active: "st c \<noteq> INACTIVE" using "1.prems"(2) by (auto simp: recv_inv_def)
    have hist: "out_hist X c" by (rule recv_inv_out_hist [OF "1.prems"(2)])
    show ?thesis
    proof (cases ins)
      case Nil
      with Some "1.prems" rx_loop.simps [of X E ins c] show ?thesis by simp
    next
      case (Cons i ins')
      show ?thesis
      proof (cases i)
        case In_error
        with Some Cons close [OF hist "1.prems"(3)] active rx_loop.simps [of X E ins c] show ?thesis by simp
      next
        case (In_bytes bs)
        let ?got = "take (stream_want p) bs"
        let ?rest = "push_back (drop (stream_want p) bs) ins'"
        show ?thesis
        proof (cases "?got = []")
          case True
          with Some Cons In_bytes "1.prems" rx_loop.simps [of X E ins c] show ?thesis by simp
        next
          case False
          obtain d o' where turn: "rx_turn X p ?got c = (d, o')" by (cases "rx_turn X p ?got c")
          have d: "out_hist X d" "localStdin d = localStdin c" "st d \<noteq> INACTIVE"
            using out_hist_mono [OF hist, of d ?got] rx_turn_fields [of X p ?got c]
              rx_turn_st [OF active, of X p ?got] turn by simp_all
          with "1.prems"(3) have term_d: "term_ok E d" by (simp add: term_ok_def)
          show ?thesis
          proof (cases o')
            case None
            have "recv_inv X d"
              using rx_turn_inv [OF "1.prems"(1,2) Some refl False] turn None by simp
            with None Some Cons In_bytes False turn term_d "1.IH" "1.prems"(1) rx_loop.simps [of X E ins c] show ?thesis by simp
          next
            case (Some e)
            with \<open>rx c = Some p\<close> Cons In_bytes False turn close [OF d(1) term_d] d(3) rx_loop.simps [of X E ins c] show ?thesis by simp
          qed
        qed
      qed
    qed
  qed
qed

section \<open>Every callback keeps the invariant\<close>

definition host_inv :: "xdr_lib \<Rightarrow> term_env \<Rightarrow> rpc_console \<Rightarrow> bool" where
  "host_inv X E c \<longleftrightarrow> recv_inv X c \<and> term_ok E c"

lemma host_inv_same: "same_rx c d \<Longrightarrow> localStdin d = localStdin c \<Longrightarrow> host_inv X E c \<Longrightarrow> host_inv X E d"
  unfolding host_inv_def term_ok_def using same_rx_inv by simp

lemma host_inv_update: "host_inv X E c \<Longrightarrow> host_inv X E (update_events c)"
  by (rule host_inv_same) simp_all

lemma host_inv_close:
  assumes "host_inv X E c"
  shows "host_inv X E (close E e c)"
proof -
  have "st c = INACTIVE \<Longrightarrow> rx c = None \<and> no_queues c"
    using assms by (simp add: host_inv_def recv_inv_def)
  with assms show ?thesis
    using close_recv_inv recv_inv_out_hist close_localStdin
    unfolding host_inv_def term_ok_def by metis
qed

lemma host_inv_detach:
  assumes "host_inv X E c"
  shows "host_inv X E (fst (detach E c))"
proof -
  have "same_rx (close E e c) (fst (detach E c))" "localStdin (fst (detach E c)) = localStdin (close E e c)"
    for e by (simp_all add: close_def Let_def same_rx_def)
  with host_inv_close [OF assms] show ?thesis by (blast intro: host_inv_same)
qed

lemma process_tx_inv:
  assumes "host_inv X E c"
  shows "host_inv X E (fst (process_packet_tx X E p c))"
proof (cases "st c = SYNCING \<and> buf_read (buffer p) 0 1 \<noteq> [HANDSHAKE_WAIT]")
  case True
  then have "fst (process_packet_tx X E p c) = c\<lparr>st := RUNNING, rx := Some (rpcpacket_new True)\<rparr>"
      (is "_ = ?run")
    by (simp add: process_packet_tx_def set_state_def)
  moreover have "handshaken (received c) []" "out_ok c []"
    using assms True by (simp_all add: host_inv_def recv_inv_def)
  then have "received_messages X ?run [] []" "out_ok ?run []" "queues_bounded ?run"
    by (auto simp: received_messages_def out_ok_def queues_bounded_def queue_ok_def pending_def
        MAX_QUEUED_DATA_def split: option.splits)
  then have "recv_inv X ?run"
    unfolding recv_inv_def by (auto intro!: exI [of _ "[]"])
  ultimately show ?thesis
    using assms by (simp add: host_inv_def term_ok_def)
next
  case False
  have tx: "host_inv X E (c\<lparr>waitTimers := n\<rparr>)" "host_inv X E (c\<lparr>tx := t\<rparr>)" for n t
    by (rule host_inv_same [OF _ _ assms]; simp add: same_rx_def)+
  with False assms host_inv_close [OF assms] show ?thesis
    by (cases "st c") (auto simp: process_packet_tx_def)
qed

lemma stream_write_inv:
  assumes "host_inv X E c"
  shows "host_inv X E (snd (stream_write X E ret c))"
proof (cases "tx c")
  case None
  with assms show ?thesis by (simp add: stream_write_def)
next
  case (Some p)
  have tx: "host_inv X E (c\<lparr>toGuest := g, tx := t\<rparr>)" for g t
    by (rule host_inv_same [OF _ _ assms]; simp add: same_rx_def)
  show ?thesis
  proof (cases ret)
    case Write_error
    with Some host_inv_close [OF assms] show ?thesis by (simp add: stream_write_def)
  next
    case (Wrote n)
    with Some tx show ?thesis
      using process_tx_inv [OF tx] host_inv_close [OF process_tx_inv [OF tx]]
      by (auto simp: stream_write_def Let_def split: prod.splits option.splits)
        (metis fst_conv)+
  qed
qed

lemma stream_readwrite_inv:
  assumes "xdr_library X" "host_inv X E c"
  shows "host_inv X E (stream_readwrite X E r w ret c)"
proof -
  have watch: "host_inv X E (d\<lparr>consoleWatch := a, streamWatch := b\<rparr>)"
    "host_inv X E (d\<lparr>streamWatch := b\<rparr>)" "host_inv X E (d\<lparr>fromGuest := i\<rparr>)"
    if "host_inv X E d" for d a b i
    by (rule host_inv_same [OF _ _ that]; simp add: same_rx_def)+
  obtain flow ins d where loop: "rx_loop X E (fromGuest c) c = (flow, ins, d)"
    by (cases "rx_loop X E (fromGuest c) c") auto
  have d: "host_inv X E d"
    using rx_loop_inv [OF assms(1), of c E "fromGuest c"] assms(2) loop by (simp add: host_inv_def)
  define flow1 e where "flow1 = (if r then flow else Flow_write)"
    and "e = (if r then d\<lparr>fromGuest := ins\<rparr> else c)"
  have e: "host_inv X E e" using d watch(3) assms(2) by (simp add: e_def)
  define flow2 f where "flow2 = (if flow1 = Flow_write then (if w then fst (stream_write X E ret e) else Flow_done) else flow1)"
    and "f = (if flow1 = Flow_write \<and> w then snd (stream_write X E ret e) else e)"
  have f: "host_inv X E f" using e stream_write_inv [OF e] by (simp add: f_def)
  have "stream_readwrite X E r w ret c =
     (if flow2 = Flow_done then update_events (f\<lparr>consoleWatch := False, streamWatch := None\<rparr>)
      else f\<lparr>streamWatch := None\<rparr>)"
    by (cases r; cases w)
      (simp_all add: stream_readwrite_def loop flow1_def e_def flow2_def f_def case_prod_beta)
  then show ?thesis
    using f watch host_inv_update by simp
qed

lemma build_stdin_fields [simp]:
  "fst (build_stdin X data c) = next_serial c"
  by (simp add: build_stdin_def Let_def)

lemma stdin_read_inv:
  assumes "host_inv X E c"
  shows "host_inv X E (stdin_read X E ret c)"
proof -
  have upd: "host_inv X E (c\<lparr>stdinRead := a\<rparr>)"
    "host_inv X E (next_serial (c\<lparr>stdinRead := a\<rparr>)\<lparr>tx := t\<rparr>)"
    "host_inv X E (next_serial (c\<lparr>stdinRead := a, localEOF := True\<rparr>)\<lparr>tx := t\<rparr>)"
    "host_inv X E (next_serial (c\<lparr>stdinRead := a\<rparr>)\<lparr>tx := t, localStdinSource := s\<rparr>)"
    "host_inv X E (next_serial (c\<lparr>stdinRead := a, localEOF := True\<rparr>)\<lparr>tx := t, localStdinSource := s\<rparr>)"
    "host_inv X E (next_serial (c\<lparr>localEOF := True\<rparr>)\<lparr>tx := t\<rparr>)"
    "host_inv X E (next_serial (c\<lparr>localEOF := True\<rparr>)\<lparr>tx := t, localStdinSource := s\<rparr>)"
    for a t s by (rule host_inv_same [OF _ _ assms]; simp add: same_rx_def next_serial_def)+
  have fin: "host_inv X E (d\<lparr>stdinSources := n\<rparr>)" if "host_inv X E d" for d n
    by (rule host_inv_same [OF _ _ that]) (simp_all add: same_rx_def)
  note ok = fin [OF host_inv_update] host_inv_close upd assms
  show ?thesis
  proof (cases ret)
    case Read_error
    then show ?thesis by (simp add: stdin_read_def Let_def ok)
  next
    case (Read_bytes bs)
    define buf where "buf = take MAX_IO bs"
    let ?c = "c\<lparr>stdinRead := stdinRead c @ buf\<rparr>"
    let ?d = "if buf = [] then ?c\<lparr>localEOF := True\<rparr> else ?c"
    obtain r where r: "build_stdin X buf ?d = (next_serial ?d, r)"
      using build_stdin_fields by (metis prod.collapse)
    show ?thesis
    proof (cases "buf \<noteq> [] \<and> allowEscape ?c \<and> hd buf = CONTROL (escape ?c)")
      case True
      then show ?thesis by (simp add: stdin_read_def Read_bytes ok Let_def buf_def [symmetric])
    next
      case False
      with r show ?thesis
        by (cases r; cases "buf = []")
          (simp_all add: stdin_read_def Read_bytes Let_def ok buf_def [symmetric])
    qed
  qed
qed

lemma handshake_wait_inv: "host_inv X E c \<Longrightarrow> host_inv X E (handshake_wait_tx_queue c)"
  unfolding handshake_wait_tx_queue_def Let_def
  by (auto intro!: host_inv_update elim!: host_inv_same [rotated 2] simp: same_rx_def)

text \<open>Writing to an output: the queue shrinks, is freed when it is empty, and reading resumes.\<close>

definition write_out :: "byte list \<Rightarrow> rpc_console \<Rightarrow> rpc_console" where
  "write_out sent c =
     c\<lparr>outWritten := outWritten c @ sent,
       localToStdoutOffset := localToStdoutOffset c + length sent\<rparr>"

definition free_stdout :: "rpc_console \<Rightarrow> rpc_console" where
  "free_stdout c = c\<lparr>localToStdout := None, localToStdoutOffset := 0, localToStdoutLength := 0\<rparr>"

definition stdout_data :: "rpc_console \<Rightarrow> byte list" where
  "stdout_data c = (case localToStdout c of None \<Rightarrow> [] | Some b \<Rightarrow>
     buf_read b (localToStdoutOffset c)
       (gsize_minus (localToStdoutLength c) (localToStdoutOffset c)))"

definition out_queues_ok :: "rpc_console \<Rightarrow> bool" where
  "out_queues_ok c \<longleftrightarrow>
     queue_ok (localToStdout c) (localToStdoutLength c) (localToStdoutOffset c) \<and>
     queue_ok (localToStderr c) (localToStderrLength c) (localToStderrOffset c) \<and>
     localToStderrOffset c = 0 \<and> localToStdoutLength c < 2 ^ 64"

lemma stdout_data_pending:
  assumes "queue_ok (localToStdout c) (localToStdoutLength c) (localToStdoutOffset c)"
    "localToStdoutLength c < 2 ^ 64"
  shows "stdout_data c = pending (localToStdout c) (localToStdoutOffset c)"
  using assms
  by (cases "localToStdout c")
    (auto simp: stdout_data_def queue_ok_def pending_def gsize_minus_le buf_read_inside)

lemma write_out_ok:
  assumes "out_ok c ms" "stdout_data c = pending (localToStdout c) (localToStdoutOffset c)"
    "sent = take n (stdout_data c)"
  shows "localToStdoutOffset c + length sent \<noteq> localToStdoutLength c \<Longrightarrow> out_ok (write_out sent c) ms"
    and "localToStdoutOffset c + length sent = localToStdoutLength c \<Longrightarrow>
      out_ok (free_stdout (write_out sent c)) ms"
proof -
  have data: "outWritten c @ pending (localToStdout c) (localToStdoutOffset c) = data_of PROC_STDOUT ms"
    using assms(1) by (simp add: out_ok_def)
  show "out_ok (write_out sent c) ms" if "localToStdoutOffset c + length sent \<noteq> localToStdoutLength c"
  proof (cases "localToStdout c")
    case None
    with assms that show ?thesis by (auto simp: out_ok_def queue_ok_def pending_def)
  next
    case (Some b)
    have len: "localToStdoutLength c = length b" "localToStdoutOffset c < length b"
      using assms(1) Some by (auto simp: out_ok_def queue_ok_def)
    have sent: "sent = take n (drop (localToStdoutOffset c) b)"
      using assms(2,3) Some by (simp add: pending_def)
    then have "sent @ drop (localToStdoutOffset c + length sent) b = drop (localToStdoutOffset c) b"
      by (metis add.commute append_take_drop_id drop_drop length_take min.cobounded2 append_eq_conv_conj)
    moreover have "localToStdoutOffset c + length sent < length b"
      using that len sent by (simp add: min_def split: if_splits)
    ultimately show ?thesis
      using assms(1) data len Some
      by (cases "localToStderr c") (auto simp: out_ok_def write_out_def queue_ok_def pending_def)
  qed
  show "out_ok (free_stdout (write_out sent c)) ms"
    if "localToStdoutOffset c + length sent = localToStdoutLength c"
  proof -
    have "sent = pending (localToStdout c) (localToStdoutOffset c)"
      using assms that by (cases "localToStdout c")
        (auto simp: out_ok_def queue_ok_def pending_def min_def split: if_splits)
    with assms(1) data show ?thesis
      by (cases "localToStderr c")
        (auto simp: out_ok_def write_out_def free_stdout_def queue_ok_def pending_def)
  qed
qed

lemma free_write_fields [simp]:
  "st (free_stdout (write_out x c)) = st c" "rx (free_stdout (write_out x c)) = rx c"
  "received (free_stdout (write_out x c)) = received c"
  "localStdin (free_stdout (write_out x c)) = localStdin c"
  "localToStderrLength (free_stdout (write_out x c)) = localToStderrLength c"
  "localToStdoutLength (free_stdout (write_out x c)) = 0"
  by (simp_all add: free_stdout_def write_out_def)

lemma host_inv_queue:
  assumes "host_inv X E c"
  shows "queue_ok (localToStdout c) (localToStdoutLength c) (localToStdoutOffset c) \<and>
    localToStdoutLength c < 2 ^ 64 \<and> localToStderrOffset c = 0 \<and>
    queue_ok (localToStderr c) (localToStderrLength c) (localToStderrOffset c) \<and>
    (st c \<notin> {RUNNING, STOPPING} \<longrightarrow> no_queues c)"
  using assms unfolding host_inv_def recv_inv_def
  by (cases "st c")
    (auto simp: out_ok_def no_queues_def queue_ok_def queues_bounded_def MAX_QUEUED_DATA_def
      packet_sizes pending_def split: option.splits)

lemma host_inv_active:
  assumes "recv_inv X c" "st c \<in> {RUNNING, STOPPING}"
    and "\<And>ms. out_ok c ms \<Longrightarrow> out_ok d ms" "st d = st c" "rx d = rx c" "received d = received c"
    and "localToStdoutLength d \<le> localToStdoutLength c" "localToStderrLength d \<le> localToStderrLength c"
  shows "recv_inv X d"
proof -
  have msgs: "received_messages X d ms part = received_messages X c ms part" for ms part
    using assms(6) by (simp add: received_messages_def)
  have "queues_bounded d"
    using assms(1,2,5,7,8) by (auto simp: recv_inv_def queues_bounded_def)
  with assms(1,2,4,5) show ?thesis
    unfolding recv_inv_def by (auto simp: msgs) (blast intro: assms(3))+
qed

lemma host_inv_rearm:
  assumes "host_inv X E c" "localToStdoutLength c < MAX_QUEUED_DATA" "localToStderrLength c < MAX_QUEUED_DATA"
    "st c = RUNNING" "rx c = None"
  shows "host_inv X E (c\<lparr>rx := Some (rpcpacket_new True)\<rparr>)"
proof -
  obtain ms where "received_messages X c ms []" "out_ok c ms" "queues_bounded c"
    using assms by (auto simp: host_inv_def recv_inv_def rx_partial_def)
  then have "recv_inv X (c\<lparr>rx := Some (rpcpacket_new True)\<rparr>)"
    using assms(2-4) by (simp add: recv_inv_def queues_bounded_def) (blast intro: rx_partial_new)
  with assms(1) show ?thesis by (simp add: host_inv_def term_ok_def)
qed

lemma host_inv_finish:
  assumes "host_inv X E c" "st c = STOPPING" "localToStdoutLength c = 0" "localToStderrLength c = 0"
  shows "host_inv X E (fst (set_state X FINISHED c))"
proof -
  obtain ms where ms: "received_messages X c ms []" "rx c = None" "out_ok c ms"
    using assms(1,2) by (auto simp: host_inv_def recv_inv_def)
  then have "recv_inv X (fst (set_state X FINISHED c))"
    using out_ok_empty [OF ms(3) assms(3,4)]
    by (auto simp: recv_inv_def received_messages_def set_state_rx)
  with assms(1) show ?thesis by (simp add: host_inv_def term_ok_def)
qed

text \<open>The part of the two output callbacks that follows a queue being emptied.\<close>

lemma drained_inv:
  assumes "host_inv X E c"
  defines "d \<equiv> (if st c = RUNNING \<and> rx c = None \<and> localToStdoutLength c < MAX_QUEUED_DATA
                   \<and> localToStderrLength c < MAX_QUEUED_DATA
                then c\<lparr>rx := Some (rpcpacket_new True)\<rparr> else c)"
  shows "host_inv X E d"
    and "st d = STOPPING \<Longrightarrow> localToStdoutLength d = 0 \<Longrightarrow> localToStderrLength d = 0 \<Longrightarrow>
      host_inv X E (fst (set_state X FINISHED d))"
proof -
  show d: "host_inv X E d"
    using host_inv_rearm [OF assms(1)] assms(1) by (simp add: d_def)
  show "host_inv X E (fst (set_state X FINISHED d))"
    if "st d = STOPPING" "localToStdoutLength d = 0" "localToStderrLength d = 0"
    using host_inv_finish [OF d that] .
qed

lemma stdout_write_inv:
  assumes "host_inv X E c"
  shows "host_inv X E (stdout_write X E ret c)"
proof -
  have fin: "host_inv X E (d\<lparr>stdoutSources := n\<rparr>)" "host_inv X E (d\<lparr>localStdoutSource := s\<rparr>)"
    if "host_inv X E d" for d n s
    by (rule host_inv_same [OF _ _ that]; simp add: same_rx_def)+
  note q = host_inv_queue [OF assms]
  show ?thesis
  proof (cases ret)
    case Write_error
    with assms show ?thesis by (simp add: stdout_write_def Let_def fin host_inv_close)
  next
    case (Wrote n)
    define sent where "sent = take n (stdout_data c)"
    define c1 where "c1 = write_out sent c"
    have data: "stdout_data c = pending (localToStdout c) (localToStdoutOffset c)"
      using q stdout_data_pending by simp
    have keep: "host_inv X E d"
      if "\<And>ms. out_ok c ms \<Longrightarrow> out_ok d ms" "no_queues c \<Longrightarrow> same_rx c d" "st d = st c" "rx d = rx c"
        "received d = received c" "localStdin d = localStdin c"
        "localToStdoutLength d \<le> localToStdoutLength c" "localToStderrLength d \<le> localToStderrLength c" for d
    proof (cases "st c \<in> {RUNNING, STOPPING}")
      case True
      have "recv_inv X d"
        using assms True that by (intro host_inv_active [of X c d]) (auto simp: host_inv_def)
      with assms that show ?thesis by (simp add: host_inv_def term_ok_def)
    next
      case False
      with q that(2,6) assms show ?thesis using host_inv_same by blast
    qed
    show ?thesis
    proof (cases "localToStdoutOffset c1 = localToStdoutLength c1")
      case False
      have "host_inv X E c1"
      proof (rule keep)
        show "out_ok c1 ms" if "out_ok c ms" for ms
          using write_out_ok(1) [OF that data sent_def] False by (simp add: c1_def write_out_def)
        show "same_rx c c1" if "no_queues c"
          using that False by (simp add: c1_def write_out_def no_queues_def sent_def stdout_data_def)
      qed (simp_all add: c1_def write_out_def)
      with False show ?thesis
        by (simp add: stdout_write_def Wrote Let_def fin host_inv_update stdout_data_def [symmetric]
            sent_def [symmetric] write_out_def [symmetric] c1_def [symmetric])
    next
      case True
      define c2 where "c2 = free_stdout c1"
      have c2: "host_inv X E c2"
      proof (rule keep)
        show "out_ok c2 ms" if "out_ok c ms" for ms
          using write_out_ok(2) [OF that data sent_def] True by (simp add: c1_def c2_def write_out_def)
        show "same_rx c c2" if "no_queues c"
          using that by (simp add: c1_def c2_def write_out_def free_stdout_def no_queues_def sent_def
              stdout_data_def same_rx_def)
      qed (simp_all add: c1_def c2_def)
      define c3 where "c3 = (if st c2 = RUNNING \<and> rx c2 = None \<and> localToStderrLength c2 < MAX_QUEUED_DATA
         then c2\<lparr>rx := Some (rpcpacket_new True)\<rparr> else c2)"
      have zero: "localToStdoutLength c2 = 0" by (simp add: c2_def c1_def)
      note dr = drained_inv [OF c2]
      have c3: "host_inv X E c3" "st c3 = STOPPING \<Longrightarrow> localToStderrLength c3 = 0 \<Longrightarrow>
          host_inv X E (fst (set_state X FINISHED c3))"
        using dr zero by (auto simp: c3_def MAX_QUEUED_DATA_def)
      obtain c4 r where c4: "(if st c3 = STOPPING \<and> localToStderrLength c3 = 0
          then set_state X FINISHED c3 else (c3, None)) = (c4, r)"
        by (metis surj_pair)
      with c3 have "host_inv X E c4" by (metis fst_conv)
      then have "host_inv X E ((case r of Some e \<Rightarrow> close E True c4
          | None \<Rightarrow> update_events (c4\<lparr>localStdoutSource := False\<rparr>)))"
        by (cases r) (simp_all add: fin host_inv_update host_inv_close)
      moreover have "stdout_write X E ret c = (let c = (case r of Some e \<Rightarrow> close E True c4
          | None \<Rightarrow> update_events (c4\<lparr>localStdoutSource := False\<rparr>)) in c\<lparr>stdoutSources := stdoutSources c - 1\<rparr>)"
        using True unfolding stdout_write_def Wrote
        by (simp only: write_result.case stdout_data_def [symmetric] sent_def [symmetric] Let_def
            write_out_def [symmetric] c1_def [symmetric] free_stdout_def [symmetric] c2_def [symmetric]
            c3_def [symmetric] c4 if_True simp_thms prod.case)
      ultimately show ?thesis by (simp add: Let_def fin)
    qed
  qed
qed

text \<open>The offset of the stderr queue is never advanced, so no byte of it is ever passed on.\<close>

lemma stderr_write_eq:
  assumes "host_inv X E c"
  shows "stderr_write X E (Wrote n) c =
    (let empty = (localToStderrLength c = 0);
         (d, r) = (if empty \<and> st c = STOPPING \<and> localToStdoutLength c = 0
                   then set_state X FINISHED c
                   else (if empty \<and> st c = RUNNING \<and> rx c = None \<and> localToStdoutLength c < MAX_QUEUED_DATA
                         then c\<lparr>rx := Some (rpcpacket_new True)\<rparr> else c, None));
         d = (case r of Some _ \<Rightarrow> close E True d
              | None \<Rightarrow> update_events (d\<lparr>localStderrSource := False\<rparr>))
     in d\<lparr>stderrSources := stderrSources d - 1\<rparr>)"
proof -
  have off: "localToStderrOffset c = 0" and q: "queue_ok (localToStderr c) (localToStderrLength c) 0"
    using host_inv_queue [OF assms] by auto
  have none: "(case localToStderr c of None \<Rightarrow> [] | Some b \<Rightarrow> buf_read b 0 (localToStderrOffset c)) = []"
    using off by (simp split: option.split)
  have same: "c\<lparr>errWritten := errWritten c, localToStderrOffset := localToStderrOffset c\<rparr> = c"
    by (cases c) simp
  have freed: "c\<lparr>localToStderr := None, localToStderrOffset := 0, localToStderrLength := 0\<rparr> = c"
    if "localToStderrLength c = 0"
    using q off that by (cases c) (auto simp: queue_ok_def split: option.splits)
  show ?thesis
  proof (cases "localToStderrLength c = 0")
    case True
    have run: "st (if b then c\<lparr>rx := x\<rparr> else c) = st c"
      "localToStdoutLength (if b then c\<lparr>rx := x\<rparr> else c) = localToStdoutLength c" for b x
      by simp_all
    have eq: "stderr_write X E (Wrote n) c =
      (let c = (case (if st c = STOPPING \<and> localToStdoutLength c = 0
          then set_state X FINISHED (if st c = RUNNING \<and> rx c = None \<and> localToStdoutLength c < MAX_QUEUED_DATA
               then c\<lparr>rx := Some (rpcpacket_new True)\<rparr> else c)
          else (if st c = RUNNING \<and> rx c = None \<and> localToStdoutLength c < MAX_QUEUED_DATA
               then c\<lparr>rx := Some (rpcpacket_new True)\<rparr> else c, None)) of
            (c, Some e) \<Rightarrow> close E True c
          | (c, None) \<Rightarrow> update_events (c\<lparr>localStderrSource := False\<rparr>))
       in c\<lparr>stderrSources := stderrSources c - 1\<rparr>)"
      unfolding stderr_write_def
      by (simp only: write_result.case none take_Nil append_Nil2 list.size add_0_right same Let_def
          freed [OF True])
        (simp only: off True refl if_True simp_thms run)
    show ?thesis
    proof (cases "st c = STOPPING \<and> localToStdoutLength c = 0")
      case True
      then show ?thesis
        unfolding eq using \<open>localToStderrLength c = 0\<close>
        by (cases "set_state X FINISHED c"; cases "snd (set_state X FINISHED c)") (simp_all add: Let_def)
    next
      case False
      then have neg: "(st c = STOPPING \<and> localToStdoutLength c = 0) = False" by simp
      show ?thesis
        unfolding eq
        by (simp only: neg \<open>localToStderrLength c = 0\<close> if_False prod.case option.case Let_def simp_thms)
    qed
  next
    case False
    then have neg: "(localToStderrOffset c = localToStderrLength c) = False"
      "(localToStderrLength c = 0) = False" using off by simp_all
    show ?thesis
      by (simp only: stderr_write_def write_result.case none take_Nil append_Nil2 list.size add_0_right
          same Let_def)
        (simp only: neg if_False simp_thms prod.case option.case)
  qed
qed

lemma stderr_write_inv:
  assumes "host_inv X E c"
  shows "host_inv X E (stderr_write X E ret c)"
proof -
  have fin: "host_inv X E (d\<lparr>stderrSources := n\<rparr>)" "host_inv X E (d\<lparr>localStderrSource := s\<rparr>)"
    if "host_inv X E d" for d n s
    by (rule host_inv_same [OF _ _ that]; simp add: same_rx_def)+
  note q = host_inv_queue [OF assms]
  show ?thesis
  proof (cases ret)
    case Write_error
    with assms show ?thesis by (simp add: stderr_write_def Let_def fin host_inv_close)
  next
    case (Wrote n)
    obtain d r where d: "(if localToStderrLength c = 0 \<and> st c = STOPPING \<and> localToStdoutLength c = 0
         then set_state X FINISHED c
         else (if localToStderrLength c = 0 \<and> st c = RUNNING \<and> rx c = None \<and>
                 localToStdoutLength c < MAX_QUEUED_DATA
               then c\<lparr>rx := Some (rpcpacket_new True)\<rparr> else c, None)) = (d, r)"
      by (metis surj_pair)
    have "host_inv X E d"
    proof (cases "localToStderrLength c = 0 \<and> st c = STOPPING \<and> localToStdoutLength c = 0")
      case True
      with d host_inv_finish [OF assms] show ?thesis by (metis fst_conv)
    next
      case False
      with d host_inv_rearm [OF assms] assms show ?thesis
        by (auto simp: MAX_QUEUED_DATA_def split: if_splits)
    qed
    then show ?thesis
      by (cases r) (simp_all add: Wrote stderr_write_eq [OF assms] Let_def d fin host_inv_update
          host_inv_close)
  qed
qed

section \<open>Every reachable state\<close>

lemma step_host_inv:
  assumes "xdr_library X" "console_step X E c d" "host_inv X E c"
  shows "host_inv X E d"
  using assms(2,3)
proof (cases rule: console_step.cases)
  case (arrive i)
  then show ?thesis
    by (simp add: host_inv_same [OF _ _ assms(3)] same_rx_def)
qed (use assms(1) in \<open>simp_all add: stream_readwrite_inv stdin_read_inv stdout_write_inv
       stderr_write_inv handshake_wait_inv host_inv_detach\<close>)

lemma attach_fields:
  assumes "attach X E has_stdin True (console_new esc) = (c, None)"
  shows "c = update_events (fst (set_state X WAITING
      (new_stream (if has_stdin then (fst (start_term E True (console_new esc)))\<lparr>localStdin := True\<rparr>
                   else console_new esc))))"
    and "has_stdin \<longrightarrow> te_isatty E \<longrightarrow> te_setattr E"
  using assms
  by (cases has_stdin; simp add: attach_def start_term_def console_new_def Let_def split: if_splits prod.splits option.splits)+

lemma attach_host_inv:
  assumes "attach X E has_stdin True (console_new esc) = (c, None)"
  shows "host_inv X E c"
proof -
  let ?c0 = "if has_stdin then (fst (start_term E True (console_new esc)))\<lparr>localStdin := True\<rparr>
      else console_new esc"
  have c: "c = update_events (fst (set_state X WAITING (new_stream ?c0)))"
    by (rule attach_fields [OF assms])
  have c0: "st ?c0 = INACTIVE" "no_queues ?c0" "localStdin ?c0 \<longrightarrow> te_isatty E \<longrightarrow> te_setattr E"
    using attach_fields(2) [OF assms]
    by (auto simp: start_term_def console_new_def no_queues_def Let_def)
  then have "recv_inv X (fst (set_state X WAITING (new_stream ?c0)))"
    by (simp add: set_state_def new_stream_def recv_inv_def waiting_rx_def out_ok_Nil no_queues_def)
  moreover have "term_ok E (fst (set_state X WAITING (new_stream ?c0)))"
    using c0(3) by (simp add: term_ok_def new_stream_def)
  ultimately show ?thesis
    unfolding c using host_inv_update by (simp add: host_inv_def)
qed

lemma attached_host_inv: "attached X E c \<Longrightarrow> xdr_library X \<Longrightarrow> host_inv X E c"
proof (induction rule: attached.induct)
  case (start has_stdin esc c)
  then show ?case by (simp add: attach_host_inv)
next
  case (step c d)
  then show ?case by (simp add: step_host_inv)
qed

section \<open>Properties\<close>

text \<open>
  What the guest puts on the stream: bytes without a SYNC, one SYNC, then packets. All of it, or
  the part of it received so far, is a prefix.
\<close>

definition sendable :: "byte list \<Rightarrow> message list \<Rightarrow> bool" where
  "sendable w ms \<longleftrightarrow> HANDSHAKE_SYNC \<notin> set w \<and> fits ms"

lemma received_messages_prefix:
  assumes "xdr_library X" "received_messages X c ns part" "prefix (received c) (guest_stream X w ms)"
    "sendable w ms"
  shows "prefix ns ms"
proof -
  obtain bs where bs: "handshaken (received c) (bs @ part)" "framed (rpc_frame X) bs ns"
    using assms(2) by (auto simp: received_messages_def)
  let ?wires = "wires X ms"
  have "prefix (bs @ part) ?wires"
    using handshaken_guest_stream [OF bs(1), of w] assms(3,4)
    by (simp add: guest_stream_def sendable_def)
  then have "prefix bs ?wires" by (metis append_prefixD)
  moreover have "framed (rpc_frame X) ?wires ms"
    using assms(1,4) by (simp add: xdr_library.wires_framed sendable_def)
  ultimately show ?thesis
    using frame_format.framed_prefix [OF rpc_frame_format bs(2)] by blast
qed

definition run_messages :: "message list" where
  "run_messages =
     [(\<lparr>h_proc = PROC_STDOUT, h_type = TYPE_DATA, h_status = STATUS_OK, h_serial = 0\<rparr>, [104, 105]),
      (\<lparr>h_proc = PROC_EXIT, h_type = TYPE_MESSAGE, h_status = STATUS_OK, h_serial = 1\<rparr>, [0, 0, 0, 3])]"

lemma run_stream: "guest_stream rfc4506 [] run_messages = 28 # stdout_packet @ exit_packet"
  by (simp add: guest_stream_def wires_def run_messages_def wire_def xbytes_def rfc4506_def u_int_filter_def
      header_filter_def iso_filter_def seq_filter_def be32_def proc_defs TYPE_DATA_def TYPE_MESSAGE_def
      STATUS_OK_def HANDSHAKE_SYNC_def stdout_packet_def exit_packet_def)

lemma run_sendable: "sendable [] run_messages"
  by (simp add: sendable_def fits_def run_messages_def size_defs)

lemma stdout_prefix:
  assumes "xdr_library X" and "attached X E c"
    and "prefix (received c) (guest_stream X w ms)" and "sendable w ms"
  shows "prefix (outWritten c) (data_of PROC_STDOUT ms)"
proof -
  have "out_hist X c"
    using attached_host_inv [OF assms(2,1)] recv_inv_out_hist by (simp add: host_inv_def)
  then consider "outWritten c = []"
    | ns part where "received_messages X c ns part" "prefix (outWritten c) (data_of PROC_STDOUT ns)"
    by (auto simp: out_hist_def)
  then show ?thesis
  proof cases
    case 2
    then have "prefix ns ms" using received_messages_prefix [OF assms(1) _ assms(3,4)] by blast
    then have "prefix (data_of PROC_STDOUT ns) (data_of PROC_STDOUT ms)" by (rule data_of_prefix)
    with 2(2) show ?thesis by (rule prefix_order.trans)
  qed simp
qed

text \<open>
  C4. If the guest sends a handshake and then the packets \<open>ms\<close>, then at every moment of an
  attachment, however the stream is cut into chunks, whatever the terminal, the timers and the
  local writes do, and also after the console was closed, the bytes written to the local
  stdout are a prefix of the concatenated STDOUT payloads of \<open>ms\<close>: nothing is lost, reordered,
  duplicated or invented.
\<close>

theorem stdout_in_order:
  assumes "xdr_library X" and "attached X E c"
    and "prefix (received c) (guest_stream X w ms)" and "sendable w ms"
  shows "prefix (outWritten c) (data_of PROC_STDOUT ms)"
  using assms by (rule stdout_prefix)

theorem stdout_in_order_witness:
  "outWritten run_written = [104, 105] \<and>
   prefix (outWritten run_written) (data_of PROC_STDOUT run_messages)"
proof -
  have "prefix (received run_written) (guest_stream rfc4506 [] run_messages)"
    by (simp add: run_stream run_states stdout_packet_def)
  with stdout_in_order [OF rfc.xdr_library_axioms attached_run(4) _ run_sendable]
  show ?thesis by (simp add: run_written)
qed

text \<open>
  C5. The console reaches FINISHED, the state in which it tells the guest to quit, only with
  every STDOUT byte it received written out, and only if no STDERR byte was received.
\<close>

theorem finished_flushed:
  assumes "xdr_library X" and "attached X E c" and "st c = FINISHED"
    and "prefix (received c) (guest_stream X w ms)" and "sendable w ms"
  shows "\<exists>ns. prefix ns ms \<and> outWritten c = data_of PROC_STDOUT ns \<and> data_of PROC_STDERR ns = [] \<and>
    framed (rpc_frame X) (drop (length w + 1) (received c)) ns"
proof -
  obtain ns where ns: "received_messages X c ns []" "out_ok c ns" "no_queues c"
    using attached_host_inv [OF assms(2,1)] assms(3) by (auto simp: host_inv_def recv_inv_def)
  from ns(1) obtain bs where bs: "handshaken (received c) bs" "framed (rpc_frame X) bs ns"
    by (auto simp: received_messages_def)
  have "received c = w @ HANDSHAKE_SYNC # bs"
    using handshaken_guest_stream [OF bs(1), of w] assms(4,5)
    by (simp add: guest_stream_def sendable_def)
  with bs have "framed (rpc_frame X) (drop (length w + 1) (received c)) ns" by simp
  moreover have "outWritten c = data_of PROC_STDOUT ns" "data_of PROC_STDERR ns = []"
    using ns(2,3) by (auto simp: out_ok_def no_queues_def pending_def)
  ultimately show ?thesis
    using received_messages_prefix [OF assms(1) ns(1) assms(4,5)] by blast
qed

theorem finished_flushed_witness:
  "\<exists>ns. prefix ns run_messages \<and> outWritten run_finished = data_of PROC_STDOUT ns \<and>
    data_of PROC_STDERR ns = [] \<and>
    framed (rpc_frame rfc4506) (drop 1 (received run_finished)) ns"
  using finished_flushed [OF rfc.xdr_library_axioms attached_run(5) run_finished(1) _ run_sendable]
  by (simp add: run_stream run_finished)

text \<open>
  C6. No byte is ever written to the local stderr: the callback passes the offset of the queue,
  which is 0 and stays 0, as the number of bytes to write.
\<close>

theorem stderr_never_written:
  assumes "xdr_library X" and "attached X E c"
  shows "errWritten c = []"
  using attached_host_inv [OF assms(2,1)] recv_inv_out_hist [of X c]
  by (simp add: host_inv_def out_hist_def)

theorem stderr_never_written_witness: "errWritten run_finished = []"
  by (rule stderr_never_written [OF rfc.xdr_library_axioms attached_run(5)])

text \<open>
  C7. Memory safety and bounds of an attachment: every receive asks for bytes inside the array
  of its packet, and the two queues never hold more than \<open>MAX_QUEUED_DATA\<close> bytes and one
  packet's payload.
\<close>

theorem receive_in_bounds:
  assumes "xdr_library X" and "attached X E c"
  shows "(case rx c of None \<Rightarrow> True | Some p \<Rightarrow>
       packet_ok p \<and> bufferOffset p + stream_want p \<le> BUFFER_SIZE) \<and>
    localToStdoutLength c < MAX_QUEUED_DATA + PAYLOAD_MAX \<and>
    localToStderrLength c < MAX_QUEUED_DATA + PAYLOAD_MAX"
proof -
  have inv: "recv_inv X c" using attached_host_inv [OF assms(2,1)] by (simp add: host_inv_def)
  have wait: "packet_ok waiting_rx" by (simp add: packet_ok_def waiting_rx_def rpcpacket_new_def packet_sizes)
  have small: "localToStdoutLength c < MAX_QUEUED_DATA + PAYLOAD_MAX \<and>
      localToStderrLength c < MAX_QUEUED_DATA + PAYLOAD_MAX"
    using inv unfolding recv_inv_def
    by (cases "st c") (auto simp: out_ok_Nil no_queues_def queues_bounded_def packet_sizes)
  have ok: "packet_ok p" if "rx c = Some p" for p
    using inv that wait unfolding recv_inv_def
    by (cases "st c") (auto simp: rx_partial_def)
  then have "bufferOffset p + stream_want p \<le> BUFFER_SIZE" if "rx c = Some p" for p
    using that by (auto simp: stream_want_ok packet_ok_def)
  with ok small show ?thesis by (auto split: option.splits)
qed

theorem receive_in_bounds_witness:
  "rx run_running = Some (rpcpacket_new True) \<and>
   bufferOffset (rpcpacket_new True) + stream_want (rpcpacket_new True) \<le> BUFFER_SIZE"
  using receive_in_bounds [OF rfc.xdr_library_axioms attached_run(2)]
  by (simp add: run_running)

end
