(* ===== verification/Console_Rpc_Tx.thy ===== *)
theory Console_Rpc_Tx
  imports Console_Rpc_Rx
begin

text \<open>
  What the host sends to the guest. The invariant \<open>tx_inv\<close> relates the bytes the stream has accepted and
  the rest of the packet in transmission to the handshake and a list of STDIN messages with consecutive
  serials, whose payloads are the bytes read from the local stdin. An EXIT of the guest replaces the
  packet in transmission by QUIT, wherever it was: from then on only \<open>tx_hist\<close> holds.
\<close>

section \<open>The invariant\<close>

definition host_header :: "u32 \<Rightarrow> nat \<Rightarrow> rpc_header" where
  "host_header proc s = \<lparr>h_proc = proc, h_type = TYPE_DATA, h_status = STATUS_OK, h_serial = of_nat s\<rparr>"

definition input_only :: "message list \<Rightarrow> bool" where
  "input_only ms \<longleftrightarrow> fits ms \<and> map fst ms = map (host_header PROC_STDIN) [0..<length ms]"

definition exited :: "rpc_console \<Rightarrow> bool" where
  "exited c \<longleftrightarrow> (\<exists>s. Sig_exited s \<in> set (signals c))"

definition tx_pending :: "rpc_packet option \<Rightarrow> byte list" where
  "tx_pending t = (case t of None \<Rightarrow> [] | Some p \<Rightarrow> pkt_rest p)"

definition tx_packet_ok :: "rpc_packet option \<Rightarrow> bool" where
  "tx_packet_ok t = (case t of None \<Rightarrow> True | Some p \<Rightarrow> packet_ok p)"

definition tx_hist :: "xdr_lib \<Rightarrow> rpc_console \<Rightarrow> bool" where
  "tx_hist X c \<longleftrightarrow>
     (\<exists>n ms s p q. toGuest c = p @ q \<and> prefix p (host_stream X n ms) \<and> input_only ms \<and>
        prefix (data_of PROC_STDIN ms) (stdinRead c) \<and>
        prefix q (wire X (host_header PROC_QUIT s) []) \<and> (q \<noteq> [] \<longrightarrow> exited c))"

definition tx_inv :: "xdr_lib \<Rightarrow> rpc_console \<Rightarrow> bool" where
  "tx_inv X c = (case st c of
       INACTIVE \<Rightarrow> tx_hist X c
     | WAITING \<Rightarrow> serial c = 0 \<and> stdinRead c = [] \<and> (tx c = None \<or> tx c = Some build_handshake_wait) \<and>
         (\<exists>n. toGuest c = replicate n HANDSHAKE_WAIT)
     | SYNCING \<Rightarrow> serial c = 0 \<and> stdinRead c = [] \<and> tx c = Some build_handshake_sync \<and>
         (\<exists>n. toGuest c = replicate n HANDSHAKE_WAIT)
     | RUNNING \<Rightarrow> tx_packet_ok (tx c) \<and>
         (\<exists>n ms. toGuest c @ tx_pending (tx c) = host_stream X n ms \<and> input_only ms \<and>
            data_of PROC_STDIN ms = stdinRead c \<and> serial c = length ms mod 2 ^ 64)
     | STOPPING \<Rightarrow> tx c = None \<and> exited c \<and>
         (\<exists>n ms. prefix (toGuest c) (host_stream X n ms) \<and> input_only ms \<and>
            prefix (data_of PROC_STDIN ms) (stdinRead c))
     | FINISHED \<Rightarrow> tx_packet_ok (tx c) \<and> exited c \<and>
         (\<exists>n ms s p q. toGuest c = p @ q \<and> prefix p (host_stream X n ms) \<and> input_only ms \<and>
            prefix (data_of PROC_STDIN ms) (stdinRead c) \<and>
            q @ tx_pending (tx c) = wire X (host_header PROC_QUIT s) []))"

lemmas tx_defs = tx_inv_def tx_hist_def exited_def

lemma tx_inv_frame [simp]:
  "tx_inv X (c\<lparr>rx := a1\<rparr>) = tx_inv X c" "tx_inv X (c\<lparr>localStdin := a2\<rparr>) = tx_inv X c"
  "tx_inv X (c\<lparr>termiosActive := a2\<rparr>) = tx_inv X c" "tx_inv X (c\<lparr>localToStdout := a3\<rparr>) = tx_inv X c"
  "tx_inv X (c\<lparr>localToStdoutLength := a4\<rparr>) = tx_inv X c" "tx_inv X (c\<lparr>localToStdoutOffset := a4\<rparr>) = tx_inv X c"
  "tx_inv X (c\<lparr>localToStderr := a3\<rparr>) = tx_inv X c" "tx_inv X (c\<lparr>localToStderrLength := a4\<rparr>) = tx_inv X c"
  "tx_inv X (c\<lparr>localToStderrOffset := a4\<rparr>) = tx_inv X c" "tx_inv X (c\<lparr>localEOF := a2\<rparr>) = tx_inv X c"
  "tx_inv X (c\<lparr>localStdinSource := a2\<rparr>) = tx_inv X c" "tx_inv X (c\<lparr>localStdoutSource := a2\<rparr>) = tx_inv X c"
  "tx_inv X (c\<lparr>localStderrSource := a2\<rparr>) = tx_inv X c" "tx_inv X (c\<lparr>consoleWatch := a2\<rparr>) = tx_inv X c"
  "tx_inv X (c\<lparr>stdinSources := a4\<rparr>) = tx_inv X c" "tx_inv X (c\<lparr>stdoutSources := a4\<rparr>) = tx_inv X c"
  "tx_inv X (c\<lparr>stderrSources := a4\<rparr>) = tx_inv X c" "tx_inv X (c\<lparr>streamWatch := a5\<rparr>) = tx_inv X c"
  "tx_inv X (c\<lparr>waitTimers := a4\<rparr>) = tx_inv X c" "tx_inv X (c\<lparr>fromGuest := a6\<rparr>) = tx_inv X c"
  "tx_inv X (c\<lparr>received := a7\<rparr>) = tx_inv X c" "tx_inv X (c\<lparr>outWritten := a7\<rparr>) = tx_inv X c"
  "tx_inv X (c\<lparr>errWritten := a7\<rparr>) = tx_inv X c"
  by (simp_all add: tx_defs cong: rpc_state.case_cong)

lemma tx_hist_mono:
  assumes "tx_hist X c" "toGuest d = toGuest c" "prefix (stdinRead c) (stdinRead d)" "exited c \<longrightarrow> exited d"
  shows "tx_hist X d"
proof -
  obtain n ms s p q where h: "toGuest c = p @ q" "prefix p (host_stream X n ms)" "input_only ms"
    "prefix (data_of PROC_STDIN ms) (stdinRead c)" "prefix q (wire X (host_header PROC_QUIT s) [])"
    "q \<noteq> [] \<longrightarrow> exited c" using assms(1) unfolding tx_hist_def by blast
  have "prefix (data_of PROC_STDIN ms) (stdinRead d)" by (rule prefix_order.trans [OF h(4) assms(3)])
  then show ?thesis unfolding tx_hist_def
    using h(1,2,3,5,6) assms(2,4) by (intro exI [of _ n] exI [of _ ms] exI [of _ s] exI [of _ p] exI [of _ q]) simp
qed

lemma exited_signals [simp]: "exited (c\<lparr>signals := ss @ tt\<rparr>) \<longleftrightarrow> (\<exists>s. Sig_exited s \<in> set ss \<union> set tt)"
  by (simp add: exited_def)

lemma tx_inv_signals:
  assumes "tx_inv X c"
  shows "tx_inv X (c\<lparr>signals := signals c @ ss\<rparr>)"
proof -
  have ex: "exited c \<longrightarrow> exited (c\<lparr>signals := signals c @ ss\<rparr>)" by (auto simp: exited_def)
  have "tx_hist X c \<Longrightarrow> tx_hist X (c\<lparr>signals := signals c @ ss\<rparr>)"
    by (erule tx_hist_mono) (use ex in simp_all)
  with ex assms show ?thesis by (cases "st c") (simp_all add: tx_inv_def)
qed

lemma tx_inv_update [simp]: "tx_inv X (update_events c) = tx_inv X c"
  unfolding update_events_eq by simp

lemma input_only_Nil [simp]: "input_only []"
  by (simp add: input_only_def)

lemma tx_inv_hist:
  assumes "tx_inv X c"
  shows "tx_hist X c"
proof -
  have none: "tx_hist X c" if "prefix (toGuest c) (host_stream X n ms)" "input_only ms"
    "prefix (data_of PROC_STDIN ms) (stdinRead c)" for n ms
    unfolding tx_hist_def using that
    by (intro exI [of _ n] exI [of _ ms] exI [of _ "0 :: nat"] exI [of _ "toGuest c"] exI [of _ "[]"]) simp
  show ?thesis
  proof (cases "st c")
    case INACTIVE
    then show ?thesis using assms by (simp add: tx_inv_def)
  next
    case WAITING
    then obtain k where "toGuest c = replicate k HANDSHAKE_WAIT" using assms by (auto simp: tx_inv_def)
    then show ?thesis by (intro none [of k "[]"]) (simp_all add: host_stream_def)
  next
    case SYNCING
    then obtain k where "toGuest c = replicate k HANDSHAKE_WAIT" using assms by (auto simp: tx_inv_def)
    then show ?thesis by (intro none [of k "[]"]) (simp_all add: host_stream_def)
  next
    case RUNNING
    then obtain n ms where r: "toGuest c @ tx_pending (tx c) = host_stream X n ms" "input_only ms"
      "data_of PROC_STDIN ms = stdinRead c" using assms by (auto simp: tx_inv_def)
    then show ?thesis by (intro none [of n ms] prefixI [OF r(1) [symmetric]]) simp_all
  next
    case STOPPING
    then obtain n ms where "prefix (toGuest c) (host_stream X n ms)" "input_only ms"
      "prefix (data_of PROC_STDIN ms) (stdinRead c)" using assms by (auto simp: tx_inv_def)
    then show ?thesis by (rule none)
  next
    case FINISHED
    then obtain n ms s p q where h: "toGuest c = p @ q" "prefix p (host_stream X n ms)" "input_only ms"
      "prefix (data_of PROC_STDIN ms) (stdinRead c)" "q @ tx_pending (tx c) = wire X (host_header PROC_QUIT s) []"
      "exited c" using assms by (auto simp: tx_inv_def)
    then show ?thesis unfolding tx_hist_def
      using prefixI [OF h(5) [symmetric]]
      by (intro exI [of _ n] exI [of _ ms] exI [of _ s] exI [of _ p] exI [of _ q]) simp
  qed
qed

lemma tx_inv_detach: "tx_inv X c \<Longrightarrow> tx_inv X (fst (detach E c))"
  using tx_inv_hist [of X c]
  by (auto simp: detach_def stop_term_def split: if_splits) (simp_all add: tx_defs)

lemma tx_inv_close: "tx_inv X c \<Longrightarrow> tx_inv X (close E e c)"
  by (simp add: close_def Let_def tx_inv_detach tx_inv_signals)

section \<open>Packets of the host\<close>

context xdr_library
begin

lemma fresh_header_encodes:
  obtains m where "rpcpacket_encode_header X ((rpcpacket_new False)\<lparr>header := h\<rparr>) = Inr m"
  using encode_header_fresh [of "(rpcpacket_new False)\<lparr>header := h\<rparr>"]
  by (simp add: rpcpacket_new_def)

lemma build_quit_eq:
  "build_quit X c = (next_serial c, Inr (wire_packet X (host_header PROC_QUIT (serial c)) []))"
proof -
  let ?h = "host_header PROC_QUIT (serial c)"
  obtain m where m: "rpcpacket_encode_header X ((rpcpacket_new False)\<lparr>header := ?h\<rparr>) = Inr m"
    by (rule fresh_header_encodes)
  then have "rpcpacket_encode_payload_empty X m = Inr (wire_packet X ?h [])"
    using encode_empty_fresh [OF _ m] by (simp add: rpcpacket_new_def)
  with m show ?thesis by (simp add: build_quit_def Let_def host_header_def)
qed

lemma build_stdin_eq:
  assumes "length data \<le> PAYLOAD_MAX"
  shows "build_stdin X data c = (next_serial c, Inr (wire_packet X (host_header PROC_STDIN (serial c)) data))"
proof -
  let ?h = "host_header PROC_STDIN (serial c)"
  obtain m where m: "rpcpacket_encode_header X ((rpcpacket_new False)\<lparr>header := ?h\<rparr>) = Inr m"
    by (rule fresh_header_encodes)
  then have "rpcpacket_encode_payload_raw X data m = Inr (wire_packet X ?h data)"
    using encode_raw_fresh [OF _ m] assms by (simp add: rpcpacket_new_def)
  with m show ?thesis by (simp add: build_stdin_def Let_def host_header_def)
qed

end

lemma next_serial_frame [simp]:
  "st (next_serial c) = st c" "tx (next_serial c) = tx c" "toGuest (next_serial c) = toGuest c"
  "stdinRead (next_serial c) = stdinRead c" "signals (next_serial c) = signals c"
  "exited (next_serial c) = exited c" "stdinSources (next_serial c) = stdinSources c"
  "localStdinSource (next_serial c) = localStdinSource c" "localEOF (next_serial c) = localEOF c"
  "consoleWatch (next_serial c) = consoleWatch c" "streamWatch (next_serial c) = streamWatch c"
  "serial (next_serial c) = (serial c + 1) mod 2 ^ 64" "localStdin (next_serial c) = localStdin c"
  by (simp_all add: next_serial_def exited_def)

text \<open>FINISHED replaces whatever was in transmission by QUIT.\<close>

lemma tx_inv_finish:
  assumes "xdr_library X" "tx_inv X c" "st c \<in> {RUNNING, STOPPING}" "exited c"
  shows "tx_inv X (fst (set_state X FINISHED c))" "snd (set_state X FINISHED c) = None"
proof -
  let ?p = "wire_packet X (host_header PROC_QUIT (serial c)) []"
  have eq: "set_state X FINISHED c = ((next_serial (c\<lparr>st := FINISHED\<rparr>))\<lparr>tx := Some ?p\<rparr>, None)"
    using assms(3) xdr_library.build_quit_eq [OF assms(1)] by (auto simp: set_state_def Let_def)
  then show "snd (set_state X FINISHED c) = None" by simp
  obtain n ms where h: "prefix (toGuest c) (host_stream X n ms)" "input_only ms"
    "prefix (data_of PROC_STDIN ms) (stdinRead c)"
  proof (cases "st c = RUNNING")
    case True
    then obtain n ms where r: "toGuest c @ tx_pending (tx c) = host_stream X n ms" "input_only ms"
      "data_of PROC_STDIN ms = stdinRead c" using assms(2) by (auto simp: tx_inv_def)
    show thesis by (rule that [OF prefixI [OF r(1) [symmetric]] r(2)]) (simp add: r(3))
  next
    case False
    with assms(2,3) that show thesis by (auto simp: tx_inv_def)
  qed
  have rest: "pkt_rest ?p = wire X (host_header PROC_QUIT (serial c)) []" "packet_ok ?p"
    using assms(1) by (simp_all add: tx_rest_wire packet_ok_wire)
  have "exited (c\<lparr>st := FINISHED\<rparr>) = exited c" by (simp add: exited_def)
  with h rest assms(4) show "tx_inv X (fst (set_state X FINISHED c))" unfolding eq
    by (simp add: tx_inv_def tx_pending_def tx_packet_ok_def exited_def)
      (intro exI [of _ n] exI [of _ ms] conjI exI [of _ "serial c"] exI [of _ "toGuest c"] exI [of _ "[]"]; simp)
qed

lemma tx_inv_stopping:
  assumes "tx_inv X c" "st c = RUNNING" "exited c"
  shows "tx_inv X (fst (set_state X STOPPING c))"
proof -
  obtain n ms where r: "toGuest c @ tx_pending (tx c) = host_stream X n ms" "input_only ms"
    "data_of PROC_STDIN ms = stdinRead c" using assms(1,2) by (auto simp: tx_inv_def)
  have "exited (c\<lparr>st := STOPPING, tx := None\<rparr>)" using assms(3) by (simp add: exited_def)
  moreover have "prefix (toGuest c) (host_stream X n ms)" by (rule prefixI [OF r(1) [symmetric]])
  moreover have "prefix (data_of PROC_STDIN ms) (stdinRead c)" by (simp add: r(3))
  ultimately show ?thesis using r(2) assms(2) by (auto simp: set_state_def tx_inv_def)
qed

lemma tx_inv_queue [simp]:
  "tx_inv X (queue_stdout d c) = tx_inv X c" "tx_inv X (queue_stderr d c) = tx_inv X c"
  by (cases "localToStdout c"; cases "localToStderr c"; simp add: queue_stdout_def queue_stderr_def Let_def)+

lemma dispatch_tx_inv:
  assumes "xdr_library X" "tx_inv X c" "st c = RUNNING"
  shows "tx_inv X (fst (dispatch_proc X p c))"
proof -
  have fin: "tx_inv X (fst (set_state X s (c\<lparr>signals := signals c @ [Sig_exited e]\<rparr>)))"
    if "s \<in> {FINISHED, STOPPING}" for s e
  proof -
    let ?c = "c\<lparr>signals := signals c @ [Sig_exited e]\<rparr>"
    have c: "tx_inv X ?c" "st ?c = RUNNING" "exited ?c"
      using assms by (auto simp: tx_inv_signals)
    have "tx_inv X (fst (set_state X FINISHED ?c))"
      by (rule tx_inv_finish(1) [OF assms(1) c(1) _ c(3)]) (simp add: assms(3))
    then show ?thesis using that tx_inv_stopping [OF c] by blast
  qed
  show ?thesis using assms(2) fin
    by (auto simp: dispatch_proc_def Let_def split: sum.split)
qed

lemma process_rx_tx_inv:
  assumes "xdr_library X" "tx_inv X c"
  shows "tx_inv X (fst (process_packet_rx X p c))"
proof (cases "st c")
  case WAITING
  then have "tx_inv X (fst (set_state X SYNCING c))"
    using assms(2) by (auto simp: set_state_def tx_inv_def)
  then show ?thesis using WAITING assms(2) by (simp add: process_packet_rx_def)
next
  case RUNNING
  then show ?thesis using dispatch_tx_inv [OF assms RUNNING] assms(2)
    by (auto simp: process_packet_rx_def split: sum.split prod.splits option.splits) (metis fst_conv)+
qed (use assms(2) in \<open>simp_all add: process_packet_rx_def\<close>)

lemma rx_turn_tx_inv:
  assumes "xdr_library X" "tx_inv X c"
  shows "tx_inv X (fst (rx_turn X p got c))"
proof -
  have "tx_inv X (c\<lparr>received := r, rx := None\<rparr>)" for r using assms(2) by simp
  from process_rx_tx_inv [OF assms(1) this] show ?thesis using assms(2)
    by (simp add: rx_turn_def Let_def)
qed

section \<open>The stream callback\<close>

lemma rx_loop_tx_inv:
  "xdr_library X \<Longrightarrow> tx_inv X c \<Longrightarrow> tx_inv X (snd (snd (rx_loop X E ins c)))"
proof (induction X E ins c rule: rx_loop.induct)
  case (1 X E ins c)
  show ?case
  proof (cases "rx c = None \<or> ins = []")
    case True
    then show ?thesis using "1.prems" by (subst rx_loop.simps) (auto split: option.split)
  next
    case False
    then obtain p i ins' where p: "rx c = Some p" and i: "ins = i # ins'" by (cases ins) auto
    show ?thesis
    proof (cases i)
      case In_error
      then show ?thesis using "1.prems" p i by (subst rx_loop.simps) (simp add: tx_inv_close)
    next
      case (In_bytes bs)
      let ?got = "take (stream_want p) bs"
      obtain d o' where turn: "rx_turn X p ?got c = (d, o')" by (cases "rx_turn X p ?got c")
      have d: "tx_inv X d" using rx_turn_tx_inv [OF "1.prems", of p ?got] turn by simp
      show ?thesis using "1.prems" p i In_bytes turn d "1.IH" [OF p i In_bytes refl]
        by (subst rx_loop.simps) (cases o'; auto simp: tx_inv_close Let_def)
    qed
  qed
qed

lemma handshake_rest [simp]:
  "pkt_rest build_handshake_wait = [HANDSHAKE_WAIT]" "pkt_rest build_handshake_sync = [HANDSHAKE_SYNC]"
  by (simp_all add: build_handshake_wait_def build_handshake_sync_def rpcpacket_new_def pkt_rest_def
      gsize_simps buf_read_def)

lemma handshake_sel [simp]:
  "bufferOffset build_handshake_wait = 0" "bufferLength build_handshake_wait = 1"
  "bufferOffset build_handshake_sync = 0" "bufferLength build_handshake_sync = 1"
  "buf_read (buffer build_handshake_sync) 0 (Suc 0) = [HANDSHAKE_SYNC]"
  by (simp_all add: build_handshake_wait_def build_handshake_sync_def rpcpacket_new_def buf_read_def)

lemma take_one: "take n [x] = (if n = 0 then [] else [x])"
  by (cases n) simp_all

lemma stream_write_tx_inv:
  assumes "tx_inv X c" "st c \<noteq> INACTIVE"
  shows "tx_inv X (snd (stream_write X E ret c))"
proof (cases "tx c = None \<or> ret = Write_error")
  case True
  then show ?thesis using assms by (cases "tx c") (auto simp: stream_write_def tx_inv_close)
next
  case False
  then obtain p n where p: "tx c = Some p" and ret: "ret = Wrote n" by (cases ret) auto
  define sent where "sent = take n (pkt_rest p)"
  define p' where "p' = p\<lparr>bufferOffset := bufferOffset p + length sent\<rparr>"
  define c' where "c' = c\<lparr>toGuest := toGuest c @ sent\<rparr>"
  have eq: "stream_write X E ret c = (if bufferOffset p' = bufferLength p'
      then (case process_packet_tx X E p' (c'\<lparr>tx := None\<rparr>) of
          (c, Some e) \<Rightarrow> (Flow_cleanup, close E True c) | (c, None) \<Rightarrow> (Flow_done, c))
      else (Flow_done, c'\<lparr>tx := Some p'\<rparr>))"
    by (simp add: stream_write_def p ret sent_def [symmetric] p'_def c'_def Let_def)
  show ?thesis
  proof (cases "st c")
    case INACTIVE
    then show ?thesis using assms(2) by simp
  next
    case WAITING
    then obtain k where k: "toGuest c = replicate k HANDSHAKE_WAIT" "p = build_handshake_wait"
      "serial c = 0" "stdinRead c = []" using assms(1) p by (auto simp: tx_inv_def)
    have "replicate k HANDSHAKE_WAIT @ [HANDSHAKE_WAIT] = replicate (Suc k) HANDSHAKE_WAIT"
      by (simp add: replicate_append_same)
    then show ?thesis using WAITING k unfolding eq
      by (cases "n = 0") (auto simp: sent_def p'_def c'_def tx_inv_def process_packet_tx_def simp del: replicate.simps)
  next
    case SYNCING
    then obtain k where k: "toGuest c = replicate k HANDSHAKE_WAIT" "p = build_handshake_sync"
      "serial c = 0" "stdinRead c = []" using assms(1) p by (auto simp: tx_inv_def)
    have "replicate k HANDSHAKE_WAIT @ [HANDSHAKE_SYNC] = host_stream X k []" by (simp add: host_stream_def wires_def)
    then show ?thesis using SYNCING k handshake_distinct unfolding eq
      by (cases "n = 0") (auto simp: sent_def p'_def c'_def tx_inv_def process_packet_tx_def set_state_def
          tx_pending_def tx_packet_ok_def take_one intro!: exI [of _ k] exI [of _ "[]"])
  next
    case RUNNING
    then obtain k ms where k: "toGuest c @ pkt_rest p = host_stream X k ms" "input_only ms"
      "data_of PROC_STDIN ms = stdinRead c" "serial c = length ms mod 2 ^ 64" "packet_ok p"
      using assms(1) p by (auto simp: tx_inv_def tx_pending_def tx_packet_ok_def)
    note sent = packet_sent [OF k(5) exI [of _ n], of sent, unfolded p'_def [symmetric], OF sent_def]
    have inv: "tx_inv X (c'\<lparr>tx := t\<rparr>)" if "tx_pending t = pkt_rest p'" "tx_packet_ok t" for t
    proof -
      have "(toGuest c @ sent) @ tx_pending t = host_stream X k ms" using sent(2) k(1) that by simp
      then show ?thesis using RUNNING k(2-4) that(2) unfolding tx_inv_def
        by (simp add: c'_def) (intro exI [of _ k] exI [of _ ms] conjI; simp)
    qed
    show ?thesis
    proof (cases "bufferOffset p' = bufferLength p'")
      case True
      then have "tx_inv X (c'\<lparr>tx := None\<rparr>)" using sent(3) by (intro inv) (simp_all add: tx_pending_def tx_packet_ok_def)
      then show ?thesis using True RUNNING unfolding eq by (simp add: process_packet_tx_def c'_def)
    next
      case False
      then show ?thesis using inv [of "Some p'"] sent(1) unfolding eq
        by (simp add: tx_pending_def tx_packet_ok_def)
    qed
  next
    case STOPPING
    then show ?thesis using assms p by (simp add: tx_inv_def)
  next
    case FINISHED
    then obtain k ms s a q where k: "toGuest c = a @ q" "prefix a (host_stream X k ms)" "input_only ms"
      "prefix (data_of PROC_STDIN ms) (stdinRead c)" "q @ pkt_rest p = wire X (host_header PROC_QUIT s) []"
      "packet_ok p" "exited c"
      using assms(1) p by (auto simp: tx_inv_def tx_pending_def tx_packet_ok_def)
    note sent = packet_sent [OF k(6) exI [of _ n], of sent, unfolded p'_def [symmetric], OF sent_def]
    have inv: "tx_inv X (c'\<lparr>tx := t\<rparr>)" if "tx_pending t = pkt_rest p'" "tx_packet_ok t" for t
    proof -
      have "(q @ sent) @ tx_pending t = wire X (host_header PROC_QUIT s) []"
        using sent(2) k(5) that by simp
      moreover have "exited (c'\<lparr>tx := t\<rparr>)" using k(7) by (simp add: c'_def exited_def)
      ultimately show ?thesis using FINISHED k(1-4) that(2) unfolding tx_inv_def
        by (simp add: c'_def) (intro exI [of _ k] exI [of _ ms] conjI exI [of _ s] exI [of _ a] exI [of _ "q @ sent"]; simp)
    qed
    show ?thesis
    proof (cases "bufferOffset p' = bufferLength p'")
      case True
      then have "tx_inv X (c'\<lparr>tx := None\<rparr>)" using sent(3) by (intro inv) (simp_all add: tx_pending_def tx_packet_ok_def)
      then show ?thesis using True FINISHED unfolding eq
        by (simp add: process_packet_tx_def c'_def tx_inv_close)
    next
      case False
      then show ?thesis using inv [of "Some p'"] sent(1) unfolding eq
        by (simp add: tx_pending_def tx_packet_ok_def)
    qed
  qed
qed

section \<open>The sources\<close>

text \<open>
  At most one source reads stdin; between two callbacks it is there only while a packet can be queued.
  A detached console has no watch on the stream.
\<close>

definition line_ok :: "rpc_console \<Rightarrow> bool" where
  "line_ok c \<longleftrightarrow> (st c \<noteq> INACTIVE \<longrightarrow> stdinSources c \<le> of_bool (localStdinSource c)) \<and>
     (consoleWatch c \<or> streamWatch c = None)"

definition line_idle :: "rpc_console \<Rightarrow> bool" where
  "line_idle c \<longleftrightarrow> line_ok c \<and> (st c \<noteq> INACTIVE \<longrightarrow> stdinSources c \<le> of_bool (need_stdin c)) \<and>
     (st c = INACTIVE \<longrightarrow> streamWatch c = None)"

lemma line_ok_frame [simp]:
  "line_ok (c\<lparr>rx := a1\<rparr>) = line_ok c" "line_ok (c\<lparr>tx := a1\<rparr>) = line_ok c"
  "line_ok (c\<lparr>localStdin := a2\<rparr>) = line_ok c" "line_ok (c\<lparr>termiosActive := a2\<rparr>) = line_ok c"
  "line_ok (c\<lparr>localToStdout := a3\<rparr>) = line_ok c" "line_ok (c\<lparr>localToStdoutLength := a4\<rparr>) = line_ok c"
  "line_ok (c\<lparr>localToStdoutOffset := a4\<rparr>) = line_ok c" "line_ok (c\<lparr>localToStderr := a3\<rparr>) = line_ok c"
  "line_ok (c\<lparr>localToStderrLength := a4\<rparr>) = line_ok c" "line_ok (c\<lparr>localToStderrOffset := a4\<rparr>) = line_ok c"
  "line_ok (c\<lparr>localStdoutSource := a2\<rparr>) = line_ok c" "line_ok (c\<lparr>localStderrSource := a2\<rparr>) = line_ok c"
  "line_ok (c\<lparr>stdoutSources := a4\<rparr>) = line_ok c" "line_ok (c\<lparr>stderrSources := a4\<rparr>) = line_ok c"
  "line_ok (c\<lparr>waitTimers := a4\<rparr>) = line_ok c" "line_ok (c\<lparr>fromGuest := a6\<rparr>) = line_ok c"
  "line_ok (c\<lparr>received := a7\<rparr>) = line_ok c" "line_ok (c\<lparr>toGuest := a7\<rparr>) = line_ok c"
  "line_ok (c\<lparr>outWritten := a7\<rparr>) = line_ok c" "line_ok (c\<lparr>errWritten := a7\<rparr>) = line_ok c"
  "line_ok (c\<lparr>stdinRead := a7\<rparr>) = line_ok c" "line_ok (c\<lparr>signals := a8\<rparr>) = line_ok c"
  "line_ok (c\<lparr>localEOF := a2\<rparr>) = line_ok c"
  by (simp_all add: line_ok_def)

lemma line_idle_frame [simp]:
  "line_idle (c\<lparr>rx := a1\<rparr>) = line_idle c" "line_idle (c\<lparr>localStdin := a2\<rparr>) = line_idle c"
  "line_idle (c\<lparr>termiosActive := a2\<rparr>) = line_idle c" "line_idle (c\<lparr>localToStdout := a3\<rparr>) = line_idle c"
  "line_idle (c\<lparr>localToStdoutLength := a4\<rparr>) = line_idle c" "line_idle (c\<lparr>localToStdoutOffset := a4\<rparr>) = line_idle c"
  "line_idle (c\<lparr>localToStderr := a3\<rparr>) = line_idle c" "line_idle (c\<lparr>localToStderrLength := a4\<rparr>) = line_idle c"
  "line_idle (c\<lparr>localToStderrOffset := a4\<rparr>) = line_idle c" "line_idle (c\<lparr>localStdoutSource := a2\<rparr>) = line_idle c"
  "line_idle (c\<lparr>localStderrSource := a2\<rparr>) = line_idle c" "line_idle (c\<lparr>stdoutSources := a4\<rparr>) = line_idle c"
  "line_idle (c\<lparr>stderrSources := a4\<rparr>) = line_idle c" "line_idle (c\<lparr>waitTimers := a4\<rparr>) = line_idle c"
  "line_idle (c\<lparr>fromGuest := a6\<rparr>) = line_idle c" "line_idle (c\<lparr>received := a7\<rparr>) = line_idle c"
  "line_idle (c\<lparr>toGuest := a7\<rparr>) = line_idle c" "line_idle (c\<lparr>outWritten := a7\<rparr>) = line_idle c"
  "line_idle (c\<lparr>errWritten := a7\<rparr>) = line_idle c" "line_idle (c\<lparr>stdinRead := a7\<rparr>) = line_idle c"
  "line_idle (c\<lparr>signals := a8\<rparr>) = line_idle c"
  by (simp_all add: line_idle_def line_ok_def need_stdin_def)

lemma line_idle_ok: "line_idle c \<Longrightarrow> line_ok c"
  by (simp add: line_idle_def)

lemma line_idle_update: "line_ok c \<Longrightarrow> line_idle (update_events c)"
  unfolding update_events_eq line_idle_def line_ok_def
  by (cases "st c = INACTIVE") (auto simp: need_stdin_def stream_cond_def of_bool_def split: if_splits)

lemma line_idle_close: "line_idle c \<Longrightarrow> line_idle (close E e c)"
  by (auto simp: close_def detach_def stop_term_def line_idle_def line_ok_def need_stdin_def Let_def
      split: if_splits)

lemma line_ok_close: "line_ok c \<Longrightarrow> line_ok (close E e c)"
  by (auto simp: close_def detach_def stop_term_def line_ok_def Let_def split: if_splits)

lemma line_closed:
  assumes "term_ok E c" "line_ok c" "st c \<noteq> INACTIVE"
  shows "line_idle (close E e c)"
proof -
  have "st (close E e c) = INACTIVE" "consoleWatch c \<or> streamWatch c = None"
    using detach_ok(2) [OF assms(1,3)] assms(2) by (auto simp: close_def Let_def line_ok_def)
  then show ?thesis using assms
    by (auto simp: line_idle_def line_ok_def close_def Let_def detach_def stop_term_def term_ok_def
        split: if_splits)
qed

lemma line_ok_set_state [simp]:
  "s \<noteq> INACTIVE \<Longrightarrow> st c \<noteq> INACTIVE \<Longrightarrow> line_ok (fst (set_state X s c)) = line_ok c"
  by (cases "st c = s"; cases s)
    (auto simp: set_state_def line_ok_def Let_def build_quit_def split: sum.split)

section \<open>The callbacks\<close>

lemma finish_line:
  assumes "xdr_library X" "tx_inv X d" "line_ok d"
  shows "tx_inv X (case (if st d = STOPPING \<and> b then set_state X FINISHED d else (d, None)) of
      (c, Some e) \<Rightarrow> close E True c | (c, None) \<Rightarrow> update_events (c\<lparr>localStdoutSource := False\<rparr>))"
    and "line_idle (case (if st d = STOPPING \<and> b then set_state X FINISHED d else (d, None)) of
      (c, Some e) \<Rightarrow> close E True c | (c, None) \<Rightarrow> update_events (c\<lparr>localStdoutSource := False\<rparr>))"
    and "tx_inv X (case (if st d = STOPPING \<and> b then set_state X FINISHED d else (d, None)) of
      (c, Some e) \<Rightarrow> close E True c | (c, None) \<Rightarrow> update_events (c\<lparr>localStderrSource := False\<rparr>))"
    and "line_idle (case (if st d = STOPPING \<and> b then set_state X FINISHED d else (d, None)) of
      (c, Some e) \<Rightarrow> close E True c | (c, None) \<Rightarrow> update_events (c\<lparr>localStderrSource := False\<rparr>))"
proof -
  obtain c where c: "(if st d = STOPPING \<and> b then set_state X FINISHED d else (d, None)) = (c, None)"
    "tx_inv X c" "line_ok c"
  proof (cases "st d = STOPPING \<and> b")
    case True
    then have "exited d" using assms(2) by (simp add: tx_inv_def)
    with True tx_inv_finish [OF assms(1,2)] assms(3) show thesis
      by (intro that [of "fst (set_state X FINISHED d)"]) (auto simp: prod_eq_iff)
  next
    case False
    with assms that show thesis by auto
  qed
  show "tx_inv X (case (if st d = STOPPING \<and> b then set_state X FINISHED d else (d, None)) of
      (c, Some e) \<Rightarrow> close E True c | (c, None) \<Rightarrow> update_events (c\<lparr>localStdoutSource := False\<rparr>))"
    "tx_inv X (case (if st d = STOPPING \<and> b then set_state X FINISHED d else (d, None)) of
      (c, Some e) \<Rightarrow> close E True c | (c, None) \<Rightarrow> update_events (c\<lparr>localStderrSource := False\<rparr>))"
    "line_idle (case (if st d = STOPPING \<and> b then set_state X FINISHED d else (d, None)) of
      (c, Some e) \<Rightarrow> close E True c | (c, None) \<Rightarrow> update_events (c\<lparr>localStdoutSource := False\<rparr>))"
    "line_idle (case (if st d = STOPPING \<and> b then set_state X FINISHED d else (d, None)) of
      (c, Some e) \<Rightarrow> close E True c | (c, None) \<Rightarrow> update_events (c\<lparr>localStderrSource := False\<rparr>))"
    unfolding c(1) by (simp_all add: c line_idle_update)
qed

lemma stdout_write_line:
  assumes "xdr_library X" "tx_inv X c" "line_idle c"
  shows "tx_inv X (stdout_write X E ret c) \<and> line_idle (stdout_write X E ret c)"
proof (cases ret)
  case Write_error
  then show ?thesis using assms by (simp add: stdout_write_def Let_def tx_inv_close line_idle_close)
next
  case (Wrote n)
  have ok: "line_ok c" using assms(3) by (rule line_idle_ok)
  show ?thesis unfolding stdout_write_def Wrote
    by (simp only: write_result.case Let_def tx_inv_frame line_idle_frame)
      (intro conjI; split if_split; intro conjI impI;
        (rule finish_line line_idle_update)?; use assms ok in \<open>simp add: line_idle_update\<close>)
qed

lemma stderr_write_line:
  assumes "xdr_library X" "tx_inv X c" "line_idle c"
  shows "tx_inv X (stderr_write X E ret c) \<and> line_idle (stderr_write X E ret c)"
proof (cases ret)
  case Write_error
  then show ?thesis using assms by (simp add: stderr_write_def Let_def tx_inv_close line_idle_close)
next
  case (Wrote n)
  have ok: "line_ok c" using assms(3) by (rule line_idle_ok)
  show ?thesis unfolding stderr_write_def Wrote
    by (simp only: write_result.case Let_def tx_inv_frame line_idle_frame)
      (intro conjI; split if_split; intro conjI impI;
        (rule finish_line line_idle_update)?; use assms ok in \<open>simp add: line_idle_update\<close>)
qed

lemma handshake_wait_line:
  assumes "tx_inv X c" "line_idle c"
  shows "tx_inv X (handshake_wait_tx_queue c) \<and> line_idle (handshake_wait_tx_queue c)"
proof -
  have "tx_inv X (c\<lparr>waitTimers := n, tx := Some build_handshake_wait\<rparr>)" if "st c = WAITING" for n
    using assms(1) that by (simp add: tx_inv_def)
  then show ?thesis using assms line_idle_ok [OF assms(2)]
    by (simp add: handshake_wait_tx_queue_def Let_def line_idle_update)
qed

text \<open>What receiving leaves alone.\<close>

lemma set_state_line_fields [simp]:
  "stdinSources (fst (set_state X s c)) = stdinSources c"
  "localStdinSource (fst (set_state X s c)) = localStdinSource c"
  "consoleWatch (fst (set_state X s c)) = consoleWatch c"
  "streamWatch (fst (set_state X s c)) = streamWatch c"
  by (cases "st c = s"; cases s; auto simp: set_state_def Let_def build_quit_def split: sum.split)+

lemma queue_line_fields [simp]:
  "stdinSources (queue_stdout d c) = stdinSources c" "stdinSources (queue_stderr d c) = stdinSources c"
  "localStdinSource (queue_stdout d c) = localStdinSource c" "localStdinSource (queue_stderr d c) = localStdinSource c"
  "consoleWatch (queue_stdout d c) = consoleWatch c" "consoleWatch (queue_stderr d c) = consoleWatch c"
  "streamWatch (queue_stdout d c) = streamWatch c" "streamWatch (queue_stderr d c) = streamWatch c"
  by (cases "localToStdout c"; cases "localToStderr c"; simp add: queue_stdout_def queue_stderr_def Let_def)+

lemma dispatch_line_fields [simp]:
  "stdinSources (fst (dispatch_proc X p c)) = stdinSources c"
  "localStdinSource (fst (dispatch_proc X p c)) = localStdinSource c"
  "consoleWatch (fst (dispatch_proc X p c)) = consoleWatch c"
  "streamWatch (fst (dispatch_proc X p c)) = streamWatch c"
  by (auto simp: dispatch_proc_def Let_def split: sum.split)

lemma process_rx_line_fields [simp]:
  "stdinSources (fst (process_packet_rx X p c)) = stdinSources c"
  "localStdinSource (fst (process_packet_rx X p c)) = localStdinSource c"
  "consoleWatch (fst (process_packet_rx X p c)) = consoleWatch c"
  "streamWatch (fst (process_packet_rx X p c)) = streamWatch c"
  using dispatch_line_fields [of X p c]
  by (cases "st c"; cases "dispatch_proc X p c";
      auto simp: process_packet_rx_def split: sum.split option.split)+

lemma rx_turn_line:
  assumes "st c \<noteq> INACTIVE"
  shows "line_ok (fst (rx_turn X p got c)) = line_ok c"
  using rx_turn_st [OF assms, of X p got] assms by (simp add: line_ok_def rx_turn_def Let_def)

definition line_after :: "term_env \<Rightarrow> flow \<Rightarrow> rpc_console \<Rightarrow> bool" where
  "line_after E flow c \<longleftrightarrow> line_ok c \<and> (if flow = Flow_cleanup then line_idle c
     else term_ok E c \<and> st c \<noteq> INACTIVE)"

lemma closed_after: "term_ok E c \<Longrightarrow> line_ok c \<Longrightarrow> st c \<noteq> INACTIVE \<Longrightarrow> line_after E Flow_cleanup (close E e c)"
  by (simp add: line_after_def line_closed line_ok_close)

lemma rx_loop_line:
  "line_ok c \<Longrightarrow> term_ok E c \<Longrightarrow> st c \<noteq> INACTIVE \<Longrightarrow>
    line_after E (fst (rx_loop X E ins c)) (snd (snd (rx_loop X E ins c)))"
proof (induction X E ins c rule: rx_loop.induct)
  case (1 X E ins c)
  show ?case
  proof (cases "rx c = None \<or> ins = []")
    case True
    then show ?thesis using "1.prems" by (subst (1 2) rx_loop.simps) (auto simp: line_after_def split: option.split)
  next
    case False
    then obtain p i ins' where p: "rx c = Some p" and i: "ins = i # ins'" by (cases ins) auto
    show ?thesis
    proof (cases i)
      case In_error
      then show ?thesis using "1.prems" p i by (subst (1 2) rx_loop.simps) (simp add: closed_after)
    next
      case (In_bytes bs)
      let ?got = "take (stream_want p) bs"
      obtain d o' where turn: "rx_turn X p ?got c = (d, o')" by (cases "rx_turn X p ?got c")
      have d: "line_ok d" "term_ok E d" "st d \<noteq> INACTIVE"
        using rx_turn_line [OF "1.prems"(3), of X p ?got] rx_turn_st [OF "1.prems"(3), of X p ?got]
          rx_turn_fields [of X p ?got c] "1.prems" turn by (simp_all add: term_ok_def)
      show ?thesis using "1.prems" p i In_bytes turn d "1.IH" [OF p i In_bytes refl]
        by (subst (1 2) rx_loop.simps) (cases o'; auto simp: closed_after Let_def line_after_def [of _ Flow_done])
    qed
  qed
qed

lemma stream_write_line:
  assumes "line_ok c" "term_ok E c" "st c \<noteq> INACTIVE"
  shows "line_after E (fst (stream_write X E ret c)) (snd (stream_write X E ret c)) \<or>
    line_idle (snd (stream_write X E ret c))"
proof (cases "tx c = None \<or> ret = Write_error")
  case True
  then show ?thesis using assms closed_after [OF assms(2,1,3)]
    by (cases "tx c") (auto simp: stream_write_def line_after_def)
next
  case False
  then obtain p n where p: "tx c = Some p" and ret: "ret = Wrote n" by (cases ret) auto
  have ok: "line_ok (c\<lparr>toGuest := g, tx := t\<rparr>)" "term_ok E (c\<lparr>toGuest := g, tx := t\<rparr>)" for g t
    using assms by (simp_all add: term_ok_def)
  have run: "fst (set_state X RUNNING d) = d\<lparr>st := RUNNING, rx := Some (rpcpacket_new True)\<rparr> \<and>
      snd (set_state X RUNNING d) = None" if "st d = SYNCING" for d
    using that by (simp add: set_state_def)
  show ?thesis using assms ok line_closed [OF ok(2,1)]
    by (cases "st c") (auto simp: stream_write_def p ret Let_def process_packet_tx_def line_after_def
        set_state_def term_ok_def line_ok_def split: option.split)
qed

lemma stream_readwrite_line:
  assumes "xdr_library X" "tx_inv X c" "line_idle c" "term_ok E c" "streamWatch c \<noteq> None"
  shows "tx_inv X (stream_readwrite X E r w ret c) \<and> line_idle (stream_readwrite X E r w ret c)"
proof -
  have act: "st c \<noteq> INACTIVE" using assms(3,5) by (auto simp: line_idle_def)
  note ok = line_idle_ok [OF assms(3)]
  obtain flow ins d where loop: "rx_loop X E (fromGuest c) c = (flow, ins, d)"
    by (cases "rx_loop X E (fromGuest c) c") auto
  define flow1 e where "flow1 = (if r then flow else Flow_write)"
    and "e = (if r then d\<lparr>fromGuest := ins\<rparr> else c)"
  have d: "tx_inv X d" "line_after E flow d"
    using rx_loop_tx_inv [OF assms(1,2), of E "fromGuest c"] rx_loop_line [OF ok assms(4) act, of X "fromGuest c"] loop
    by simp_all
  have e: "tx_inv X e" "line_after E flow1 e"
    using d assms(2,4) ok act by (auto simp: e_def flow1_def line_after_def term_ok_def)
  define flow2 f where "flow2 = (if flow1 = Flow_write then (if w then fst (stream_write X E ret e) else Flow_done) else flow1)"
    and "f = (if flow1 = Flow_write \<and> w then snd (stream_write X E ret e) else e)"
  have f: "tx_inv X f \<and> line_ok f \<and> (flow2 = Flow_done \<or> line_idle f)"
  proof (cases "flow1 = Flow_write \<and> w")
    case True
    then have act': "st e \<noteq> INACTIVE" "line_ok e" "term_ok E e" using e(2) by (auto simp: line_after_def)
    have flows: "fst (stream_write X E ret e) \<in> {Flow_done, Flow_cleanup}"
      by (auto simp: stream_write_def Let_def split: option.split write_result.split prod.split)
    show ?thesis using True stream_write_tx_inv [OF e(1) act'(1)] stream_write_line [OF act'(2,3,1), of X ret] flows
      by (auto simp: f_def flow2_def line_after_def line_idle_ok)
  next
    case False
    then show ?thesis using e by (cases flow1) (auto simp: f_def flow2_def line_after_def)
  qed
  have "stream_readwrite X E r w ret c =
     (if flow2 = Flow_done then update_events (f\<lparr>consoleWatch := False, streamWatch := None\<rparr>)
      else f\<lparr>streamWatch := None\<rparr>)"
    by (cases r; cases w)
      (simp_all add: stream_readwrite_def loop flow1_def e_def flow2_def f_def case_prod_beta)
  moreover have "line_ok (f\<lparr>consoleWatch := False, streamWatch := None\<rparr>)" using f by (simp add: line_ok_def)
  moreover have "line_idle f \<Longrightarrow> line_idle (f\<lparr>streamWatch := None\<rparr>)" by (simp add: line_idle_def line_ok_def need_stdin_def)
  ultimately show ?thesis using f line_idle_update by auto
qed

text \<open>Reading the local stdin: another message, unless the console has been closed.\<close>

lemma input_only_snoc:
  "input_only ms \<Longrightarrow> length d \<le> PAYLOAD_MAX \<Longrightarrow> input_only (ms @ [(host_header PROC_STDIN (length ms), d)])"
  by (simp add: input_only_def)

lemma host_stream_snoc: "host_stream X n (ms @ [(h, d)]) = host_stream X n ms @ wire X h d"
  by (simp add: host_stream_def)

lemma host_header_mod: "host_header p (n mod 2 ^ 64) = host_header p n"
proof -
  have "(of_nat (n mod 2 ^ 64) :: u32) = of_nat n"
    by (simp add: word_of_nat_eq_iff take_bit_eq_mod mod_mod_cancel)
  then show ?thesis by (simp add: host_header_def)
qed

lemma tx_inv_stdin:
  assumes "xdr_library X" "tx_inv X c" "st c = RUNNING" "tx c = None" "length d \<le> PAYLOAD_MAX"
    and "st c' = RUNNING" "tx c' = Some (wire_packet X (host_header PROC_STDIN (serial c)) d)"
    "toGuest c' = toGuest c" "stdinRead c' = stdinRead c @ d" "serial c' = (serial c + 1) mod 2 ^ 64"
  shows "tx_inv X c'"
proof -
  obtain n ms where r: "toGuest c = host_stream X n ms" "input_only ms"
    "data_of PROC_STDIN ms = stdinRead c" "serial c = length ms mod 2 ^ 64"
    using assms(2,3,4) by (auto simp: tx_inv_def tx_pending_def)
  let ?ms = "ms @ [(host_header PROC_STDIN (length ms), d)]"
  have "toGuest c' @ tx_pending (tx c') = host_stream X n ?ms"
    using r(1) assms(1,5) r(4) host_header_mod
    by (simp add: assms(7,8) tx_pending_def tx_rest_wire host_stream_snoc del: mod_mod_trivial)
  moreover have "data_of PROC_STDIN ?ms = stdinRead c'" using r(3) by (simp add: assms(9) host_header_def)
  moreover have "serial c' = length ?ms mod 2 ^ 64" by (simp add: assms(10) r(4) mod_Suc_eq)
  moreover have "tx_packet_ok (tx c')" using assms(5) by (simp add: assms(7) tx_packet_ok_def packet_ok_wire)
  ultimately show ?thesis using input_only_snoc [OF r(2) assms(5)] assms(6)
    unfolding tx_inv_def
    by (simp only: rpc_state.case) (intro conjI exI [of _ n] exI [of _ ?ms]; (rule refl TrueI | assumption))
qed

lemma stdin_gone:
  assumes "0 < stdinSources c" "\<not> localStdinSource c"
  shows "(update_events c)\<lparr>stdinSources := stdinSources (update_events c) - 1\<rparr> =
    update_events (c\<lparr>stdinSources := stdinSources c - 1\<rparr>)"
proof -
  have [simp]: "need_stdin (c\<lparr>stdinSources := n\<rparr>) = need_stdin c" "need_stdout (c\<lparr>stdinSources := n\<rparr>) = need_stdout c"
    "need_stderr (c\<lparr>stdinSources := n\<rparr>) = need_stderr c" "stream_cond (c\<lparr>stdinSources := n\<rparr>) = stream_cond c" for n
    by (simp_all add: need_stdin_def need_stdout_def need_stderr_def stream_cond_def)
  show ?thesis using assms unfolding update_events_eq
    by (intro rpc_console.equality) simp_all
qed

lemma stdin_close_line:
  assumes "tx_hist X c" "term_ok E c" "line_ok c"
  shows "tx_inv X (update_events (close E e c)) \<and> line_idle (update_events (close E e c))"
proof -
  have "st (close E e c) = INACTIVE"
  proof (cases "st c = INACTIVE")
    case True then show ?thesis by (simp add: close_def Let_def detach_def)
  next
    case False then show ?thesis using detach_ok(2) [OF assms(2)] by (simp add: close_def Let_def)
  qed
  moreover have "tx_hist X (close E e c)"
    by (rule tx_hist_mono [OF assms(1)]) (auto simp: close_def detach_def stop_term_def Let_def exited_def)
  ultimately have "tx_inv X (close E e c)" by (simp add: tx_inv_def)
  then show ?thesis using line_ok_close [OF assms(3)] by (simp add: line_idle_update)
qed

lemma line_idle_num: "line_idle c \<Longrightarrow> line_idle (c\<lparr>stdinSources := stdinSources c - 1\<rparr>)"
  by (auto simp: line_idle_def line_ok_def need_stdin_def)

lemma stdin_read_line:
  assumes "xdr_library X" "tx_inv X c" "line_idle c" "term_ok E c" "0 < stdinSources c"
  shows "tx_inv X (stdin_read X E ret c) \<and> line_idle (stdin_read X E ret c)"
proof (cases ret)
  case Read_error
  then show ?thesis
    using stdin_close_line [OF tx_inv_hist [OF assms(2)] assms(4) line_idle_ok [OF assms(3)], of True]
    by (simp add: stdin_read_def Let_def line_idle_num [simplified])
next
  case (Read_bytes bs)
  define buf where "buf = take MAX_IO bs"
  have small: "length buf \<le> PAYLOAD_MAX" by (simp add: buf_def MAX_IO_def packet_sizes)
  let ?c = "c\<lparr>stdinRead := stdinRead c @ buf\<rparr>"
  have hist: "tx_hist X ?c"
    by (rule tx_hist_mono [OF tx_inv_hist [OF assms(2)]]) (simp_all add: exited_def)
  show ?thesis
  proof (cases "buf \<noteq> [] \<and> allowEscape c \<and> hd buf = CONTROL (escape c)")
    case True
    then show ?thesis
      using stdin_close_line [OF hist _ _, of E False] assms(4) line_idle_ok [OF assms(3)]
      by (simp add: stdin_read_def Read_bytes Let_def buf_def [symmetric] line_idle_num [simplified] term_ok_def)
  next
    case False
    let ?d = "?c\<lparr>localEOF := localEOF c \<or> buf = []\<rparr>"
    let ?p = "wire_packet X (host_header PROC_STDIN (serial c)) buf"
    let ?e = "(next_serial ?d)\<lparr>tx := Some ?p, localStdinSource := False\<rparr>"
    have eq: "stdin_read X E ret c = update_events (?e\<lparr>stdinSources := stdinSources ?e - 1\<rparr>)"
    proof -
      note built = xdr_library.build_stdin_eq [OF assms(1)]
      have "stdin_read X E ret c = (let c = update_events ?e in c\<lparr>stdinSources := stdinSources c - 1\<rparr>)"
      proof (cases "buf = []")
        case True
        then show ?thesis
          by (simp add: stdin_read_def Read_bytes buf_def [symmetric] Let_def built)
      next
        case False
        then have "(allowEscape c \<and> hd buf = CONTROL (escape c)) = False"
          using \<open>\<not> (buf \<noteq> [] \<and> allowEscape c \<and> hd buf = CONTROL (escape c))\<close> by blast
        with False show ?thesis
          by (simp add: stdin_read_def Read_bytes buf_def [symmetric] Let_def built [OF small]) blast
      qed
      also have "\<dots> = update_events (?e\<lparr>stdinSources := stdinSources ?e - 1\<rparr>)"
        unfolding Let_def by (rule stdin_gone) (use assms(5) in simp_all)
      finally show ?thesis .
    qed
    have "tx_inv X ?e"
    proof (cases "st c = INACTIVE")
      case True
      have "tx_hist X ?e" by (rule tx_hist_mono [OF hist]) (simp_all add: exited_def next_serial_def)
      with True show ?thesis by (simp add: tx_inv_def)
    next
      case False
      then have "st c = RUNNING" "tx c = None"
        using assms(3,5) by (auto simp: line_idle_def need_stdin_def of_bool_def split: if_splits)
      then show ?thesis by (intro tx_inv_stdin [OF assms(1,2) _ _ small]) simp_all
    qed
    moreover have "line_ok (?e\<lparr>stdinSources := stdinSources ?e - 1\<rparr>)"
      using assms(3) by (auto simp: line_idle_def line_ok_def of_bool_def split: if_splits)
    ultimately show ?thesis unfolding eq by (simp add: line_idle_update)
  qed
qed

section \<open>Every reachable state\<close>

lemma step_line:
  assumes "xdr_library X" "console_step X E c d" "host_inv X E c" "tx_inv X c" "line_idle c"
  shows "tx_inv X d \<and> line_idle d"
  using assms(2)
proof (cases rule: console_step.cases)
  case (arrive i)
  then show ?thesis using assms by simp
next
  case (stream r0 w0 r w ret)
  then show ?thesis using stream_readwrite_line assms by (simp add: host_inv_def)
next
  case (stdin rd)
  then show ?thesis using stdin_read_line assms by (simp add: host_inv_def)
next
  case (stdout ret)
  then show ?thesis using stdout_write_line assms by simp
next
  case (stderr ret)
  then show ?thesis using stderr_write_line assms by simp
next
  case timer
  then show ?thesis using handshake_wait_line assms by simp
next
  case detach
  have "line_idle (fst (Console_Rpc.detach E c))"
    using line_idle_close [OF assms(5), of E False] by (simp add: close_def Let_def)
  then show ?thesis using detach tx_inv_detach assms by simp
qed

lemma attached_line: "attached X E c \<Longrightarrow> xdr_library X \<Longrightarrow> tx_inv X c \<and> line_idle c"
proof (induction rule: attached.induct)
  case (start has_stdin esc c)
  let ?c0 = "if has_stdin then (fst (start_term E True (console_new esc)))\<lparr>localStdin := True\<rparr>
      else console_new esc"
  have c: "c = update_events (fst (set_state X WAITING (new_stream ?c0)))"
    by (rule attach_fields [OF start(1)])
  have c0: "st ?c0 = INACTIVE" "serial ?c0 = 0" "stdinSources ?c0 = 0" "streamWatch ?c0 = None"
    by (auto simp: start_term_def console_new_def Let_def)
  then have "tx_inv X (fst (set_state X WAITING (new_stream ?c0)))"
    "line_ok (fst (set_state X WAITING (new_stream ?c0)))"
    by (auto simp: set_state_def new_stream_def tx_inv_def line_ok_def intro: exI [of _ 0])
  then show ?case unfolding c by (simp add: line_idle_update)
next
  case (step c d)
  then show ?case using step_line attached_host_inv by blast
qed

text \<open>
  Until the guest has reported an exit, the host sends its handshake and then, cut into packets and with
  nothing lost, doubled or out of order, what it read from stdin.
\<close>

lemma host_input_in_order:
  assumes "xdr_library X" "attached X E c" "\<not> exited c"
  obtains n ms where "prefix (toGuest c) (host_stream X n ms)" "input_only ms"
    "prefix (data_of PROC_STDIN ms) (stdinRead c)"
proof -
  obtain n ms s p q where "toGuest c = p @ q" "prefix p (host_stream X n ms)" "input_only ms"
    "prefix (data_of PROC_STDIN ms) (stdinRead c)" "q \<noteq> [] \<longrightarrow> exited c"
    using attached_line [OF assms(2,1)] tx_inv_hist unfolding tx_hist_def by blast
  with assms(3) that show thesis by simp
qed

end
