(* ===== verification/Guest_Loop.thy ===== *)
theory Guest_Loop
  imports Frame_Reader
begin

text \<open>
  The guest side of the RPC console: the event loop of libvirt-sandbox-init-common.c, with
  \<open>run_command\<close>, the packet encoders, \<open>read_data\<close> and \<open>write_data\<close>. One iteration of the loop
  builds the poll set from the state, and handles the entries in order; what \<open>poll\<close> and the
  system calls answer is an argument. The record holds the local variables of \<open>eventloop\<close> and,
  after them, what the loop has done to the world: the bytes written to the host and to the
  application, the descriptors closed, the commands started and the number of disk syncs.
\<close>

section \<open>System calls\<close>

datatype sys_errno = EAGAIN | EINTR | EOTHER

datatype sys_read = Sys_bytes "byte list" | Sys_read_error sys_errno
datatype sys_write = Sys_wrote nat | Sys_write_error sys_errno

text \<open>
  \<open>read_data\<close> and \<open>write_data\<close> repeat an interrupted call. They take the answers of the calls in
  order and give back the unused ones; \<open>None\<close> is -1. An exhausted list is an error.
\<close>

fun read_data :: "nat \<Rightarrow> sys_read list \<Rightarrow> byte list option \<times> sys_read list" where
  "read_data len [] = (None, [])"
| "read_data len (Sys_bytes bs # rs) = (Some (take len bs), rs)"
| "read_data len (Sys_read_error EAGAIN # rs) = (Some [], rs)"
| "read_data len (Sys_read_error EINTR # rs) = read_data len rs"
| "read_data len (Sys_read_error EOTHER # rs) = (None, rs)"

fun write_data :: "byte list \<Rightarrow> sys_write list \<Rightarrow> byte list option" where
  "write_data data [] = None"
| "write_data data (Sys_wrote n # ws) = Some (take n data)"
| "write_data data (Sys_write_error EAGAIN # ws) = Some []"
| "write_data data (Sys_write_error EINTR # ws) = write_data data ws"
| "write_data data (Sys_write_error EOTHER # ws) = None"

section \<open>Starting the command\<close>

text \<open>
  What the parent's calls in \<open>run_command\<close> answer: \<open>openpty\<close> (master and slave), \<open>fchown\<close>, each
  of the three \<open>pipe\<close> calls, and \<open>fork\<close>.
\<close>

record spawn_env =
  sp_openpty :: "(int \<times> int) option"
  sp_fchown :: bool
  sp_pipein :: "(int \<times> int) option"
  sp_pipeout :: "(int \<times> int) option"
  sp_pipeerr :: "(int \<times> int) option"
  sp_fork :: "int option"

record guest_config =
  gc_tty :: bool
  gc_user :: string

text \<open>The result: the descriptors closed, and the child with the parent's three ends, or failure.\<close>

record spawn_result =
  sr_closed :: "int list"
  sr_child :: "(int \<times> int \<times> int \<times> int) option"

definition close_if :: "bool \<Rightarrow> int \<Rightarrow> int list" where
  "close_if b fd = (if b then [fd] else [])"

text \<open>
  The error path: the pseudo-tty's ends are closed when they are open; the pipes' ends are closed
  when they are negative, that is, never when they are open.
\<close>

definition spawn_error :: "bool \<Rightarrow> int \<times> int \<Rightarrow> int \<times> int \<Rightarrow> int \<times> int \<Rightarrow> int \<times> int \<Rightarrow> spawn_result" where
  "spawn_error wanttty pty pipein pipeout pipeerr =
     \<lparr>sr_closed =
        (if wanttty
         then close_if (fst pty \<noteq> -1) (fst pty) @ close_if (snd pty \<noteq> -1) (snd pty)
         else close_if (fst pipein < 0) (fst pipein) @ close_if (snd pipein < 0) (snd pipein) @
              close_if (fst pipeout < 0) (fst pipeout) @ close_if (snd pipeout < 0) (snd pipeout) @
              close_if (fst pipeerr < 0) (fst pipeerr) @ close_if (snd pipeerr < 0) (snd pipeerr)),
      sr_child = None\<rparr>"

definition opened :: "(int \<times> int) option \<Rightarrow> int \<times> int" where
  "opened p = (case p of None \<Rightarrow> (-1, -1) | Some fds \<Rightarrow> fds)"

definition run_command :: "guest_config \<Rightarrow> spawn_env \<Rightarrow> spawn_result" where
  "run_command cfg e =
     (let closed = (-1, -1) in
      if gc_tty cfg then
        (case sp_openpty e of
           None \<Rightarrow> spawn_error True closed closed closed closed
         | Some pty \<Rightarrow>
             if gc_user cfg \<noteq> ''root'' \<and> \<not> sp_fchown e
             then spawn_error True pty closed closed closed
             else (case sp_fork e of
                     None \<Rightarrow> spawn_error True pty closed closed closed
                   | Some pid \<Rightarrow> \<lparr>sr_closed = [snd pty],
                                   sr_child = Some (pid, fst pty, fst pty, fst pty)\<rparr>))
      else
        (case sp_pipein e of
           None \<Rightarrow> spawn_error False closed closed closed closed
         | Some pin \<Rightarrow>
        (case sp_pipeout e of
           None \<Rightarrow> spawn_error False closed pin closed closed
         | Some pout \<Rightarrow>
        (case sp_pipeerr e of
           None \<Rightarrow> spawn_error False closed pin pout closed
         | Some perr \<Rightarrow>
             (case sp_fork e of
                None \<Rightarrow> spawn_error False closed pin pout perr
              | Some pid \<Rightarrow> \<lparr>sr_closed = [fst pin, snd pout, snd perr],
                              sr_child = Some (pid, snd pin, fst pout, fst perr)\<rparr>)))))"

section \<open>State\<close>

datatype guest_state = G_WAITING | G_SYNCING | G_RUNNING

record guest =
  g_rx :: "rpc_packet option"
  g_tx :: "rpc_packet option"
  g_quit :: bool
  appOutEOF :: bool
  appErrEOF :: bool
  appQuit :: bool
  exitstatus :: u32
  hostToStdin :: "byte list option"
  hostToStdinLength :: nat
  hostToStdinOffset :: nat
  g_serial :: u32
  child :: int
  appin :: int
  appout :: int
  apperr :: int
  g_state :: guest_state
  hostSent :: "byte list"
  hostRead :: "byte list"
  appSent :: "byte list"
  outRead :: "byte list"
  errRead :: "byte list"
  closedFds :: "int list"
  commands :: nat
  diskSyncs :: nat

section \<open>Encoding packets\<close>

definition encode_stdout :: "xdr_lib \<Rightarrow> byte list \<Rightarrow> u32 \<Rightarrow> rpc_error + rpc_packet" where
  "encode_stdout X data serial =
     (let pkt = (rpcpacket_new False)\<lparr>header :=
            \<lparr>h_proc = PROC_STDOUT, h_type = TYPE_DATA, h_status = STATUS_OK, h_serial = serial\<rparr>\<rparr>
      in case rpcpacket_encode_header X pkt of
           Inl e \<Rightarrow> Inl e
         | Inr pkt \<Rightarrow> rpcpacket_encode_payload_raw X data pkt)"

definition encode_stderr :: "xdr_lib \<Rightarrow> byte list \<Rightarrow> u32 \<Rightarrow> rpc_error + rpc_packet" where
  "encode_stderr X data serial =
     (let pkt = (rpcpacket_new False)\<lparr>header :=
            \<lparr>h_proc = PROC_STDERR, h_type = TYPE_DATA, h_status = STATUS_OK, h_serial = serial\<rparr>\<rparr>
      in case rpcpacket_encode_header X pkt of
           Inl e \<Rightarrow> Inl e
         | Inr pkt \<Rightarrow> rpcpacket_encode_payload_raw X data pkt)"

definition encode_exit :: "xdr_lib \<Rightarrow> u32 \<Rightarrow> u32 \<Rightarrow> rpc_error + rpc_packet" where
  "encode_exit X status serial =
     (let pkt = (rpcpacket_new False)\<lparr>header :=
            \<lparr>h_proc = PROC_EXIT, h_type = TYPE_MESSAGE, h_status = STATUS_OK, h_serial = serial\<rparr>\<rparr>
      in case rpcpacket_encode_header X pkt of
           Inl e \<Rightarrow> Inl e
         | Inr pkt \<Rightarrow> rpcpacket_encode_payload_msg X (xdr_exit X) status pkt)"

text \<open>
  How the handling of an entry is left: on to the next one, or \<open>goto cleanup\<close>. The assignments
  \<open>tx = encode_\<dots>(\<dots>, serial++, NULL)\<close> replace whatever packet was in \<open>tx\<close>; \<open>encode_exit\<close> also
  syncs and unmounts the disks.
\<close>

datatype guest_flow = G_next | G_cleanup

definition set_tx :: "rpc_error + rpc_packet \<Rightarrow> guest \<Rightarrow> guest_flow \<times> guest" where
  "set_tx r g =
     (let g = g\<lparr>g_serial := g_serial g + 1\<rparr> in
      case r of Inl _ \<Rightarrow> (G_cleanup, g\<lparr>g_tx := None\<rparr>) | Inr pkt \<Rightarrow> (G_next, g\<lparr>g_tx := Some pkt\<rparr>))"

definition send_exit :: "xdr_lib \<Rightarrow> guest \<Rightarrow> guest_flow \<times> guest" where
  "send_exit X g =
     set_tx (encode_exit X (exitstatus g) (g_serial g)) (g\<lparr>diskSyncs := diskSyncs g + 1\<rparr>)"

section \<open>The poll set\<close>

text \<open>A \<open>struct pollfd\<close>: the descriptor and the events asked for (POLLIN, POLLOUT).\<close>

type_synonym pollfd = "int \<times> bool \<times> bool"

definition appin_ev :: "guest \<Rightarrow> bool" where
  "appin_ev g \<longleftrightarrow> g_state g = G_RUNNING \<and> hostToStdin g \<noteq> None \<and> appin g \<noteq> -1"

definition host_in_ev :: "guest \<Rightarrow> bool" where
  "host_in_ev g \<longleftrightarrow>
     (case g_state g of
        G_WAITING \<Rightarrow> True
      | G_SYNCING \<Rightarrow> True
      | G_RUNNING \<Rightarrow> \<not> (hostToStdin g \<noteq> None \<and> appin g \<noteq> -1) \<and> g_rx g \<noteq> None)"

definition host_out_ev :: "guest \<Rightarrow> bool" where
  "host_out_ev g \<longleftrightarrow> g_state g \<in> {G_SYNCING, G_RUNNING} \<and> g_tx g \<noteq> None"

definition appout_ev :: "guest \<Rightarrow> bool" where
  "appout_ev g \<longleftrightarrow> g_state g = G_RUNNING \<and> g_tx g = None \<and> \<not> appOutEOF g \<and> appout g \<noteq> -1"

definition apperr_ev :: "guest \<Rightarrow> bool" where
  "apperr_ev g \<longleftrightarrow> g_state g = G_RUNNING \<and> g_tx g = None \<and> appout g \<noteq> apperr g \<and>
     \<not> appErrEOF g \<and> apperr g \<noteq> -1"

definition poll_set :: "int \<Rightarrow> int \<Rightarrow> guest \<Rightarrow> pollfd list" where
  "poll_set sigread host g =
     [(sigread, True, False)] @
     (if appin_ev g then [(appin g, False, True)] else []) @
     (if appout_ev g then [(appout g, True, False)] else []) @
     (if apperr_ev g then [(apperr g, True, False)] else []) @
     (if host_in_ev g \<or> host_out_ev g then [(host, host_in_ev g, host_out_ev g)] else [])"

text \<open>
  What happens for one entry: the bits of \<open>revents\<close> (\<open>re_other\<close>: POLLERR or POLLNVAL), the
  answers of the calls its handler makes, and of \<open>run_command\<close>'s calls if it starts the command.
\<close>

record poll_event =
  re_in :: bool
  re_out :: bool
  re_hup :: bool
  re_other :: bool
  pe_reads :: "sys_read list"
  pe_writes :: "sys_write list"
  pe_sigread :: bool
  pe_waits :: "(int \<times> u32) list"
  pe_spawn :: spawn_env

definition revents :: "poll_event \<Rightarrow> bool" where
  "revents e \<longleftrightarrow> re_in e \<or> re_out e \<or> re_hup e \<or> re_other e"

section \<open>The handlers\<close>

text \<open>The \<open>waitpid\<close> loop: each reaped child overwrites \<open>exitstatus\<close>.\<close>

fun reap :: "xdr_lib \<Rightarrow> (int \<times> u32) list \<Rightarrow> guest \<Rightarrow> guest_flow \<times> guest" where
  "reap X [] g = (G_next, g)"
| "reap X ((rv, status) # ws) g =
     (if rv = -1 \<or> rv = 0 then (G_next, g)
      else
        let g = g\<lparr>exitstatus := status\<rparr> in
        if rv = child g then
          (let g = g\<lparr>appQuit := True\<rparr> in
           if appErrEOF g \<and> appOutEOF g then
             (case send_exit X g of
                (G_cleanup, g) \<Rightarrow> (G_cleanup, g)
              | (G_next, g) \<Rightarrow> reap X ws g)
           else reap X ws g)
        else reap X ws g)"

definition handle_signal :: "xdr_lib \<Rightarrow> poll_event \<Rightarrow> guest \<Rightarrow> guest_flow \<times> guest" where
  "handle_signal X e g =
     (if revents e then
        (if \<not> pe_sigread e then (G_cleanup, g) else reap X (pe_waits e) g)
      else (G_next, g))"

definition one_byte_rx :: "rpc_packet \<Rightarrow> rpc_packet" where
  "one_byte_rx p = p\<lparr>bufferLength := 1, bufferOffset := 0\<rparr>"

definition sync_packet :: rpc_packet where
  "sync_packet =
     (rpcpacket_new False)\<lparr>buffer := [HANDSHAKE_SYNC], bufferLength := 1, bufferOffset := 0\<rparr>"

definition start_command :: "guest_config \<Rightarrow> spawn_env \<Rightarrow> rpc_packet \<Rightarrow> guest \<Rightarrow> guest_flow \<times> guest" where
  "start_command cfg e rx g =
     (let r = run_command cfg e; g = g\<lparr>closedFds := closedFds g @ sr_closed r\<rparr> in
      case sr_child r of
        None \<Rightarrow> (G_cleanup, g\<lparr>appin := -1, appout := -1, apperr := -1\<rparr>)
      | Some (pid, inp, out, err) \<Rightarrow>
          (G_next, g\<lparr>child := pid, appin := inp, appout := out, apperr := err,
                     commands := commands g + 1, g_state := G_RUNNING,
                     g_rx := Some (rx\<lparr>bufferLength := 4, bufferOffset := 0\<rparr>)\<rparr>))"

definition handle_packet :: "xdr_lib \<Rightarrow> rpc_packet \<Rightarrow> guest \<Rightarrow> guest_flow \<times> guest" where
  "handle_packet X rx g =
     (case rpcpacket_decode_header X rx of
        Inl _ \<Rightarrow> (G_cleanup, g)
      | Inr rx \<Rightarrow>
          if h_proc (header rx) = PROC_STDIN then
            (if gsize_minus (bufferLength rx) (bufferOffset rx) \<noteq> 0
             then (G_next, g\<lparr>hostToStdinOffset := 0,
                             hostToStdinLength := gsize_minus (bufferLength rx) (bufferOffset rx),
                             hostToStdin := Some (pkt_rest rx), g_rx := None\<rparr>)
             else (G_next, g\<lparr>closedFds := closedFds g @ [appin g], appin := -1, g_rx := None\<rparr>))
          else if h_proc (header rx) = PROC_QUIT then (G_next, g\<lparr>g_quit := True, g_rx := None\<rparr>)
          else (G_cleanup, g))"

text \<open>
  The POLLIN half of the host's entry, from \<open>readmore\<close> on: each turn takes one \<open>read_data\<close>. The
  turns end because the \<open>readmore\<close> jump is taken only after a read has been used.
\<close>

lemma read_data_shorter: "read_data len rs = (Some bs, rest) \<Longrightarrow> length rest < length rs"
  by (induction len rs rule: read_data.induct) auto

function host_readable ::
  "xdr_lib \<Rightarrow> guest_config \<Rightarrow> spawn_env \<Rightarrow> sys_read list \<Rightarrow> rpc_packet \<Rightarrow> guest \<Rightarrow> guest_flow \<times> guest" where
  "host_readable X cfg e reads rx g =
     (case read_data (stream_want rx) reads of
        (None, _) \<Rightarrow> (G_next, g\<lparr>g_rx := None, g_quit := True\<rparr>)
      | (Some got, rest) \<Rightarrow>
          if got = [] then (G_next, g\<lparr>g_rx := None, g_quit := True\<rparr>)
          else
            let rx = store_received rx got;
                g = g\<lparr>hostRead := hostRead g @ got, g_rx := Some rx\<rparr>
            in if bufferLength rx \<noteq> bufferOffset rx then (G_next, g)
               else
                 (case g_state g of
                    G_WAITING \<Rightarrow>
                      if buf_read (buffer rx) 0 1 \<noteq> [HANDSHAKE_WAIT] then (G_cleanup, g)
                      else (G_next, g\<lparr>g_state := G_SYNCING, g_tx := Some sync_packet,
                                      g_rx := Some (one_byte_rx rx)\<rparr>)
                  | G_SYNCING \<Rightarrow>
                      if buf_read (buffer rx) 0 1 \<noteq> [HANDSHAKE_WAIT] \<and>
                         buf_read (buffer rx) 0 1 \<noteq> [HANDSHAKE_SYNC] then (G_cleanup, g)
                      else if buf_read (buffer rx) 0 1 = [HANDSHAKE_SYNC]
                      then start_command cfg e rx g
                      else (G_next, g\<lparr>g_rx := Some (one_byte_rx rx)\<rparr>)
                  | G_RUNNING \<Rightarrow>
                      if bufferLength rx = LEN_MAX then
                        (case rpcpacket_decode_length X rx of
                           Inl _ \<Rightarrow> (G_cleanup, g)
                         | Inr rx \<Rightarrow> host_readable X cfg e rest rx (g\<lparr>g_rx := Some rx\<rparr>))
                      else handle_packet X rx g))"
  by pat_completeness auto
termination
  by (relation "measure (\<lambda>(X, cfg, e, reads, rx, g). length reads)") (auto dest: read_data_shorter [OF sym])

declare host_readable.simps [simp del]

text \<open>The POLLOUT half of the host's entry.\<close>

definition host_writable :: "sys_write list \<Rightarrow> guest \<Rightarrow> guest" where
  "host_writable writes g =
     (case g_tx g of
        None \<Rightarrow> g
      | Some p \<Rightarrow>
          (case write_data (pkt_rest p) writes of
             None \<Rightarrow> g\<lparr>g_tx := None, g_quit := True\<rparr>
           | Some sent \<Rightarrow>
               let p = p\<lparr>bufferOffset := bufferOffset p + length sent\<rparr>;
                   g = g\<lparr>hostSent := hostSent g @ sent\<rparr>
               in if bufferOffset p = bufferLength p then g\<lparr>g_tx := None\<rparr>
                  else g\<lparr>g_tx := Some p\<rparr>))"

definition handle_host ::
  "xdr_lib \<Rightarrow> guest_config \<Rightarrow> poll_event \<Rightarrow> guest \<Rightarrow> guest_flow \<times> guest" where
  "handle_host X cfg e g =
     (let (flow, g) =
        (if re_in e then
           (case g_rx g of
              None \<Rightarrow> (G_next, g)
            | Some rx \<Rightarrow> host_readable X cfg (pe_spawn e) (pe_reads e) rx g)
         else (G_next, g))
      in if flow = G_cleanup then (G_cleanup, g)
         else
           let g = (if re_out e then host_writable (pe_writes e) g else g)
           in (G_next, if re_hup e \<or> re_other e then g\<lparr>g_quit := True\<rparr> else g))"

text \<open>
  Delivering queued input to the application. When the queue is empty a receive packet is
  allocated again; after a write error it is not.
\<close>

definition stdin_data :: "guest \<Rightarrow> byte list" where
  "stdin_data g =
     (case hostToStdin g of None \<Rightarrow> [] | Some b \<Rightarrow>
        buf_read b (hostToStdinOffset g) (gsize_minus (hostToStdinLength g) (hostToStdinOffset g)))"

definition free_stdin :: "guest \<Rightarrow> guest" where
  "free_stdin g = g\<lparr>hostToStdin := None, hostToStdinLength := 0, hostToStdinOffset := 0\<rparr>"

definition write_stdin :: "sys_write list \<Rightarrow> guest \<Rightarrow> guest" where
  "write_stdin writes g =
     (case write_data (stdin_data g) writes of
        None \<Rightarrow> free_stdin g
      | Some sent \<Rightarrow>
          let g = g\<lparr>appSent := appSent g @ sent,
                    hostToStdinOffset := hostToStdinOffset g + length sent\<rparr>
          in if hostToStdinOffset g = hostToStdinLength g
             then (free_stdin g)\<lparr>g_rx := Some (rpcpacket_new True)\<rparr> else g)"

text \<open>The pseudo-tty: one descriptor for input and output.\<close>

definition tty_readable :: "xdr_lib \<Rightarrow> poll_event \<Rightarrow> guest \<Rightarrow> guest_flow \<times> guest" where
  "tty_readable X e g =
     (if g_tx g \<noteq> None then (G_next, g)
      else
        case fst (read_data 4096 (pe_reads e)) of
          Some (b # bs) \<Rightarrow>
            set_tx (encode_stdout X (b # bs) (g_serial g)) (g\<lparr>outRead := outRead g @ b # bs\<rparr>)
        | _ \<Rightarrow>
            let g = g\<lparr>appOutEOF := True, appErrEOF := True\<rparr> in
            if appQuit g then send_exit X g else (G_next, g))"

definition handle_tty :: "xdr_lib \<Rightarrow> poll_event \<Rightarrow> guest \<Rightarrow> guest_flow \<times> guest" where
  "handle_tty X e g =
     (let (flow, g) = (if re_in e then tty_readable X e g else (G_next, g)) in
      if flow = G_cleanup then (G_cleanup, g)
      else
        let g = (if re_out e \<and> hostToStdin g \<noteq> None then write_stdin (pe_writes e) g else g) in
        if re_hup e \<and> \<not> re_in e \<and> \<not> re_out e then
          (let g = g\<lparr>appOutEOF := True, appErrEOF := True\<rparr> in
           if appQuit g then send_exit X g else (G_next, g))
        else (G_next, g))"

text \<open>The three pipes.\<close>

definition handle_appin :: "poll_event \<Rightarrow> guest \<Rightarrow> guest_flow \<times> guest" where
  "handle_appin e g =
     (G_next, if revents e \<and> hostToStdin g \<noteq> None then write_stdin (pe_writes e) g else g)"

definition handle_appout :: "xdr_lib \<Rightarrow> poll_event \<Rightarrow> guest \<Rightarrow> guest_flow \<times> guest" where
  "handle_appout X e g =
     (if \<not> (revents e \<and> g_tx g = None) then (G_next, g)
      else
        case fst (read_data 4096 (pe_reads e)) of
          Some (b # bs) \<Rightarrow>
            set_tx (encode_stdout X (b # bs) (g_serial g)) (g\<lparr>outRead := outRead g @ b # bs\<rparr>)
        | _ \<Rightarrow>
            let g = g\<lparr>appOutEOF := True\<rparr> in
            if appErrEOF g \<and> appQuit g then send_exit X g else (G_next, g))"

definition handle_apperr :: "xdr_lib \<Rightarrow> poll_event \<Rightarrow> guest \<Rightarrow> guest_flow \<times> guest" where
  "handle_apperr X e g =
     (if \<not> (revents e \<and> g_tx g = None) then (G_next, g)
      else
        case fst (read_data 4096 (pe_reads e)) of
          Some (b # bs) \<Rightarrow>
            set_tx (encode_stderr X (b # bs) (g_serial g)) (g\<lparr>errRead := errRead g @ b # bs\<rparr>)
        | _ \<Rightarrow>
            let g = g\<lparr>appErrEOF := True\<rparr> in
            if appOutEOF g \<and> appQuit g then send_exit X g else (G_next, g))"

text \<open>The chain of tests on \<open>fds[i].fd\<close>.\<close>

definition handle_fd ::
  "xdr_lib \<Rightarrow> guest_config \<Rightarrow> int \<Rightarrow> int \<Rightarrow> int \<Rightarrow> poll_event \<Rightarrow> guest \<Rightarrow> guest_flow \<times> guest" where
  "handle_fd X cfg sigread host fd e g =
     (if fd = sigread then handle_signal X e g
      else if fd = host then handle_host X cfg e g
      else if fd = appin g \<and> fd = appout g then handle_tty X e g
      else if fd = appin g then handle_appin e g
      else if fd = appout g then handle_appout X e g
      else if fd = apperr g then handle_apperr X e g
      else (G_next, g))"

fun handle_fds ::
  "xdr_lib \<Rightarrow> guest_config \<Rightarrow> int \<Rightarrow> int \<Rightarrow> (pollfd \<times> poll_event) list \<Rightarrow> guest \<Rightarrow> guest_flow \<times> guest" where
  "handle_fds X cfg sigread host [] g = (G_next, g)"
| "handle_fds X cfg sigread host (((fd, _), e) # fds) g =
     (case handle_fd X cfg sigread host fd e g of
        (G_cleanup, g) \<Rightarrow> (G_cleanup, g)
      | (G_next, g) \<Rightarrow> handle_fds X cfg sigread host fds g)"

section \<open>The loop\<close>

text \<open>
  \<open>poll\<close> fails with something else than EINTR, or fills the entries in. The loop's own result:
  \<open>ret\<close> when it is left at \<open>cleanup\<close> or by \<open>quit\<close>, and -1 from the poll error, which is not FALSE.
\<close>

datatype poll_result = Poll_error | Poll_ready "poll_event list"
datatype loop_result = Loop_false | Loop_true | Loop_minus_one

definition loop_cleanup :: "guest \<Rightarrow> guest" where
  "loop_cleanup g =
     (let out = (if appin g \<noteq> -1 \<and> appin g = appout g then -1 else appout g);
          err = (if appin g \<noteq> -1 \<and> appin g = apperr g then -1 else apperr g)
      in g\<lparr>closedFds := closedFds g @ close_if (appin g \<noteq> -1) (appin g) @
             close_if (out \<noteq> -1) out @ close_if (err \<noteq> -1) err\<rparr>)"

definition loop_turn ::
  "xdr_lib \<Rightarrow> guest_config \<Rightarrow> int \<Rightarrow> int \<Rightarrow> poll_result \<Rightarrow> guest \<Rightarrow> loop_result option \<times> guest" where
  "loop_turn X cfg sigread host pr g =
     (if g_quit g then (Some Loop_true, loop_cleanup g)
      else
        case pr of
          Poll_error \<Rightarrow> (Some Loop_minus_one, g)
        | Poll_ready es \<Rightarrow>
            (case handle_fds X cfg sigread host (zip (poll_set sigread host g) es) g of
               (G_cleanup, g) \<Rightarrow> (Some Loop_false, loop_cleanup g)
             | (G_next, g) \<Rightarrow> (None, g)))"

definition guest_init :: guest where
  "guest_init =
     \<lparr>g_rx = Some ((rpcpacket_new False)\<lparr>bufferLength := 1\<rparr>), g_tx = None, g_quit = False,
      appOutEOF = False, appErrEOF = False, appQuit = False, exitstatus = 0,
      hostToStdin = None, hostToStdinLength = 0, hostToStdinOffset = 0, g_serial = 0,
      child = 0, appin = -1, appout = -1, apperr = -1, g_state = G_WAITING,
      hostSent = [], hostRead = [], appSent = [], outRead = [], errRead = [], closedFds = [],
      commands = 0, diskSyncs = 0\<rparr>"

text \<open>The loop over the answers of successive polls; \<open>None\<close> while it is still running.\<close>

fun eventloop_from ::
  "xdr_lib \<Rightarrow> guest_config \<Rightarrow> int \<Rightarrow> int \<Rightarrow> poll_result list \<Rightarrow> guest \<Rightarrow> loop_result option \<times> guest" where
  "eventloop_from X cfg sigread host [] g = (None, g)"
| "eventloop_from X cfg sigread host (pr # prs) g =
     (case loop_turn X cfg sigread host pr g of
        (Some r, g) \<Rightarrow> (Some r, g)
      | (None, g) \<Rightarrow> eventloop_from X cfg sigread host prs g)"

definition eventloop ::
  "xdr_lib \<Rightarrow> guest_config \<Rightarrow> int \<Rightarrow> int \<Rightarrow> poll_result list \<Rightarrow> loop_result option \<times> guest" where
  "eventloop X cfg sigread host prs = eventloop_from X cfg sigread host prs guest_init"

text \<open>The states at the top of the loop.\<close>

inductive guest_reach :: "xdr_lib \<Rightarrow> guest_config \<Rightarrow> int \<Rightarrow> int \<Rightarrow> guest \<Rightarrow> bool"
  for X cfg sigread host where
  init: "guest_reach X cfg sigread host guest_init"
| turn: "guest_reach X cfg sigread host g \<Longrightarrow>
     loop_turn X cfg sigread host pr g = (None, g') \<Longrightarrow> guest_reach X cfg sigread host g'"

end
