(* ===== verification/Guest_Rx.thy ===== *)
theory Guest_Rx
  imports Guest_Loop
begin

text \<open>
  What the guest's event loop does with the bytes of the host. The invariant \<open>in_inv\<close> relates
  the loop's variables to the abstract view of the input: handshake bytes, then framed messages,
  then part of a frame. It holds at the top of the loop until \<open>quit\<close> is set; what is left of it
  then is \<open>in_hist\<close>. The properties are those of the handshake and of the application's stdin.
\<close>

section \<open>Runs\<close>

text \<open>
  What the kernel guarantees about descriptors and processes: a started command has a positive
  pid, its ends are new descriptors, for pipes three different ones, and a pid is reaped once.
\<close>

definition spawn_ok :: "guest_config \<Rightarrow> int \<Rightarrow> int \<Rightarrow> spawn_env \<Rightarrow> bool" where
  "spawn_ok cfg sigread host e =
     (case sr_child (run_command cfg e) of
        None \<Rightarrow> True
      | Some (pid, i, out, err) \<Rightarrow>
          0 < pid \<and> 0 \<le> i \<and> 0 \<le> out \<and> 0 \<le> err \<and>
          {i, out, err} \<inter> {sigread, host} = {} \<and> (gc_tty cfg \<or> i \<noteq> out \<and> i \<noteq> err \<and> out \<noteq> err))"

definition waits_ok :: "guest \<Rightarrow> (int \<times> u32) list \<Rightarrow> bool" where
  "waits_ok g ws \<longleftrightarrow>
     length (filter (\<lambda>(pid, _). pid = child g) ws) \<le> (if appQuit g then 0 else 1)"

definition turn_ok :: "guest_config \<Rightarrow> int \<Rightarrow> int \<Rightarrow> guest \<Rightarrow> poll_result \<Rightarrow> bool" where
  "turn_ok cfg sigread host g pr =
     (case pr of
        Poll_error \<Rightarrow> True
      | Poll_ready es \<Rightarrow>
          list_all (\<lambda>e. spawn_ok cfg sigread host (pe_spawn e) \<and> waits_ok g (pe_waits e)) es)"

inductive guest_run :: "xdr_lib \<Rightarrow> guest_config \<Rightarrow> int \<Rightarrow> int \<Rightarrow> guest \<Rightarrow> bool"
  for X cfg sigread host where
  init: "guest_run X cfg sigread host guest_init"
| turn: "guest_run X cfg sigread host g \<Longrightarrow> turn_ok cfg sigread host g pr \<Longrightarrow>
     loop_turn X cfg sigread host pr g = (None, g') \<Longrightarrow> guest_run X cfg sigread host g'"

section \<open>The abstract view\<close>

definition sync_read :: "byte list \<Rightarrow> byte list \<Rightarrow> bool" where
  "sync_read r b \<longleftrightarrow> (\<exists>n. r = replicate (Suc n) HANDSHAKE_WAIT @ HANDSHAKE_SYNC # b)"

lemma sync_read_append: "sync_read r b \<Longrightarrow> sync_read (r @ x) (b @ x)"
  by (auto simp: sync_read_def)

definition stdin_pending :: "guest \<Rightarrow> byte list" where
  "stdin_pending g = (case hostToStdin g of None \<Rightarrow> [] | Some b \<Rightarrow> drop (hostToStdinOffset g) b)"

definition stdin_queue_ok :: "guest \<Rightarrow> bool" where
  "stdin_queue_ok g =
     (case hostToStdin g of
        None \<Rightarrow> hostToStdinLength g = 0 \<and> hostToStdinOffset g = 0
      | Some b \<Rightarrow> hostToStdinLength g = length b \<and> hostToStdinOffset g < length b \<and>
                  length b \<le> BUFFER_SIZE)"

definition read_messages :: "xdr_lib \<Rightarrow> guest \<Rightarrow> message list \<Rightarrow> byte list \<Rightarrow> bool" where
  "read_messages X g ms part \<longleftrightarrow>
     (\<exists>bs. sync_read (hostRead g) (bs @ part) \<and> framed (rpc_frame X) bs ms)"

definition handshake_rx :: "rpc_packet option \<Rightarrow> bool" where
  "handshake_rx r = (case r of None \<Rightarrow> False | Some p \<Rightarrow> bufferLength p = 1 \<and> bufferOffset p = 0)"

definition no_app :: "guest \<Rightarrow> bool" where
  "no_app g \<longleftrightarrow> hostToStdin g = None \<and> hostToStdinLength g = 0 \<and> hostToStdinOffset g = 0 \<and>
     appSent g = [] \<and> commands g = 0 \<and> appin g = -1 \<and> appout g = -1 \<and> apperr g = -1"

definition in_inv :: "xdr_lib \<Rightarrow> guest \<Rightarrow> bool" where
  "in_inv X g = (case g_state g of
       G_WAITING \<Rightarrow> handshake_rx (g_rx g) \<and> hostRead g = [] \<and> no_app g
     | G_SYNCING \<Rightarrow> handshake_rx (g_rx g) \<and> (\<exists>n. hostRead g = replicate (Suc n) HANDSHAKE_WAIT) \<and> no_app g
     | G_RUNNING \<Rightarrow> stdin_queue_ok g \<and> commands g = 1 \<and> (hostToStdin g \<noteq> None \<longrightarrow> g_rx g = None) \<and>
         (\<exists>ms part. read_messages X g ms part \<and> rx_partial X (g_rx g) part \<and>
            prefix (appSent g @ stdin_pending g) (data_of PROC_STDIN ms) \<and>
            (g_rx g \<noteq> None \<or> hostToStdin g \<noteq> None \<longrightarrow>
               appSent g @ stdin_pending g = data_of PROC_STDIN ms)))"

definition in_hist :: "xdr_lib \<Rightarrow> guest \<Rightarrow> bool" where
  "in_hist X g \<longleftrightarrow>
     (commands g = 0 \<and> appSent g = []) \<or>
     (commands g = 1 \<and>
      (\<exists>ms part. read_messages X g ms part \<and> prefix (appSent g) (data_of PROC_STDIN ms)))"

definition fds_ok :: "guest_config \<Rightarrow> int \<Rightarrow> int \<Rightarrow> guest \<Rightarrow> bool" where
  "fds_ok cfg sigread host g \<longleftrightarrow>
     (appin g = -1 \<or> 0 \<le> appin g \<and> appin g \<noteq> sigread \<and> appin g \<noteq> host) \<and>
     (appout g = -1 \<or> 0 \<le> appout g \<and> appout g \<noteq> sigread \<and> appout g \<noteq> host) \<and>
     (apperr g = -1 \<or> 0 \<le> apperr g \<and> apperr g \<noteq> sigread \<and> apperr g \<noteq> host) \<and>
     (gc_tty cfg \<or> g_state g \<noteq> G_RUNNING \<or>
      (appin g = -1 \<or> appin g \<noteq> appout g) \<and> (appin g = -1 \<or> appin g \<noteq> apperr g) \<and>
      appout g \<noteq> apperr g)"

lemma in_inv_hist: "in_inv X g \<Longrightarrow> in_hist X g"
proof -
  assume inv: "in_inv X g"
  show "in_hist X g"
  proof (cases "g_state g")
    case G_WAITING
    with inv show ?thesis by (simp add: in_inv_def in_hist_def no_app_def)
  next
    case G_SYNCING
    with inv show ?thesis by (simp add: in_inv_def in_hist_def no_app_def)
  next
    case G_RUNNING
    with inv obtain ms part where "commands g = 1" "read_messages X g ms part"
      "prefix (appSent g @ stdin_pending g) (data_of PROC_STDIN ms)"
      by (simp add: in_inv_def) blast
    then show ?thesis unfolding in_hist_def by (blast dest: append_prefixD)
  qed
qed

text \<open>\<open>in_inv\<close> and \<open>fds_ok\<close> read these fields only.\<close>

definition same_in :: "guest \<Rightarrow> guest \<Rightarrow> bool" where
  "same_in g h \<longleftrightarrow>
     g_state h = g_state g \<and> g_rx h = g_rx g \<and> hostRead h = hostRead g \<and>
     hostToStdin h = hostToStdin g \<and> hostToStdinLength h = hostToStdinLength g \<and>
     hostToStdinOffset h = hostToStdinOffset g \<and> appSent h = appSent g \<and>
     commands h = commands g \<and> appin h = appin g \<and> appout h = appout g \<and> apperr h = apperr g \<and>
     g_quit h = g_quit g"

lemma same_in_refl [simp]: "same_in g g"
  by (simp add: same_in_def)

lemma same_in_trans: "same_in g h \<Longrightarrow> same_in h k \<Longrightarrow> same_in g k"
  by (simp add: same_in_def)

lemma same_in_parts:
  assumes "same_in g h"
  shows "stdin_pending h = stdin_pending g" "stdin_queue_ok h = stdin_queue_ok g"
    "read_messages X h ms part = read_messages X g ms part" "no_app h = no_app g"
    "fds_ok cfg s k h = fds_ok cfg s k g"
  using assms unfolding same_in_def stdin_pending_def stdin_queue_ok_def read_messages_def no_app_def
    fds_ok_def
  by (elim conjE, simp only:)+

lemma same_in_inv:
  assumes "same_in g h" "in_inv X g"
  shows "in_inv X h"
proof -
  have "g_state h = g_state g" "g_rx h = g_rx g" "hostRead h = hostRead g" "commands h = commands g"
    "hostToStdin h = hostToStdin g" "appSent h = appSent g"
    using assms(1) by (simp_all add: same_in_def)
  with assms(2) show ?thesis
    by (simp only: in_inv_def same_in_parts [OF assms(1)])
qed

section \<open>Handlers that leave the input alone\<close>

lemma set_tx_same_in: "set_tx r g = (f, h) \<Longrightarrow> same_in g h"
  by (auto simp: set_tx_def same_in_def Let_def split: sum.splits)

lemma send_exit_same_in: "send_exit X g = (f, h) \<Longrightarrow> same_in g h"
  unfolding send_exit_def by (drule set_tx_same_in) (simp add: same_in_def)

lemma reap_same_in: "reap X ws g = (f, h) \<Longrightarrow> same_in g h"
proof (induction ws arbitrary: g f h)
  case Nil
  then show ?case by simp
next
  case (Cons w ws)
  obtain rv status where w: "w = (rv, status)" by fastforce
  let ?g = "g\<lparr>exitstatus := status\<rparr>"
  let ?q = "?g\<lparr>appQuit := True\<rparr>"
  have upd: "same_in g ?g" "same_in g ?q" by (simp_all add: same_in_def)
  show ?case
  proof (cases "rv \<noteq> -1 \<and> rv \<noteq> 0 \<and> rv = child g \<and> appErrEOF g \<and> appOutEOF g")
    case True
    obtain f1 k where k: "send_exit X ?q = (f1, k)"
      by (metis surj_pair)
    then have sk: "same_in g k"
      using send_exit_same_in same_in_trans upd(2) by blast
    show ?thesis
      using Cons.prems True sk k by (cases f1) (auto simp: w dest!: Cons.IH intro: same_in_trans)
  next
    case False
    then show ?thesis
      using Cons.prems upd
      by (auto simp: w Let_def split: if_splits dest!: Cons.IH intro: same_in_trans)
  qed
qed

lemma handle_signal_same_in: "handle_signal X e g = (f, h) \<Longrightarrow> same_in g h"
  by (auto simp: handle_signal_def split: if_splits dest: reap_same_in)

lemma handle_appout_same_in: "handle_appout X e g = (f, h) \<Longrightarrow> same_in g h"
  unfolding handle_appout_def
  by (auto simp: Let_def same_in_def split: if_splits option.splits list.splits
      dest!: set_tx_same_in send_exit_same_in)

lemma handle_apperr_same_in: "handle_apperr X e g = (f, h) \<Longrightarrow> same_in g h"
  unfolding handle_apperr_def
  by (auto simp: Let_def same_in_def split: if_splits option.splits list.splits
      dest!: set_tx_same_in send_exit_same_in)

lemma tty_readable_same_in: "tty_readable X e g = (f, h) \<Longrightarrow> same_in g h"
  unfolding tty_readable_def
  by (auto simp: Let_def same_in_def split: if_splits option.splits list.splits
      dest!: set_tx_same_in send_exit_same_in)

section \<open>Reading from the host\<close>

text \<open>What a step must establish: the invariant, unless it leaves the loop.\<close>

definition in_post :: "xdr_lib \<Rightarrow> guest_flow \<times> guest \<Rightarrow> bool" where
  "in_post X r \<longleftrightarrow>
     in_hist X (snd r) \<and> (fst r = G_next \<and> \<not> g_quit (snd r) \<longrightarrow> in_inv X (snd r))"

lemma in_post_inv: "in_inv X h \<Longrightarrow> in_post X (f, h)"
  by (simp add: in_post_def in_inv_hist)

lemma in_post_hist: "in_hist X h \<Longrightarrow> f = G_cleanup \<or> g_quit h \<Longrightarrow> in_post X (f, h)"
  by (auto simp: in_post_def)

lemma in_hist_rx [simp]: "in_hist X (g\<lparr>g_rx := r\<rparr>) = in_hist X g" "in_hist X (g\<lparr>g_quit := q\<rparr>) = in_hist X g"
  by (simp_all add: in_hist_def read_messages_def)

lemma read_messages_append:
  "read_messages X g ms part \<Longrightarrow> read_messages X (g\<lparr>hostRead := hostRead g @ got\<rparr>) ms (part @ got)"
  unfolding read_messages_def
  by simp (metis append.assoc sync_read_append)

lemma read_messages_frame:
  "read_messages X g ms part \<Longrightarrow> rpc_frame X part m \<Longrightarrow> read_messages X g (ms @ [m]) []"
  unfolding read_messages_def by (auto intro: framed_snoc)

lemma in_histI:
  "commands g = 1 \<Longrightarrow> read_messages X g ms part \<Longrightarrow> prefix (appSent g) (data_of PROC_STDIN ms) \<Longrightarrow>
   in_hist X g"
  by (auto simp: in_hist_def)

lemma read_messages_fields [simp]:
  "read_messages X (g\<lparr>g_rx := r\<rparr>) = read_messages X g"
  "read_messages X (g\<lparr>g_quit := q\<rparr>) = read_messages X g"
  "read_messages X (g\<lparr>closedFds := c\<rparr>) = read_messages X g"
  "read_messages X (g\<lparr>appin := i\<rparr>) = read_messages X g"
  "read_messages X (g\<lparr>hostToStdin := b\<rparr>) = read_messages X g"
  "read_messages X (g\<lparr>hostToStdinLength := n\<rparr>) = read_messages X g"
  "read_messages X (g\<lparr>hostToStdinOffset := n\<rparr>) = read_messages X g"
  "read_messages X (g\<lparr>appSent := a\<rparr>) = read_messages X g"
  by (simp_all add: read_messages_def fun_eq_iff)

text \<open>A complete packet.\<close>

lemma handle_packet_post:
  assumes "xdr_library X" "packet_ok rx" "4 \<le> bufferLength rx"
    "20 \<le> bufferLength rx \<Longrightarrow> rpc_frame X part
      (xval (xdr_header X) (buf_read (buffer rx) 4 16), buf_read (buffer rx) 20 (bufferLength rx - 20))"
    "g_state g = G_RUNNING" "commands g = 1" "hostToStdin g = None"
    "hostToStdinLength g = 0" "hostToStdinOffset g = 0"
    "read_messages X g ms part" "appSent g = data_of PROC_STDIN ms"
  shows "in_post X (handle_packet X rx g)"
proof (cases "20 \<le> bufferLength rx")
  case False
  have size: "bufferLength rx \<le> BUFFER_SIZE" using assms(2) by (simp add: packet_ok_def)
  have "handle_packet X rx g = (G_cleanup, g)"
    using False size by (simp add: handle_packet_def xdr_library.decode_header_eq [OF assms(1,3)])
  moreover have "in_hist X g"
    using assms(6,10,11) by (auto intro: in_histI)
  ultimately show ?thesis by (simp add: in_post_hist)
next
  case True
  let ?n = "bufferLength rx"
  define hdr where "hdr = xval (xdr_header X) (buf_read (buffer rx) 4 16)"
  define q where "q = rx\<lparr>bufferOffset := 20, header := hdr\<rparr>"
  let ?m = "(hdr, buf_read (buffer rx) 20 (?n - 20))"
  have size: "?n \<le> BUFFER_SIZE" using assms(2) by (simp add: packet_ok_def)
  have dec: "rpcpacket_decode_header X rx = Inr q"
    using True size by (simp add: xdr_library.decode_header_eq [OF assms(1,3)] q_def hdr_def)
  have rest: "pkt_rest q = buf_read (buffer rx) 20 (?n - 20)" "gsize_minus ?n 20 = ?n - 20"
    using True size by (simp_all add: pkt_rest_def q_def packet_sizes gsize_simps)
  have sel: "header q = hdr" "bufferLength q = ?n" "bufferOffset q = 20" by (simp_all add: q_def)
  have msgs: "read_messages X g (ms @ [?m]) []"
    using read_messages_frame [OF assms(10)] assms(4) True by (simp add: hdr_def)
  have hist: "in_hist X g"
    using assms(6,10,11) by (auto intro: in_histI)
  show ?thesis
  proof (cases "h_proc hdr = PROC_STDIN")
    case stdin: True
    show ?thesis
    proof (cases "?n = 20")
      case empty: True
      have "in_inv X (g\<lparr>closedFds := closedFds g @ [appin g], appin := -1, g_rx := None\<rparr>)"
        using assms(5-9,11) msgs empty stdin
        by (auto simp: in_inv_def stdin_queue_ok_def stdin_pending_def rx_partial_def)
      with dec rest sel stdin empty show ?thesis
        by (simp add: handle_packet_def in_post_inv)
    next
      case False
      have "in_inv X (g\<lparr>hostToStdinOffset := 0, hostToStdinLength := ?n - 20,
                        hostToStdin := Some (pkt_rest q), g_rx := None\<rparr>)"
        using assms(5-9,11) msgs stdin True False size rest
        by (auto simp: in_inv_def stdin_queue_ok_def stdin_pending_def rx_partial_def)
      with dec rest sel stdin False True show ?thesis
        by (simp add: handle_packet_def in_post_inv)
    qed
  next
    case False
    with dec sel hist show ?thesis
      by (simp add: handle_packet_def in_post_hist)
  qed
qed

text \<open>One read in each state of the handshake.\<close>

lemma read_data_bounded: "read_data len rs = (Some bs, rest) \<Longrightarrow> length bs \<le> len"
  by (induction len rs rule: read_data.induct) auto

lemma store_handshake_byte:
  assumes "handshake_rx (Some p)" "got \<noteq> []" "length got \<le> stream_want p"
  obtains b where "got = [b]" "buf_read (buffer (store_received p got)) 0 1 = [b]"
    "bufferOffset p + length got = bufferLength p"
proof -
  have p: "bufferLength p = 1" "bufferOffset p = 0" using assms(1) by (simp_all add: handshake_rx_def)
  then have "length got = 1" using assms(2,3) by (cases got) (auto simp: stream_want_def gsize_simps)
  then obtain b where b: "got = [b]" by (auto simp: length_Suc_conv)
  moreover have "buf_read (buffer (store_received p got)) 0 1 = [b]"
    using buf_read_store [of p 0 got] p b by simp
  ultimately show thesis using that p by simp
qed

lemma start_command_post:
  assumes "xdr_library X" "no_app g" "\<exists>n. hostRead g = replicate (Suc n) HANDSHAKE_WAIT @ [HANDSHAKE_SYNC]"
  shows "in_post X (start_command cfg e rx g)"
proof (cases "sr_child (run_command cfg e)")
  case None
  then show ?thesis
    using assms(2) by (simp add: start_command_def Let_def in_post_def in_hist_def no_app_def)
next
  case (Some c)
  obtain pid i out err where c: "c = (pid, i, out, err)" by (metis prod_cases4)
  have "sync_read (hostRead g) []" using assms(3) by (auto simp: sync_read_def)
  then have "in_inv X (snd (start_command cfg e rx g))"
    using assms(2) Some c
    by (auto simp: start_command_def Let_def in_inv_def no_app_def stdin_queue_ok_def
        stdin_pending_def read_messages_def rx_partial_def packet_ok_def packet_sizes
        intro!: exI [of _ "[]"])
  with Some c show ?thesis by (simp add: start_command_def Let_def in_post_inv)
qed

lemma host_readable_post:
  assumes "xdr_library X" "in_inv X g" "g_rx g = Some rx"
  shows "in_post X (host_readable X cfg e reads rx g)"
  using assms
proof (induction X cfg e reads rx g rule: host_readable.induct)
  case (1 X cfg e reads rx g)
  note IH = "1.IH" and X = "1.prems"(1) and inv = "1.prems"(2) and rx = "1.prems"(3)
  obtain r rest where rd: "read_data (stream_want rx) reads = (r, rest)" by fastforce
  show ?case
  proof (cases "r = None \<or> r = Some []")
    case True
    with rd inv show ?thesis
      by (subst host_readable.simps) (auto simp: in_post_hist in_inv_hist)
  next
    case False
    then obtain got where r: "r = Some got" "got \<noteq> []" by auto
    then have le: "length got \<le> stream_want rx" using rd read_data_bounded by simp
    let ?p = "store_received rx got"
    let ?g = "g\<lparr>hostRead := hostRead g @ got, g_rx := Some ?p\<rparr>"
    show ?thesis
    proof (cases "g_state g")
      case G_WAITING
      with inv rx have hs: "handshake_rx (Some rx)" "hostRead g = []" "no_app g"
        by (simp_all add: in_inv_def)
      obtain b where b: "got = [b]" "buf_read (buffer ?p) 0 1 = [b]"
        "bufferOffset rx + length got = bufferLength rx"
        using store_handshake_byte [OF hs(1) r(2) le] by blast
      show ?thesis
        using rd r b G_WAITING hs
        by (subst host_readable.simps)
          (auto simp: Let_def in_post_def in_hist_def no_app_def in_inv_def handshake_rx_def
            one_byte_rx_def intro: exI [of _ 0])
    next
      case G_SYNCING
      with inv rx have hs: "handshake_rx (Some rx)" "no_app g"
        and ex: "\<exists>n. hostRead g = replicate (Suc n) HANDSHAKE_WAIT"
        by (simp_all add: in_inv_def)
      obtain b where b: "got = [b]" "buf_read (buffer ?p) 0 1 = [b]"
        "bufferOffset rx + length got = bufferLength rx"
        using store_handshake_byte [OF hs(1) r(2) le] by blast
      obtain n where n: "hostRead g = replicate (Suc n) HANDSHAKE_WAIT" using ex by blast
      have wait: "hostRead g @ [HANDSHAKE_WAIT] = replicate (Suc (Suc n)) HANDSHAKE_WAIT"
        by (simp add: n replicate_append_same)
      consider "b = HANDSHAKE_SYNC" | "b = HANDSHAKE_WAIT"
        | "b \<noteq> HANDSHAKE_SYNC \<and> b \<noteq> HANDSHAKE_WAIT" by blast
      then show ?thesis
      proof cases
        case 1
        have "in_post X (start_command cfg e ?p ?g)"
          using start_command_post [OF X, of ?g] hs(2) b(1) n 1
          by (simp add: no_app_def)
        with rd r b G_SYNCING 1 show ?thesis by (subst host_readable.simps) (simp add: Let_def)
      next
        case 2
        have "in_inv X (?g\<lparr>g_rx := Some (one_byte_rx ?p)\<rparr>)"
          using G_SYNCING hs wait b(1) 2
          by (simp add: in_inv_def handshake_rx_def one_byte_rx_def no_app_def del: replicate_Suc)
        with rd r b G_SYNCING 2 show ?thesis
          by (subst host_readable.simps) (simp add: in_post_inv)
      next
        case 3
        then show ?thesis
          using rd r b G_SYNCING hs
          by (subst host_readable.simps)
            (auto simp: Let_def in_post_def in_hist_def no_app_def)
      qed
    next
      case G_RUNNING
      with inv rx obtain ms part where run: "stdin_queue_ok g" "commands g = 1" "hostToStdin g = None"
        "read_messages X g ms part" "rx_partial X (Some rx) part"
        "appSent g = data_of PROC_STDIN ms"
        by (auto simp: in_inv_def stdin_pending_def)
      then have q0: "hostToStdinLength g = 0" "hostToStdinOffset g = 0"
        by (simp_all add: stdin_queue_ok_def)
      have msgs: "read_messages X ?g ms (part @ got)"
        using read_messages_append [OF run(4), of got] by simp
      have hist: "in_hist X ?g"
        using msgs run(2,6) by (auto intro: in_histI)
      have ok: "packet_ok rx" "4 \<le> bufferLength rx"
        using run(5) by (auto simp: rx_partial_def)
      note want = rx_partial_want [OF run(5) r(2) le]
      consider "bufferOffset ?p \<noteq> bufferLength rx"
        | "bufferOffset ?p = bufferLength rx" "bufferLength rx = 4"
        | "bufferOffset ?p = bufferLength rx" "bufferLength rx \<noteq> 4" by blast
      then show ?thesis
      proof cases
        case 1
        with want have lt: "bufferOffset rx + length got < bufferLength rx" by simp
        have "in_inv X ?g"
          using G_RUNNING run(1,2,3,6) msgs rx_partial_store [OF run(5) lt]
          by (auto simp: in_inv_def stdin_queue_ok_def stdin_pending_def)
        with rd r lt show ?thesis by (subst host_readable.simps) (simp add: in_post_inv)
      next
        case 2
        show ?thesis
        proof (cases "rpcpacket_decode_length X ?p")
          case (Inl err)
          with rd r 2 G_RUNNING hist show ?thesis
            by (subst host_readable.simps) (simp add: in_post_hist LEN_MAX_def)
        next
          case (Inr p')
          let ?g' = "?g\<lparr>g_rx := Some p'\<rparr>"
          have "rx_partial X (Some p') (part @ got)"
            using rx_partial_length [OF X run(5) _ _ r(2) Inr] 2 by simp
          then have "in_inv X ?g'"
            using G_RUNNING run(1,2,3,6) msgs
            by (auto simp: in_inv_def stdin_queue_ok_def stdin_pending_def)
          moreover have "host_readable X cfg e reads rx g = host_readable X cfg e rest p' ?g'"
            using rd r 2 G_RUNNING Inr
            by (subst host_readable.simps) (simp add: LEN_MAX_def)
          ultimately show ?thesis
            using IH [of "Some got" rest got ?p ?g p'] X rd r 2 G_RUNNING Inr
            by (simp add: LEN_MAX_def)
        qed
      next
        case 3
        have eq: "host_readable X cfg e reads rx g = handle_packet X ?p ?g"
          using rd r 3 G_RUNNING by (subst host_readable.simps) (simp add: LEN_MAX_def Let_def)
        have "packet_ok ?p" using ok(1) 3 by (simp add: packet_ok_def)
        then have "in_post X (handle_packet X ?p ?g)"
          using handle_packet_post [OF X, of ?p "part @ got" ?g ms] ok 3 run G_RUNNING q0 msgs
            rx_partial_frame [OF run(5), of got] by simp
        then show ?thesis by (simp add: eq)
      qed
    qed
  qed
qed

section \<open>Delivering to the application\<close>

text \<open>What every handler but the host's leaves alone.\<close>

definition same_fds :: "guest \<Rightarrow> guest \<Rightarrow> bool" where
  "same_fds g h \<longleftrightarrow> g_state h = g_state g \<and> g_quit h = g_quit g \<and> commands h = commands g \<and>
     hostRead h = hostRead g \<and> appin h = appin g \<and> appout h = appout g \<and> apperr h = apperr g"

lemma same_fds_refl [simp]: "same_fds g g"
  by (simp add: same_fds_def)

lemma same_fds_trans: "same_fds g h \<Longrightarrow> same_fds h k \<Longrightarrow> same_fds g k"
  by (simp add: same_fds_def)

lemma same_in_fds: "same_in g h \<Longrightarrow> same_fds g h"
  by (simp add: same_in_def same_fds_def)

lemma same_fds_ok: "same_fds g h \<Longrightarrow> fds_ok cfg s k g \<Longrightarrow> fds_ok cfg s k h"
  by (simp add: same_fds_def fds_ok_def)

lemma write_stdin_fds: "same_fds g (write_stdin ws g)"
  by (simp add: write_stdin_def free_stdin_def same_fds_def Let_def split: option.splits)

lemma write_data_take: "write_data d ws = Some sent \<Longrightarrow> \<exists>n. sent = take n d"
  by (induction d ws rule: write_data.induct) (auto intro: exI [of _ 0])

lemma write_stdin_inv:
  assumes "in_inv X g" "hostToStdin g \<noteq> None"
  shows "in_inv X (write_stdin ws g)"
proof -
  from assms(2) obtain b where b: "hostToStdin g = Some b" by blast
  have st: "g_state g = G_RUNNING"
    using assms by (auto simp: in_inv_def no_app_def split: guest_state.splits)
  from assms b st obtain ms part where inv: "stdin_queue_ok g" "commands g = 1" "g_rx g = None"
    "read_messages X g ms part" "part = []"
    "appSent g @ drop (hostToStdinOffset g) b = data_of PROC_STDIN ms"
    by (auto simp: in_inv_def stdin_pending_def rx_partial_def)
  let ?o = "hostToStdinOffset g"
  have q: "hostToStdinLength g = length b" "?o < length b" "length b \<le> BUFFER_SIZE"
    using inv(1) b by (simp_all add: stdin_queue_ok_def)
  have pre: "prefix (appSent g) (data_of PROC_STDIN ms)"
    using inv(6) by (metis prefixI)
  have data: "stdin_data g = drop ?o b"
    using b q by (simp add: stdin_data_def packet_sizes gsize_simps buf_read_inside)
  show ?thesis
  proof (cases "write_data (stdin_data g) ws")
    case None
    then show ?thesis
      using st inv b pre
      by (auto simp: write_stdin_def free_stdin_def in_inv_def stdin_queue_ok_def stdin_pending_def
          rx_partial_def)
  next
    case (Some sent)
    then obtain n where n: "sent = take n (drop ?o b)" using write_data_take data by metis
    define k where "k = length sent"
    have k: "sent = take k (drop ?o b)" "?o + k \<le> length b"
      using n q(2) by (auto simp: k_def) (metis append_eq_conv_conj append_take_drop_id length_drop length_take)
    have split: "appSent g @ sent @ drop (?o + k) b = data_of PROC_STDIN ms"
      using inv(6) k(1) by (metis append_take_drop_id drop_drop add.commute)
    show ?thesis
    proof (cases "?o + k = length b")
      case True
      with Some st inv b q split show ?thesis
        by (auto simp: write_stdin_def free_stdin_def in_inv_def stdin_queue_ok_def stdin_pending_def
            Let_def simp flip: k_def intro!: exI [of _ ms])
    next
      case False
      with Some st inv b q k(2) split show ?thesis
        by (auto simp: write_stdin_def in_inv_def stdin_queue_ok_def stdin_pending_def Let_def
            rx_partial_def simp flip: k_def intro!: exI [of _ ms])
    qed
  qed
qed

lemma handle_tty_inv:
  assumes "in_inv X g" "handle_tty X e g = (f, h)"
  shows "in_inv X h \<and> same_fds g h"
proof -
  obtain f1 g1 where 1: "(if re_in e then tty_readable X e g else (G_next, g)) = (f1, g1)"
    by fastforce
  then have s1: "same_in g g1" by (auto split: if_splits dest: tty_readable_same_in)
  then have i1: "in_inv X g1" using assms(1) same_in_inv by blast
  define g2 where "g2 = (if re_out e \<and> hostToStdin g1 \<noteq> None then write_stdin (pe_writes e) g1 else g1)"
  have 2: "in_inv X g2" "same_fds g1 g2"
    using i1 by (auto simp: g2_def write_stdin_inv write_stdin_fds)
  let ?g3 = "g2\<lparr>appOutEOF := True, appErrEOF := True\<rparr>"
  have s3: "same_in g2 ?g3" by (simp add: same_in_def)
  have exit: "same_in g2 k" if "send_exit X ?g3 = (f', k)" for f' k
    using s3 send_exit_same_in [OF that] by (rule same_in_trans)
  have cases: "h = g1 \<or> h = g2 \<or> h = ?g3 \<or> (\<exists>f'. send_exit X ?g3 = (f', h))"
  proof (cases "f1 = G_cleanup")
    case True
    with assms(2) 1 show ?thesis by (simp add: handle_tty_def)
  next
    case False
    then have "handle_tty X e g =
        (if re_hup e \<and> \<not> re_in e \<and> \<not> re_out e
         then (if appQuit ?g3 then send_exit X ?g3 else (G_next, ?g3)) else (G_next, g2))"
      using 1 by (simp add: handle_tty_def Let_def g2_def)
    with assms(2) show ?thesis by (auto split: if_splits)
  qed
  have 12: "same_fds g g1" "same_fds g g2"
    using same_in_fds [OF s1] 2(2) same_fds_trans by blast+
  from cases s3 exit have "h = g1 \<or> same_in g2 h" by auto
  then show ?thesis
  proof
    assume "h = g1"
    with i1 12 show ?thesis by simp
  next
    assume s: "same_in g2 h"
    then show ?thesis
      using same_in_inv [OF s 2(1)] same_fds_trans [OF 12(2) same_in_fds [OF s]] by simp
  qed
qed

lemma handle_fd_inv:
  assumes "in_inv X g" "fd \<noteq> host" "handle_fd X cfg sigread host fd e g = (f, h)"
  shows "in_inv X h \<and> same_fds g h"
proof -
  have same: "in_inv X h \<and> same_fds g h" if "same_in g h"
    using that assms(1) same_in_inv same_in_fds by blast
  have appin: "in_inv X k \<and> same_fds g k" if "handle_appin e g = (f', k)" for f' k
    using that assms(1)
    by (auto simp: handle_appin_def write_stdin_inv write_stdin_fds split: if_splits)
  consider "handle_signal X e g = (f, h)" | "handle_tty X e g = (f, h)" | "handle_appin e g = (f, h)"
    | "handle_appout X e g = (f, h)" | "handle_apperr X e g = (f, h)" | "h = g"
    using assms(2,3) unfolding handle_fd_def by (auto split: if_splits)
  then show ?thesis
  proof cases
    case 1 then show ?thesis by (rule same [OF handle_signal_same_in])
  next
    case 2 then show ?thesis by (rule handle_tty_inv [OF assms(1)])
  next
    case 3 then show ?thesis by (rule appin)
  next
    case 4 then show ?thesis by (rule same [OF handle_appout_same_in])
  next
    case 5 then show ?thesis by (rule same [OF handle_apperr_same_in])
  next
    case 6 then show ?thesis using assms(1) by simp
  qed
qed

lemma handle_fds_inv:
  assumes "\<forall>x \<in> set fds. fst (fst x) \<noteq> host" "in_inv X g"
    "handle_fds X cfg sigread host fds g = (f, h)"
  shows "in_inv X h \<and> same_fds g h"
  using assms
proof (induction fds arbitrary: g)
  case Nil
  then show ?case by simp
next
  case (Cons x fds)
  obtain fd ev e where x: "x = ((fd, ev), e)" by (metis prod.exhaust)
  obtain f1 k where k: "handle_fd X cfg sigread host fd e g = (f1, k)" by fastforce
  have ik: "in_inv X k" "same_fds g k"
    using handle_fd_inv [OF Cons.prems(2) _ k] Cons.prems(1) x by auto
  show ?case
  proof (cases f1)
    case G_cleanup
    with Cons.prems(3) x k ik show ?thesis by simp
  next
    case G_next
    with Cons.prems(3) x k have "handle_fds X cfg sigread host fds k = (f, h)" by simp
    with Cons.IH [OF _ ik(1)] Cons.prems(1) have "in_inv X h" "same_fds k h" by simp_all
    with same_fds_trans [OF ik(2)] show ?thesis by simp
  qed
qed

lemma handle_fds_append:
  "handle_fds X cfg sigread host (xs @ ys) g =
     (case handle_fds X cfg sigread host xs g of
        (G_cleanup, h) \<Rightarrow> (G_cleanup, h)
      | (G_next, h) \<Rightarrow> handle_fds X cfg sigread host ys h)"
  by (induction xs arbitrary: g) (auto split: prod.splits guest_flow.splits)

text \<open>The host's entry comes last.\<close>

lemma same_in_post:
  assumes "in_post X (f, g)" "same_in g h"
  shows "in_post X (f, h)"
proof -
  have "in_hist X h = in_hist X g" "g_quit h = g_quit g"
    using assms(2) same_in_parts(3) [OF assms(2)] by (simp_all add: in_hist_def same_in_def)
  with assms same_in_inv show ?thesis by (auto simp: in_post_def)
qed

lemma handle_host_post:
  assumes "xdr_library X" "in_inv X g" "handle_host X cfg e g = (f, h)"
  shows "in_post X (f, h)"
proof -
  obtain f1 g1 where 1: "(if re_in e then
           (case g_rx g of
              None \<Rightarrow> (G_next, g)
            | Some rx \<Rightarrow> host_readable X cfg (pe_spawn e) (pe_reads e) rx g)
         else (G_next, g)) = (f1, g1)"
    by fastforce
  have p1: "in_post X (f1, g1)"
    using 1 assms(2) host_readable_post [OF assms(1,2)]
    by (auto simp: in_post_inv split: if_splits option.splits) (metis)
  have tx: "in_post X (f', g'\<lparr>hostSent := s, g_tx := t\<rparr>)" if "in_post X (f', g')" for f' g' t s
    using that by (rule same_in_post) (simp add: same_in_def)
  have quit: "in_post X (f', g') \<Longrightarrow> in_post X (f', g'\<lparr>g_quit := True\<rparr>)" for f' g'
    by (simp add: in_post_def)
  have tx': "in_post X (f', g'\<lparr>g_tx := t, g_quit := True\<rparr>)" if "in_post X (f', g')" for f' g' t
    using quit [OF that] by (rule same_in_post) (simp add: same_in_def)
  have p2: "in_post X (G_next, host_writable (pe_writes e) g1)" if "f1 = G_next"
    using p1 that
    by (auto simp: host_writable_def Let_def intro: tx tx' split: option.splits)
  show ?thesis
    using assms(3) p1 p2 1 quit
    by (cases f1) (auto simp: handle_host_def Let_def split: if_splits)
qed

text \<open>The descriptors.\<close>

lemma fds_ok_fields:
  assumes "fds_ok cfg s k g" "g_state h = g_state g \<or> g_state h \<noteq> G_RUNNING"
    "appin h = appin g" "appout h = appout g" "apperr h = apperr g"
  shows "fds_ok cfg s k h"
  using assms by (auto simp: fds_ok_def)

lemma start_command_fds:
  assumes "spawn_ok cfg s k e" "0 \<le> s" "0 \<le> k" "g_state g \<noteq> G_RUNNING"
  shows "fds_ok cfg s k (snd (start_command cfg e rx g))"
  using assms
  by (auto simp: start_command_def spawn_ok_def fds_ok_def Let_def split: option.splits)

lemma handle_packet_fds: "fds_ok cfg s k g \<Longrightarrow> fds_ok cfg s k (snd (handle_packet X rx g))"
  by (auto simp: handle_packet_def fds_ok_def split: sum.splits)

lemma host_readable_fds:
  assumes "fds_ok cfg s k g" "spawn_ok cfg s k e" "0 \<le> s" "0 \<le> k"
  shows "fds_ok cfg s k (snd (host_readable X cfg e reads rx g))"
  using assms
proof (induction X cfg e reads rx g rule: host_readable.induct)
  case (1 X cfg e reads rx g)
  obtain r rest where rd: "read_data (stream_want rx) reads = (r, rest)" by fastforce
  have upd: "fds_ok cfg s k (g\<lparr>hostRead := a, g_rx := b\<rparr>)" "fds_ok cfg s k (g\<lparr>g_rx := b, g_quit := q\<rparr>)"
    "fds_ok cfg s k (g\<lparr>hostRead := a, g_state := G_SYNCING, g_tx := t, g_rx := b\<rparr>)" for a b q t
    using "1.prems"(1) by (rule fds_ok_fields; simp)+
  show ?case
  proof (cases r)
    case None
    with rd upd show ?thesis by (subst host_readable.simps) simp
  next
    case (Some got)
    let ?p = "store_received rx got"
    let ?g = "g\<lparr>hostRead := hostRead g @ got, g_rx := Some ?p\<rparr>"
    have IH: "fds_ok cfg s k (snd (host_readable X cfg e rest p (?g\<lparr>g_rx := Some p\<rparr>)))"
      if "got \<noteq> []" "bufferLength ?p = bufferOffset ?p" "g_state g = G_RUNNING"
        "bufferLength ?p = LEN_MAX" "rpcpacket_decode_length X ?p = Inr p" for p
      using "1.IH" [of r rest got ?p ?g p] rd Some that upd(1) "1.prems"(2-4) by simp
    show ?thesis
      using rd Some IH upd "1.prems"(2-4) start_command_fds [of cfg s k e ?g ?p]
        handle_packet_fds [OF upd(1)]
      by (subst host_readable.simps)
        (auto simp: Let_def split: guest_state.splits sum.splits)
  qed
qed

lemma handle_host_fds:
  assumes "fds_ok cfg s k g" "spawn_ok cfg s k (pe_spawn e)" "0 \<le> s" "0 \<le> k"
    "handle_host X cfg e g = (f, h)"
  shows "fds_ok cfg s k h"
proof -
  let ?r = "if re_in e then
           (case g_rx g of
              None \<Rightarrow> (G_next, g)
            | Some rx \<Rightarrow> host_readable X cfg (pe_spawn e) (pe_reads e) rx g)
         else (G_next, g)"
  have 1: "fds_ok cfg s k (snd ?r)"
    using assms(1) host_readable_fds [OF assms(1-4)] by (auto split: option.splits)
  have "g_state h = g_state (snd ?r) \<and> appin h = appin (snd ?r) \<and> appout h = appout (snd ?r) \<and>
      apperr h = apperr (snd ?r)"
    using assms(5) by (cases ?r) (auto simp: handle_host_def host_writable_def Let_def
        split: if_splits option.splits)
  with 1 show ?thesis by (auto intro: fds_ok_fields)
qed

section \<open>A turn of the loop\<close>

definition guest_inv :: "xdr_lib \<Rightarrow> guest_config \<Rightarrow> int \<Rightarrow> int \<Rightarrow> guest \<Rightarrow> bool" where
  "guest_inv X cfg s k g \<longleftrightarrow> in_hist X g \<and> (\<not> g_quit g \<longrightarrow> in_inv X g) \<and> fds_ok cfg s k g"

lemma guest_init_inv: "guest_inv X cfg s k guest_init"
proof -
  have "in_inv X guest_init"
    by (simp add: in_inv_def guest_init_def handshake_rx_def no_app_def rpcpacket_new_def)
  moreover have "fds_ok cfg s k guest_init" by (simp add: fds_ok_def guest_init_def)
  ultimately show ?thesis by (simp add: guest_inv_def in_inv_hist)
qed

text \<open>The poll set without the host's entry.\<close>

definition app_set :: "int \<Rightarrow> guest \<Rightarrow> pollfd list" where
  "app_set sigread g =
     [(sigread, True, False)] @
     (if appin_ev g then [(appin g, False, True)] else []) @
     (if appout_ev g then [(appout g, True, False)] else []) @
     (if apperr_ev g then [(apperr g, True, False)] else [])"

definition host_set :: "int \<Rightarrow> guest \<Rightarrow> pollfd list" where
  "host_set host g = (if host_in_ev g \<or> host_out_ev g then [(host, host_in_ev g, host_out_ev g)] else [])"

lemma poll_set_parts: "poll_set s k g = app_set s g @ host_set k g"
  by (simp add: poll_set_def app_set_def host_set_def)

lemma app_set_not_host:
  assumes "fds_ok cfg s k g" "s \<noteq> k" "0 \<le> k"
  shows "\<forall>x \<in> set (zip (app_set s g) es). fst (fst x) \<noteq> k"
proof -
  have "appin_ev g \<Longrightarrow> appin g \<noteq> k" "appout_ev g \<Longrightarrow> appout g \<noteq> k" "apperr_ev g \<Longrightarrow> apperr g \<noteq> k"
    using assms(1) by (simp_all add: appin_ev_def appout_ev_def apperr_ev_def fds_ok_def)
  with assms(2) have "\<forall>x \<in> set (app_set s g). fst x \<noteq> k"
    by (auto simp: app_set_def)
  then show ?thesis by (metis prod.collapse set_zip_leftD)
qed

lemma zip_take_length: "zip xs (take (length xs) ys) = zip xs ys"
proof (induction xs arbitrary: ys)
  case (Cons x xs)
  then show ?case by (cases ys) simp_all
qed simp

lemma turn_parts:
  assumes "handle_fds X cfg s k (zip (poll_set s k g) es) g = (f, h)" "s \<noteq> k"
  obtains f1 g1 where "handle_fds X cfg s k (zip (app_set s g) es) g = (f1, g1)"
    "f1 = G_cleanup \<and> f = G_cleanup \<and> h = g1 \<or> f1 = G_next \<and> f = G_next \<and> h = g1 \<or>
     f1 = G_next \<and> (\<exists>e \<in> set es. handle_host X cfg e g1 = (f, h))"
proof -
  let ?n = "length (app_set s g)"
  obtain f1 g1 where 1: "handle_fds X cfg s k (zip (app_set s g) es) g = (f1, g1)" by fastforce
  have z: "zip (poll_set s k g) es = zip (app_set s g) es @ zip (host_set k g) (drop ?n es)"
    by (simp add: poll_set_parts zip_append1 zip_take_length)
  show thesis
  proof (rule that [OF 1])
    show "f1 = G_cleanup \<and> f = G_cleanup \<and> h = g1 \<or> f1 = G_next \<and> f = G_next \<and> h = g1 \<or>
        f1 = G_next \<and> (\<exists>e \<in> set es. handle_host X cfg e g1 = (f, h))"
    proof (cases "host_set k g = [] \<or> drop ?n es = []")
      case True
      with 1 z assms show ?thesis
        by (cases f1) (auto simp: handle_fds_append)
    next
      case False
      then obtain e rest where e: "drop ?n es = e # rest" by (cases "drop ?n es") auto
      then have "e \<in> set es" by (metis in_set_dropD list.set_intros(1))
      moreover obtain ev where "host_set k g = [(k, ev)]"
        using False by (auto simp: host_set_def split: if_splits)
      ultimately show ?thesis
        using 1 z e assms
        by (cases f1; cases "handle_host X cfg e g1"; cases "fst (handle_host X cfg e g1)")
          (simp_all add: handle_fds_append handle_fd_def, (metis prod.inject)+)
    qed
  qed
qed

lemma turn_inv:
  assumes "xdr_library X" "guest_inv X cfg s k g" "\<not> g_quit g"
    "\<forall>e \<in> set es. spawn_ok cfg s k (pe_spawn e)" "s \<noteq> k" "0 \<le> s" "0 \<le> k"
    "handle_fds X cfg s k (zip (poll_set s k g) es) g = (f, h)"
  shows "in_post X (f, h) \<and> fds_ok cfg s k h"
proof -
  obtain f1 g1 where 1: "handle_fds X cfg s k (zip (app_set s g) es) g = (f1, g1)"
    "f1 = G_cleanup \<and> f = G_cleanup \<and> h = g1 \<or> f1 = G_next \<and> f = G_next \<and> h = g1 \<or>
     f1 = G_next \<and> (\<exists>e \<in> set es. handle_host X cfg e g1 = (f, h))"
    by (rule turn_parts [OF assms(8,5)])
  have inv: "in_inv X g" "fds_ok cfg s k g" using assms(2,3) by (simp_all add: guest_inv_def)
  have "\<forall>x \<in> set (zip (app_set s g) es). fst (fst x) \<noteq> k"
    by (rule app_set_not_host [OF inv(2) assms(5,7)])
  from handle_fds_inv [OF this inv(1) 1(1)] have g1: "in_inv X g1" "same_fds g g1" by simp_all
  have fds: "fds_ok cfg s k g1" by (rule same_fds_ok [OF g1(2) inv(2)])
  from 1(2) consider "h = g1" | e where "e \<in> set es" "handle_host X cfg e g1 = (f, h)" by auto
  then show ?thesis
  proof cases
    case 1
    with g1(1) fds show ?thesis by (simp add: in_post_inv)
  next
    case (2 e)
    from assms(4) 2(1) have "spawn_ok cfg s k (pe_spawn e)" by simp
    from handle_host_post [OF assms(1) g1(1) 2(2)] handle_host_fds [OF fds this assms(6,7) 2(2)]
    show ?thesis ..
  qed
qed

lemma guest_run_inv:
  assumes "guest_run X cfg s k g" "xdr_library X" "s \<noteq> k" "0 \<le> s" "0 \<le> k"
  shows "guest_inv X cfg s k g"
  using assms(1)
proof (induction rule: guest_run.induct)
  case init
  show ?case by (rule guest_init_inv)
next
  case (turn g pr g')
  from turn.hyps(3) obtain es where es: "\<not> g_quit g" "pr = Poll_ready es"
    "handle_fds X cfg s k (zip (poll_set s k g) es) g = (G_next, g')"
    by (auto simp: loop_turn_def split: if_splits poll_result.splits prod.splits guest_flow.splits)
  moreover have "\<forall>e \<in> set es. spawn_ok cfg s k (pe_spawn e)"
    using turn.hyps(2) es(2) by (simp add: turn_ok_def list_all_iff)
  ultimately have "in_post X (G_next, g') \<and> fds_ok cfg s k g'"
    using turn_inv [OF assms(2) turn.IH] assms(3-5) by blast
  then show ?case by (auto simp: in_post_def guest_inv_def)
qed

end
