(* ===== verification/Guest_Run.thy ===== *)
theory Guest_Run
  imports Guest_Rx
begin

text \<open>
  One run of the guest's event loop with pipes: the handshake, two bytes of input, two bytes of
  output, the end of both outputs, the death of the command, and the host's QUIT. The states are
  computed by the simplifier from the definitions; the properties of the guest use them as
  witnesses.
\<close>

definition run_cfg :: guest_config where
  "run_cfg = \<lparr>gc_tty = False, gc_user = ''root''\<rparr>"

definition run_spawn :: spawn_env where
  "run_spawn = \<lparr>sp_openpty = None, sp_fchown = True, sp_pipein = Some (10, 11),
     sp_pipeout = Some (12, 13), sp_pipeerr = Some (14, 15), sp_fork = Some 99\<rparr>"

definition ev_none :: poll_event where
  "ev_none = \<lparr>re_in = False, re_out = False, re_hup = False, re_other = False, pe_reads = [],
     pe_writes = [], pe_sigread = True, pe_waits = [], pe_spawn = run_spawn\<rparr>"

definition ev_read :: "byte list list \<Rightarrow> poll_event" where
  "ev_read bs = ev_none\<lparr>re_in := True, pe_reads := map Sys_bytes bs\<rparr>"

definition ev_write :: "nat \<Rightarrow> poll_event" where
  "ev_write n = ev_none\<lparr>re_out := True, pe_writes := [Sys_wrote n]\<rparr>"

definition stdin_packet :: "byte list" where
  "stdin_packet = [0, 0, 0, 22, 0, 0, 0, 1, 0, 0, 0, 1, 0, 0, 0, 0, 0, 0, 0, 0, 104, 105]"

definition guest_turn :: "poll_event list \<Rightarrow> guest \<Rightarrow> guest" where
  "guest_turn es g = snd (loop_turn rfc4506 run_cfg 3 4 (Poll_ready es) g)"

definition guest_syncing :: guest where
  "guest_syncing = guest_turn [ev_none, ev_read [[HANDSHAKE_WAIT]]] guest_init"

definition guest_synced :: guest where
  "guest_synced = guest_turn [ev_none, (ev_write 1)\<lparr>re_in := True, pe_reads := [Sys_bytes [HANDSHAKE_SYNC]]\<rparr>]
     guest_syncing"

definition guest_input :: guest where
  "guest_input = guest_turn [ev_none, ev_none, ev_none, ev_read [take 4 stdin_packet, drop 4 stdin_packet]]
     guest_synced"

definition guest_fed :: guest where
  "guest_fed = guest_turn [ev_none, ev_write 2, ev_none, ev_none] guest_input"

definition guest_output :: guest where
  "guest_output = guest_turn [ev_none, ev_read [[111, 107]], ev_none, ev_none] guest_fed"

definition guest_sent :: guest where
  "guest_sent = guest_turn [ev_none, ev_write 22] guest_output"

definition guest_eof :: guest where
  "guest_eof = guest_turn [ev_none, ev_read [[]], ev_read [[]], ev_none] guest_sent"

definition ev_child :: poll_event where
  "ev_child = ev_none\<lparr>re_in := True, pe_waits := [(99, 768), (0, 0)]\<rparr>"

definition guest_dead :: guest where
  "guest_dead = guest_turn [ev_child, ev_none] guest_eof"

definition guest_exited :: guest where
  "guest_exited = guest_turn [ev_none, ev_write 24] guest_dead"

definition quit_packet :: "byte list" where
  "quit_packet = [0, 0, 0, 20, 0, 0, 0, 5, 0, 0, 0, 0, 0, 0, 0, 0, 0, 0, 0, 1]"

definition guest_done :: guest where
  "guest_done = guest_turn [ev_none, ev_read [take 4 quit_packet, drop 4 quit_packet]] guest_exited"

lemmas guest_eval = Let_def rpcpacket_new_def zero_header_def size_defs buffer_size
  HANDSHAKE_WAIT_def HANDSHAKE_SYNC_def guest_turn_def loop_turn_def poll_set_def appin_ev_def
  appout_ev_def apperr_ev_def host_in_ev_def host_out_ev_def handle_fd_def handle_signal_def
  revents_def ev_none_def ev_read_def ev_write_def handle_host_def host_readable.simps
  host_writable_def one_byte_rx_def sync_packet_def start_command_def run_command_def
  run_cfg_def run_spawn_def handle_packet_def pkt_rest_def stdin_data_def write_stdin_def
  free_stdin_def handle_appin_def handle_appout_def handle_apperr_def set_tx_def send_exit_def
  store_received_def stream_want_def gsize_minus_def u_int_of_def buf_read_def buf_write_def

lemmas guest_packet_eval = rpcpacket_decode_length_def rpcpacket_decode_header_def
  rpcpacket_decode_payload_msg_def xdrmem_bytes_def xdrmem_size_def
  rpcpacket_encode_header_def rpcpacket_encode_payload_msg_def reencode_length_def
  rpcpacket_encode_payload_raw_def encode_stdout_def encode_stderr_def encode_exit_def
  proc_defs STATUS_OK_def TYPE_DATA_def TYPE_MESSAGE_def be32_def
  rfc4506_def u_int_filter_def header_filter_def iso_filter_def seq_filter_def

lemma guest_syncing: "guest_syncing = guest_init\<lparr>g_state := G_SYNCING, g_tx := Some sync_packet,
    g_rx := Some ((rpcpacket_new False)\<lparr>buffer := [27], bufferLength := 1\<rparr>), hostRead := [27]\<rparr>"
  by (simp add: guest_syncing_def guest_init_def guest_eval)

lemma guest_synced: "guest_synced = guest_syncing\<lparr>g_state := G_RUNNING, g_tx := None,
    g_rx := Some ((rpcpacket_new False)\<lparr>buffer := [28], bufferLength := 4\<rparr>), hostRead := [27, 28],
    child := 99, appin := 11, appout := 12, apperr := 14, commands := 1, closedFds := [10, 13, 15],
    hostSent := [28]\<rparr>"
  by (simp add: guest_synced_def guest_syncing guest_init_def guest_eval)

lemma guest_input: "guest_input = guest_synced\<lparr>g_rx := None, hostRead := [27, 28] @ stdin_packet,
    hostToStdin := Some [104, 105], hostToStdinLength := 2\<rparr>"
  by (simp add: guest_input_def guest_synced guest_syncing guest_init_def guest_eval guest_packet_eval
      stdin_packet_def)

lemma guest_fed: "guest_fed = guest_input\<lparr>g_rx := Some (rpcpacket_new True), appSent := [104, 105],
    hostToStdin := None, hostToStdinLength := 0\<rparr>"
  by (simp add: guest_fed_def guest_input guest_synced guest_syncing guest_init_def guest_eval
      stdin_packet_def)

definition ok_header :: rpc_header where
  "ok_header = \<lparr>h_proc = PROC_STDOUT, h_type = TYPE_DATA, h_status = STATUS_OK, h_serial = 0\<rparr>"

definition dead_header :: rpc_header where
  "dead_header = \<lparr>h_proc = PROC_EXIT, h_type = TYPE_MESSAGE, h_status = STATUS_OK, h_serial = 1\<rparr>"

lemma guest_output: "guest_output = guest_fed\<lparr>outRead := [111, 107], g_serial := 1,
    g_tx := Some (wire_packet rfc4506 ok_header [111, 107])\<rparr>"
  by (simp add: guest_output_def guest_fed guest_input guest_synced guest_syncing guest_init_def
      guest_eval guest_packet_eval wire_packet_def wire_def xbytes_def ok_header_def)

lemma guest_sent: "guest_sent = guest_output\<lparr>g_tx := None,
    hostSent := 28 # wire rfc4506 ok_header [111, 107]\<rparr>"
  by (simp add: guest_sent_def guest_output guest_fed guest_input guest_synced guest_syncing
      guest_init_def guest_eval guest_packet_eval wire_packet_def wire_def xbytes_def ok_header_def)

lemma guest_eof: "guest_eof = guest_sent\<lparr>appOutEOF := True, appErrEOF := True\<rparr>"
  by (simp add: guest_eof_def guest_sent guest_output guest_fed guest_input guest_synced guest_syncing
      guest_init_def guest_eval)

lemma guest_dead: "guest_dead = guest_eof\<lparr>appQuit := True, exitstatus := 768, g_serial := 2,
    diskSyncs := 1, g_tx := Some (wire_packet rfc4506 dead_header [0, 0, 3, 0])\<rparr>"
  by (simp add: guest_dead_def ev_child_def guest_eof guest_sent guest_output guest_fed guest_input
      guest_synced guest_syncing guest_init_def guest_eval guest_packet_eval wire_packet_def wire_def
      xbytes_def dead_header_def)

lemma guest_exited: "guest_exited = guest_dead\<lparr>g_tx := None,
    hostSent := 28 # wire rfc4506 ok_header [111, 107] @ wire rfc4506 dead_header [0, 0, 3, 0]\<rparr>"
  by (simp add: guest_exited_def guest_dead guest_eof guest_sent guest_output guest_fed guest_input
      guest_synced guest_syncing guest_init_def guest_eval guest_packet_eval wire_packet_def wire_def
      xbytes_def dead_header_def)

lemma guest_done: "guest_done = guest_exited\<lparr>g_rx := None, g_quit := True,
    hostRead := [27, 28] @ stdin_packet @ quit_packet\<rparr>"
  by (simp add: guest_done_def guest_exited guest_dead guest_eof guest_sent guest_output guest_fed
      guest_input guest_synced guest_syncing guest_init_def guest_eval guest_packet_eval
      stdin_packet_def quit_packet_def)

section \<open>The states are reachable\<close>

lemma run_turn:
  assumes "guest_run rfc4506 run_cfg 3 4 g" "h = guest_turn es g"
    "\<forall>e \<in> set es. pe_spawn e = run_spawn \<and> waits_ok g (pe_waits e)"
    "fst (loop_turn rfc4506 run_cfg 3 4 (Poll_ready es) g) = None"
  shows "guest_run rfc4506 run_cfg 3 4 h"
proof (rule guest_run.turn [OF assms(1)])
  have "spawn_ok run_cfg 3 4 run_spawn"
    by (simp add: spawn_ok_def run_command_def run_cfg_def run_spawn_def Let_def)
  with assms(3) show "turn_ok run_cfg 3 4 g (Poll_ready es)"
    by (simp add: turn_ok_def list_all_iff)
  show "loop_turn rfc4506 run_cfg 3 4 (Poll_ready es) g = (None, h)"
    using assms(2,4) by (simp add: guest_turn_def prod_eq_iff)
qed

lemmas guest_states = guest_exited guest_dead guest_eof guest_sent guest_output guest_fed guest_input
  guest_synced guest_syncing guest_init_def

lemma ev_waits:
  "waits_ok g []" "\<not> appQuit g \<Longrightarrow> child g = 99 \<Longrightarrow> waits_ok g [(99, s), (0, t)]"
  by (simp_all add: waits_ok_def)

lemma guest_runs:
  "guest_run rfc4506 run_cfg 3 4 guest_synced"
  "guest_run rfc4506 run_cfg 3 4 guest_input"
  "guest_run rfc4506 run_cfg 3 4 guest_fed"
  "guest_run rfc4506 run_cfg 3 4 guest_exited"
  "guest_run rfc4506 run_cfg 3 4 guest_done"
  "guest_run rfc4506 run_cfg 3 4 guest_sent"
proof -
  note ev = ev_none_def ev_read_def ev_write_def ev_child_def ev_waits
  have s1: "guest_run rfc4506 run_cfg 3 4 guest_syncing"
    by (rule run_turn [OF guest_run.init guest_syncing_def]) (simp_all add: ev, simp add: guest_init_def guest_eval)
  show s2: "guest_run rfc4506 run_cfg 3 4 guest_synced"
    by (rule run_turn [OF s1 guest_synced_def]) (simp_all add: ev, simp add: guest_states guest_eval)
  show s3: "guest_run rfc4506 run_cfg 3 4 guest_input"
    by (rule run_turn [OF s2 guest_input_def])
      (simp_all add: ev, simp add: guest_states guest_eval guest_packet_eval stdin_packet_def)
  show s4: "guest_run rfc4506 run_cfg 3 4 guest_fed"
    by (rule run_turn [OF s3 guest_fed_def])
      (simp_all add: ev, simp add: guest_states guest_eval)
  have s5: "guest_run rfc4506 run_cfg 3 4 guest_output"
    by (rule run_turn [OF s4 guest_output_def])
      (simp_all add: ev, simp add: guest_states guest_eval guest_packet_eval)
  show s6: "guest_run rfc4506 run_cfg 3 4 guest_sent"
    by (rule run_turn [OF s5 guest_sent_def])
      (simp_all add: ev, simp add: guest_states guest_eval)
  have s7: "guest_run rfc4506 run_cfg 3 4 guest_eof"
    by (rule run_turn [OF s6 guest_eof_def])
      (simp_all add: ev, simp add: guest_states guest_eval)
  have s8: "guest_run rfc4506 run_cfg 3 4 guest_dead"
    by (rule run_turn [OF s7 guest_dead_def])
      (simp_all add: ev, simp_all add: guest_states guest_eval guest_packet_eval ev)
  show s9: "guest_run rfc4506 run_cfg 3 4 guest_exited"
    by (rule run_turn [OF s8 guest_exited_def])
      (simp_all add: ev, simp add: guest_states guest_eval)
  show "guest_run rfc4506 run_cfg 3 4 guest_done"
    by (rule run_turn [OF s9 guest_done_def])
      (simp_all add: ev, simp add: guest_states guest_eval guest_packet_eval quit_packet_def)
qed

end
