(* ===== verification/Guest_Tx.thy ===== *)
theory Guest_Tx
  imports Guest_Rx
begin

text \<open>
  What the guest's event loop sends, when the command runs on pipes. The invariant \<open>out_inv\<close>
  relates the bytes written to the host and the pending packet to a list of messages: the output
  read from the command, in order and with consecutive serials, and one EXIT at the end once both
  outputs are at their end and the command is dead. What is left of it after \<open>quit\<close> is \<open>out_hist\<close>.
\<close>

section \<open>The encoders\<close>

definition out_header :: "u32 \<Rightarrow> u32 \<Rightarrow> u32 \<Rightarrow> rpc_header" where
  "out_header proc ty serial = \<lparr>h_proc = proc, h_type = ty, h_status = STATUS_OK, h_serial = serial\<rparr>"

context xdr_library
begin

lemma fresh_header:
  obtains m where "rpcpacket_encode_header X ((rpcpacket_new False)\<lparr>header := h\<rparr>) = Inr m"
  using encode_header_fresh [of "(rpcpacket_new False)\<lparr>header := h\<rparr>"]
  by (simp add: rpcpacket_new_def)

lemma encode_output:
  assumes "length data \<le> PAYLOAD_MAX"
  shows "encode_stdout X data serial = Inr (wire_packet X (out_header PROC_STDOUT TYPE_DATA serial) data)"
    "encode_stderr X data serial = Inr (wire_packet X (out_header PROC_STDERR TYPE_DATA serial) data)"
proof -
  have raw: "(case rpcpacket_encode_header X ((rpcpacket_new False)\<lparr>header := h\<rparr>) of
      Inl e \<Rightarrow> Inl e | Inr pkt \<Rightarrow> rpcpacket_encode_payload_raw X data pkt) = Inr (wire_packet X h data)" for h
  proof -
    obtain m where "rpcpacket_encode_header X ((rpcpacket_new False)\<lparr>header := h\<rparr>) = Inr m"
      by (rule fresh_header)
    with encode_raw_fresh [OF _ this] assms show ?thesis by (simp add: rpcpacket_new_def)
  qed
  show "encode_stdout X data serial = Inr (wire_packet X (out_header PROC_STDOUT TYPE_DATA serial) data)"
    "encode_stderr X data serial = Inr (wire_packet X (out_header PROC_STDERR TYPE_DATA serial) data)"
    by (simp_all only: encode_stdout_def encode_stderr_def Let_def out_header_def raw)
qed

lemma encode_exit_eq:
  "encode_exit X status serial =
     Inr (wire_packet X (out_header PROC_EXIT TYPE_MESSAGE serial) (xbytes (xdr_exit X) 4 status))"
proof -
  let ?h = "out_header PROC_EXIT TYPE_MESSAGE serial"
  obtain m where m: "rpcpacket_encode_header X ((rpcpacket_new False)\<lparr>header := ?h\<rparr>) = Inr m"
    by (rule fresh_header)
  then have "rpcpacket_encode_payload_msg X (xdr_exit X) status m =
      Inr (wire_packet X ?h (xbytes (xdr_exit X) 4 status))"
    using encode_msg_fresh [OF _ m exit_4] by (simp add: rpcpacket_new_def packet_sizes)
  with m show ?thesis by (simp add: encode_exit_def Let_def out_header_def)
qed

end

section \<open>The invariant\<close>

definition tx_rest :: "guest \<Rightarrow> byte list" where
  "tx_rest g = (case g_tx g of None \<Rightarrow> [] | Some p \<Rightarrow> pkt_rest p)"

definition tx_ok :: "guest \<Rightarrow> bool" where
  "tx_ok g = (case g_tx g of None \<Rightarrow> True | Some p \<Rightarrow> packet_ok p)"

definition all_over :: "guest \<Rightarrow> bool" where
  "all_over g \<longleftrightarrow> appOutEOF g \<and> appErrEOF g \<and> appQuit g"

definition output_only :: "message list \<Rightarrow> bool" where
  "output_only ms \<longleftrightarrow> (\<forall>(h, d) \<in> set ms.
     h = out_header PROC_STDOUT TYPE_DATA (h_serial h) \<or> h = out_header PROC_STDERR TYPE_DATA (h_serial h))"

definition exit_message :: "xdr_lib \<Rightarrow> message \<Rightarrow> bool" where
  "exit_message X m \<longleftrightarrow> fst m = out_header PROC_EXIT TYPE_MESSAGE (h_serial (fst m)) \<and>
     (\<exists>status. snd m = xbytes (xdr_exit X) 4 status)"

text \<open>The messages so far: output, then the EXIT if the command is over; the serials count them.\<close>

definition out_sequence :: "xdr_lib \<Rightarrow> bool \<Rightarrow> message list \<Rightarrow> bool" where
  "out_sequence X over ms \<longleftrightarrow>
     (if over then ms \<noteq> [] \<and> output_only (butlast ms) \<and> exit_message X (last ms) else output_only ms) \<and>
     map (h_serial \<circ> fst) ms = map of_nat [0..<length ms] \<and> fits ms"

definition out_data :: "guest \<Rightarrow> message list \<Rightarrow> bool" where
  "out_data g ms \<longleftrightarrow> data_of PROC_STDOUT ms = outRead g \<and> data_of PROC_STDERR ms = errRead g"

definition idle_out :: "guest \<Rightarrow> bool" where
  "idle_out g \<longleftrightarrow> outRead g = [] \<and> errRead g = [] \<and> \<not> appOutEOF g \<and> \<not> appErrEOF g \<and> \<not> appQuit g \<and>
     child g = 0 \<and> g_serial g = 0"

definition out_msgs :: "xdr_lib \<Rightarrow> bool \<Rightarrow> guest \<Rightarrow> message list \<Rightarrow> bool" where
  "out_msgs X over g ms \<longleftrightarrow>
     hostSent g @ tx_rest g = HANDSHAKE_SYNC # wires X ms \<and> out_data g ms \<and>
     out_sequence X over ms \<and> g_serial g = of_nat (length ms)"

definition out_inv :: "xdr_lib \<Rightarrow> guest \<Rightarrow> bool" where
  "out_inv X g \<longleftrightarrow> tx_ok g \<and> (case g_state g of
       G_WAITING \<Rightarrow> g_tx g = None \<and> hostSent g = [] \<and> idle_out g
     | G_SYNCING \<Rightarrow> hostSent g @ tx_rest g = [HANDSHAKE_SYNC] \<and> idle_out g
     | G_RUNNING \<Rightarrow> child g \<noteq> 0 \<and> (appOutEOF g \<and> appErrEOF g \<and> \<not> appQuit g \<longrightarrow> g_tx g = None) \<and>
         (\<exists>ms. out_msgs X (all_over g) g ms))"

definition out_hist :: "xdr_lib \<Rightarrow> guest \<Rightarrow> bool" where
  "out_hist X g \<longleftrightarrow>
     (\<exists>ms over. prefix (hostSent g) (HANDSHAKE_SYNC # wires X ms) \<and> out_data g ms \<and>
        out_sequence X over ms \<and> (over \<longrightarrow> all_over g))"

lemma out_inv_hist:
  assumes "out_inv X g"
  shows "out_hist X g"
proof (cases "g_state g")
  case G_WAITING
  with assms show ?thesis
    by (auto simp: out_inv_def out_hist_def idle_out_def out_data_def out_sequence_def output_only_def
        intro!: exI [of _ "[]"] exI [of _ False])
next
  case G_SYNCING
  with assms have "hostSent g @ tx_rest g = [HANDSHAKE_SYNC]" "idle_out g"
    by (simp_all add: out_inv_def)
  moreover from this have "prefix (hostSent g) [HANDSHAKE_SYNC]" by (metis prefixI)
  ultimately show ?thesis
    by (auto simp: out_hist_def idle_out_def out_data_def out_sequence_def output_only_def
        intro!: exI [of _ "[]"] exI [of _ False])
next
  case G_RUNNING
  with assms show ?thesis
    unfolding out_inv_def out_msgs_def out_hist_def by (auto intro: prefixI [OF sym])
qed

section \<open>Queueing a packet\<close>

lemma out_sequence_output:
  assumes "out_sequence X False ms" "length d \<le> PAYLOAD_MAX"
    "h = out_header PROC_STDOUT TYPE_DATA (of_nat (length ms)) \<or>
     h = out_header PROC_STDERR TYPE_DATA (of_nat (length ms))"
  shows "out_sequence X False (ms @ [(h, d)])"
  using assms by (auto simp: out_sequence_def output_only_def out_header_def)

lemma out_sequence_exit:
  assumes "out_sequence X False ms" "xdr_library X"
  shows "out_sequence X True
    (ms @ [(out_header PROC_EXIT TYPE_MESSAGE (of_nat (length ms)), xbytes (xdr_exit X) 4 status)])"
  using assms
  by (auto simp: out_sequence_def exit_message_def out_header_def xdr_library.lengths packet_sizes)

lemma push_message:
  assumes "xdr_library X" "out_msgs X False g ms" "g_tx g = None" "length d \<le> PAYLOAD_MAX"
    "out_sequence X over (ms @ [(h, d)])"
    "outRead k = outRead g @ data_of PROC_STDOUT [(h, d)]"
    "errRead k = errRead g @ data_of PROC_STDERR [(h, d)]"
    "hostSent k = hostSent g" "g_serial k = g_serial g + 1" "g_tx k = Some (wire_packet X h d)"
  shows "out_msgs X over k (ms @ [(h, d)]) \<and> tx_ok k"
  using assms
  by (simp add: out_msgs_def out_data_def tx_rest_def tx_ok_def tx_rest_wire packet_ok_wire)

lemma send_exit_out:
  assumes "xdr_library X" "out_msgs X False g ms" "g_tx g = None" "all_over g" "g_state g = G_RUNNING"
    "child g \<noteq> 0"
  obtains h where "send_exit X g = (G_next, h)" "out_inv X h" "same_in g h"
    "appOutEOF h = appOutEOF g" "appErrEOF h = appErrEOF g" "child h = child g" "appQuit h"
proof -
  let ?d = "xbytes (xdr_exit X) 4 (exitstatus g)"
  let ?h = "out_header PROC_EXIT TYPE_MESSAGE (g_serial g)"
  let ?k = "g\<lparr>diskSyncs := diskSyncs g + 1, g_serial := g_serial g + 1,
    g_tx := Some (wire_packet X ?h ?d)\<rparr>"
  have k: "send_exit X g = (G_next, ?k)"
    by (simp add: send_exit_def set_tx_def xdr_library.encode_exit_eq [OF assms(1)])
  have seq: "out_sequence X True (ms @ [(?h, ?d)])"
    using out_sequence_exit [of X ms "exitstatus g"] assms(1,2) by (simp add: out_msgs_def)
  have "out_msgs X True ?k (ms @ [(?h, ?d)]) \<and> tx_ok ?k"
    using seq assms(1-3) by (intro push_message [where g = g])
      (simp_all add: out_header_def xdr_library.lengths packet_sizes)
  moreover have "all_over ?k" using assms(4) by (simp add: all_over_def)
  ultimately have "out_inv X ?k"
    using assms(4-6) by (auto simp: out_inv_def all_over_def)
  with k assms(4) show thesis
    by (intro that [of ?k]) (simp_all add: same_in_def all_over_def)
qed

section \<open>The handlers\<close>

definition same_out :: "guest \<Rightarrow> guest \<Rightarrow> bool" where
  "same_out g h \<longleftrightarrow> g_state h = g_state g \<and> g_tx h = g_tx g \<and> hostSent h = hostSent g \<and>
     outRead h = outRead g \<and> errRead h = errRead g \<and> appOutEOF h = appOutEOF g \<and>
     appErrEOF h = appErrEOF g \<and> appQuit h = appQuit g \<and> child h = child g \<and> g_serial h = g_serial g"

lemma same_out_refl [simp]: "same_out g g"
  by (simp add: same_out_def)

lemma same_out_inv:
  assumes "same_out g h" "out_inv X g"
  shows "out_inv X h"
proof -
  have "tx_ok h = tx_ok g" "tx_rest h = tx_rest g" "all_over h = all_over g" "idle_out h = idle_out g"
    "out_msgs X over h ms = out_msgs X over g ms" for over ms
    using assms(1) unfolding same_out_def tx_ok_def tx_rest_def all_over_def idle_out_def out_msgs_def
      out_data_def by (elim conjE, simp only:)+
  then have "out_msgs X over h = out_msgs X over g" for over by (intro ext) blast
  with \<open>tx_ok h = tx_ok g\<close> \<open>tx_rest h = tx_rest g\<close> \<open>all_over h = all_over g\<close> \<open>idle_out h = idle_out g\<close>
  show ?thesis using assms by (cases "g_state g") (simp_all add: out_inv_def same_out_def)
qed

text \<open>The flags that decide which descriptors are polled.\<close>

definition same_eof :: "guest \<Rightarrow> guest \<Rightarrow> bool" where
  "same_eof g h \<longleftrightarrow> appOutEOF h = appOutEOF g \<and> appErrEOF h = appErrEOF g"

lemma same_eof_refl [simp]: "same_eof g g"
  by (simp add: same_eof_def)

lemma same_eof_trans: "same_eof g h \<Longrightarrow> same_eof h k \<Longrightarrow> same_eof g k"
  by (simp add: same_eof_def)

lemma same_out_eof: "same_out g h \<Longrightarrow> same_eof g h"
  by (simp add: same_out_def same_eof_def)

lemma reap_no_child:
  assumes "\<forall>(rv, _) \<in> set ws. rv \<noteq> child g \<or> rv = 0" "reap X ws g = (f, h)"
  shows "f = G_next \<and> same_out g h"
  using assms
proof (induction ws arbitrary: g)
  case Nil
  then show ?case by (simp add: same_out_def)
next
  case (Cons w ws)
  obtain rv status where w: "w = (rv, status)" by fastforce
  let ?g = "g\<lparr>exitstatus := status\<rparr>"
  show ?case
  proof (cases "rv = -1 \<or> rv = 0")
    case True
    with Cons.prems w show ?thesis by (auto simp: same_out_def)
  next
    case False
    with Cons.prems w have "reap X ws ?g = (f, h)" by (auto simp: Let_def)
    with Cons.IH [of ?g] Cons.prems(1) show ?thesis by (simp add: same_out_def)
  qed
qed

lemma reap_out:
  assumes "xdr_library X" "out_inv X g" "waits_ok g ws" "reap X ws g = (f, h)"
  shows "f = G_next \<and> out_inv X h \<and> same_eof g h"
  using assms(2-4)
proof (induction ws arbitrary: g)
  case Nil
  then show ?case by simp
next
  case (Cons w ws)
  obtain rv status where w: "w = (rv, status)" by fastforce
  let ?g = "g\<lparr>exitstatus := status\<rparr>"
  have same: "same_out g ?g" by (simp add: same_out_def)
  then have inv: "out_inv X ?g" using Cons.prems(1) same_out_inv by blast
  have eof: "same_eof g h" if "same_eof ?g h" using that by (simp add: same_eof_def)
  consider "rv = -1 \<or> rv = 0" | "rv \<noteq> -1" "rv \<noteq> 0" "rv \<noteq> child g" | "rv \<noteq> -1" "rv \<noteq> 0" "rv = child g"
    by blast
  then show ?case
  proof cases
    case 1
    with Cons.prems w show ?thesis by auto
  next
    case 2
    with Cons.prems(3) w have "reap X ws ?g = (f, h)" by (simp add: Let_def)
    moreover have "waits_ok ?g ws" using Cons.prems(2) w 2 by (auto simp: waits_ok_def)
    ultimately show ?thesis using Cons.IH [OF inv] eof by blast
  next
    case 3
    let ?q = "?g\<lparr>appQuit := True\<rparr>"
    have none: "filter (\<lambda>(pid, _). pid = child g) ws = []" and q: "\<not> appQuit g"
      using Cons.prems(2) w 3 by (auto simp: waits_ok_def split: if_splits)
    then have others: "\<forall>(rv, _) \<in> set ws. rv \<noteq> child k \<or> rv = 0" if "child k = child g" for k
      using that by (auto simp: filter_empty_conv)
    have run: "g_state g = G_RUNNING"
      using Cons.prems(1) 3 by (auto simp: out_inv_def idle_out_def split: guest_state.splits)
    then obtain ms where ms: "out_msgs X False g ms" "tx_ok g" "child g \<noteq> 0"
        "appOutEOF g \<and> appErrEOF g \<longrightarrow> g_tx g = None"
      using Cons.prems(1) q by (auto simp: out_inv_def all_over_def)
    have msq: "out_msgs X False ?q ms"
      using ms(1) by (simp add: out_msgs_def out_data_def tx_rest_def)
    show ?thesis
    proof (cases "appErrEOF g \<and> appOutEOF g")
      case True
      then have "g_tx ?q = None" "all_over ?q" using ms(4) by (simp_all add: all_over_def)
      then obtain k where k: "send_exit X ?q = (G_next, k)" "out_inv X k" "child k = child g"
          "same_eof g k"
        using send_exit_out [OF assms(1) msq] run ms(3) by (auto simp: same_eof_def)
      have "reap X ws k = (f, h)" using Cons.prems(3) w 3 True k(1) by (simp add: Let_def)
      from reap_no_child [OF others [OF k(3)] this] have "f = G_next" "same_out k h" by simp_all
      with k(2,4) show ?thesis using same_out_inv same_out_eof same_eof_trans by blast
    next
      case False
      have "out_inv X ?q"
        using False ms run msq by (auto simp: out_inv_def all_over_def tx_ok_def)
      moreover have "reap X ws ?q = (f, h)" using Cons.prems(3) w 3 False by (simp add: Let_def)
      moreover from this have "f = G_next" "same_out ?q h"
        using reap_no_child [OF others, of ?q] by simp_all
      moreover have "same_eof g ?q" by (simp add: same_eof_def)
      ultimately show ?thesis using same_out_inv same_out_eof same_eof_trans by blast
    qed
  qed
qed

lemma write_stdin_out: "same_out g (write_stdin ws g)"
  by (simp add: write_stdin_def free_stdin_def same_out_def Let_def split: option.splits)

lemma read_app_bounded:
  "fst (read_data 4096 rs) = Some d \<Longrightarrow> length d \<le> PAYLOAD_MAX"
  using read_data_bounded [of 4096 rs d "snd (read_data 4096 rs)"]
  by (simp add: prod_eq_iff packet_sizes)

lemma out_inv_running:
  assumes "out_inv X g" "g_state g = G_RUNNING" "\<not> all_over g"
  obtains ms where "out_msgs X False g ms" "child g \<noteq> 0"
    "appOutEOF g \<and> appErrEOF g \<and> \<not> appQuit g \<longrightarrow> g_tx g = None"
  using assms by (auto simp: out_inv_def)

lemma out_invI:
  "out_msgs X (all_over h) h ms \<Longrightarrow> tx_ok h \<Longrightarrow> child h \<noteq> 0 \<Longrightarrow> g_state h = G_RUNNING \<Longrightarrow>
   (appOutEOF h \<and> appErrEOF h \<and> \<not> appQuit h \<longrightarrow> g_tx h = None) \<Longrightarrow> out_inv X h"
  by (auto simp: out_inv_def)

text \<open>One read from an output of the command: data, or the end.\<close>

lemma app_output:
  assumes "xdr_library X" "out_inv X g" "g_state g = G_RUNNING" "g_tx g = None"
    "\<not> (appOutEOF g \<and> appErrEOF g)" "length d \<le> PAYLOAD_MAX"
  shows "set_tx (encode_stdout X d (g_serial g)) (g\<lparr>outRead := outRead g @ d\<rparr>) = (f, h) \<Longrightarrow>
      f = G_next \<and> out_inv X h \<and> same_eof g h"
    "set_tx (encode_stderr X d (g_serial g)) (g\<lparr>errRead := errRead g @ d\<rparr>) = (f, h) \<Longrightarrow>
      f = G_next \<and> out_inv X h \<and> same_eof g h"
proof -
  have over: "\<not> all_over g" using assms(5) by (auto simp: all_over_def)
  obtain ms where ms: "out_msgs X False g ms" "child g \<noteq> 0"
    by (rule out_inv_running [OF assms(2,3) over])
  have n: "g_serial g = of_nat (length ms)" and seq: "out_sequence X False ms"
    using ms(1) by (simp_all add: out_msgs_def)
  note seqs = out_sequence_output [OF seq assms(6) disjI1] out_sequence_output [OF seq assms(6) disjI2]
  note push = push_message [OF assms(1) ms(1) assms(4) assms(6), where over = False]
  have fin: "out_inv X k" if "out_msgs X False k ns \<and> tx_ok k" "same_eof g k" "child k = child g"
    "g_state k = g_state g" "appQuit k = appQuit g" for k ns
  proof (rule out_invI)
    have "\<not> all_over k" using that(2,5) over by (simp add: all_over_def same_eof_def)
    with that(1) show "out_msgs X (all_over k) k ns" by simp
  qed (use that assms(3,5) ms(2) in \<open>auto simp: same_eof_def\<close>)
  show "f = G_next \<and> out_inv X h \<and> same_eof g h"
    if "set_tx (encode_stdout X d (g_serial g)) (g\<lparr>outRead := outRead g @ d\<rparr>) = (f, h)"
  proof -
    from that have h: "f = G_next" "h = g\<lparr>outRead := outRead g @ d, g_serial := g_serial g + 1,
        g_tx := Some (wire_packet X (out_header PROC_STDOUT TYPE_DATA (g_serial g)) d)\<rparr>"
      by (simp_all add: set_tx_def xdr_library.encode_output [OF assms(1,6)])
    have "out_msgs X False h (ms @ [(out_header PROC_STDOUT TYPE_DATA (g_serial g), d)]) \<and> tx_ok h"
      using seqs(1) by (intro push) (simp_all add: h n out_header_def)
    from fin [OF this] show ?thesis by (simp add: h same_eof_def)
  qed
  show "f = G_next \<and> out_inv X h \<and> same_eof g h"
    if "set_tx (encode_stderr X d (g_serial g)) (g\<lparr>errRead := errRead g @ d\<rparr>) = (f, h)"
  proof -
    from that have h: "f = G_next" "h = g\<lparr>errRead := errRead g @ d, g_serial := g_serial g + 1,
        g_tx := Some (wire_packet X (out_header PROC_STDERR TYPE_DATA (g_serial g)) d)\<rparr>"
      by (simp_all add: set_tx_def xdr_library.encode_output [OF assms(1,6)])
    have "out_msgs X False h (ms @ [(out_header PROC_STDERR TYPE_DATA (g_serial g), d)]) \<and> tx_ok h"
      using seqs(2) by (intro push) (simp_all add: h n out_header_def)
    from fin [OF this] show ?thesis by (simp add: h same_eof_def)
  qed
qed

lemma app_eof:
  assumes "xdr_library X" "out_inv X g" "g_state g = G_RUNNING" "g_tx g = None"
    "\<not> (appOutEOF g \<and> appErrEOF g)"
    "k = g\<lparr>appOutEOF := True\<rparr> \<or> k = g\<lparr>appErrEOF := True\<rparr>"
    "(if appOutEOF k \<and> appErrEOF k \<and> appQuit k then send_exit X k else (G_next, k)) = (f, h)"
  shows "f = G_next \<and> out_inv X h \<and> same_eof k h"
proof -
  have over: "\<not> all_over g" using assms(5) by (auto simp: all_over_def)
  obtain ms where ms: "out_msgs X False g ms" "child g \<noteq> 0"
    by (rule out_inv_running [OF assms(2,3) over])
  have k: "out_msgs X False k ms" "g_tx k = None" "g_state k = G_RUNNING" "child k \<noteq> 0"
    using assms(3,4,6) ms by (auto simp: out_msgs_def out_data_def tx_rest_def)
  show ?thesis
  proof (cases "all_over k")
    case True
    obtain h' where "send_exit X k = (G_next, h')" "out_inv X h'" "same_eof k h'"
      using send_exit_out [OF assms(1) k(1,2) True k(3,4)] by (auto simp: same_eof_def)
    with True assms(7) show ?thesis by (auto simp: all_over_def)
  next
    case False
    have "out_inv X k"
      by (rule out_invI) (use False k in \<open>auto simp: tx_ok_def\<close>)
    with False assms(7) show ?thesis by (auto simp: all_over_def split: if_splits)
  qed
qed

lemma handle_appout_out:
  assumes "xdr_library X" "out_inv X g" "g_state g = G_RUNNING" "\<not> appOutEOF g"
    "handle_appout X e g = (f, h)"
  shows "f = G_next \<and> out_inv X h \<and> appErrEOF h = appErrEOF g"
proof (cases "revents e \<and> g_tx g = None")
  case False
  with assms show ?thesis by (auto simp: handle_appout_def)
next
  case True
  consider b bs where "fst (read_data 4096 (pe_reads e)) = Some (b # bs)"
    | "fst (read_data 4096 (pe_reads e)) = None \<or> fst (read_data 4096 (pe_reads e)) = Some []"
    by (metis list.exhaust option.exhaust)
  then show ?thesis
  proof cases
    case 1
    with True assms(5) have "set_tx (encode_stdout X (b # bs) (g_serial g))
        (g\<lparr>outRead := outRead g @ b # bs\<rparr>) = (f, h)" by (simp add: handle_appout_def)
    from app_output(1) [OF assms(1-3) _ _ read_app_bounded [OF 1] this] True assms(4)
    show ?thesis by (simp add: same_eof_def)
  next
    case 2
    let ?k = "g\<lparr>appOutEOF := True\<rparr>"
    from 2 True assms(5) have "(if appOutEOF ?k \<and> appErrEOF ?k \<and> appQuit ?k then send_exit X ?k
        else (G_next, ?k)) = (f, h)"
      by (auto simp: handle_appout_def Let_def)
    from app_eof [OF assms(1-3) _ _ disjI1 this] True assms(4)
    show ?thesis by (simp add: same_eof_def)
  qed
qed

lemma handle_apperr_out:
  assumes "xdr_library X" "out_inv X g" "g_state g = G_RUNNING" "\<not> appErrEOF g"
    "handle_apperr X e g = (f, h)"
  shows "f = G_next \<and> out_inv X h \<and> appOutEOF h = appOutEOF g"
proof (cases "revents e \<and> g_tx g = None")
  case False
  with assms show ?thesis by (auto simp: handle_apperr_def)
next
  case True
  consider b bs where "fst (read_data 4096 (pe_reads e)) = Some (b # bs)"
    | "fst (read_data 4096 (pe_reads e)) = None \<or> fst (read_data 4096 (pe_reads e)) = Some []"
    by (metis list.exhaust option.exhaust)
  then show ?thesis
  proof cases
    case 1
    with True assms(5) have "set_tx (encode_stderr X (b # bs) (g_serial g))
        (g\<lparr>errRead := errRead g @ b # bs\<rparr>) = (f, h)" by (simp add: handle_apperr_def)
    from app_output(2) [OF assms(1-3) _ _ read_app_bounded [OF 1] this] True assms(4)
    show ?thesis by (simp add: same_eof_def)
  next
    case 2
    let ?k = "g\<lparr>appErrEOF := True\<rparr>"
    from 2 True assms(5) have "(if appOutEOF ?k \<and> appErrEOF ?k \<and> appQuit ?k then send_exit X ?k
        else (G_next, ?k)) = (f, h)"
      by (auto simp: handle_apperr_def Let_def)
    from app_eof [OF assms(1-3) _ _ disjI2 this] True assms(4)
    show ?thesis by (simp add: same_eof_def)
  qed
qed

section \<open>The host's entry\<close>

definition out_post :: "xdr_lib \<Rightarrow> guest_flow \<times> guest \<Rightarrow> bool" where
  "out_post X r \<longleftrightarrow> out_hist X (snd r) \<and> (fst r = G_next \<and> \<not> g_quit (snd r) \<longrightarrow> out_inv X (snd r))"

lemma out_post_inv: "out_inv X h \<Longrightarrow> out_post X (f, h)"
  by (simp add: out_post_def out_inv_hist)

lemma out_inv_upd [simp]:
  "out_inv X (g\<lparr>g_rx := r\<rparr>) = out_inv X g" "out_inv X (g\<lparr>g_quit := q\<rparr>) = out_inv X g"
  "out_inv X (g\<lparr>hostRead := b\<rparr>) = out_inv X g" "out_inv X (g\<lparr>closedFds := c\<rparr>) = out_inv X g"
  "out_inv X (g\<lparr>appin := i\<rparr>) = out_inv X g" "out_inv X (g\<lparr>hostToStdin := s\<rparr>) = out_inv X g"
  "out_inv X (g\<lparr>hostToStdinLength := n\<rparr>) = out_inv X g"
  "out_inv X (g\<lparr>hostToStdinOffset := n\<rparr>) = out_inv X g"
proof -
  have eq: "out_inv X h = out_inv X g" if "same_out g h" for h
  proof -
    have "same_out h g" using that by (simp add: same_out_def)
    with that show ?thesis using same_out_inv by blast
  qed
  show "out_inv X (g\<lparr>g_rx := r\<rparr>) = out_inv X g" "out_inv X (g\<lparr>g_quit := q\<rparr>) = out_inv X g"
    "out_inv X (g\<lparr>hostRead := b\<rparr>) = out_inv X g" "out_inv X (g\<lparr>closedFds := c\<rparr>) = out_inv X g"
    "out_inv X (g\<lparr>appin := i\<rparr>) = out_inv X g" "out_inv X (g\<lparr>hostToStdin := s\<rparr>) = out_inv X g"
    "out_inv X (g\<lparr>hostToStdinLength := n\<rparr>) = out_inv X g"
    "out_inv X (g\<lparr>hostToStdinOffset := n\<rparr>) = out_inv X g"
    by (rule eq, simp add: same_out_def)+
qed

lemma handle_packet_out: "out_inv X g \<Longrightarrow> out_inv X (snd (handle_packet X rx g))"
  by (simp add: handle_packet_def split: sum.splits)

lemma start_command_out:
  assumes "out_inv X g" "g_state g = G_SYNCING" "spawn_ok cfg s k e"
  shows "out_inv X (snd (start_command cfg e rx g))"
proof (cases "sr_child (run_command cfg e)")
  case None
  have same: "same_out g (snd (start_command cfg e rx g))"
    using None by (simp add: start_command_def Let_def same_out_def)
  show ?thesis by (rule same_out_inv [OF same assms(1)])
next
  case (Some c)
  obtain pid i out err where c: "c = (pid, i, out, err)" by (metis prod_cases4)
  define h where "h = snd (start_command cfg e rx g)"
  have h: "g_state h = G_RUNNING" "child h = pid" "hostSent h = hostSent g" "g_tx h = g_tx g"
    "outRead h = outRead g" "errRead h = errRead g" "appOutEOF h = appOutEOF g"
    "appErrEOF h = appErrEOF g" "appQuit h = appQuit g" "g_serial h = g_serial g"
    using Some c by (simp_all add: h_def start_command_def Let_def)
  have g: "hostSent g @ tx_rest g = [HANDSHAKE_SYNC]" "idle_out g" "tx_ok g"
    using assms(1,2) by (simp_all add: out_inv_def)
  have "pid \<noteq> 0" using assms(3) Some c by (auto simp: spawn_ok_def)
  moreover have "out_msgs X (all_over h) h []"
    using g h by (simp add: out_msgs_def tx_rest_def out_data_def idle_out_def all_over_def
        out_sequence_def output_only_def)
  ultimately show ?thesis
    using g h unfolding h_def [symmetric] by (intro out_invI) (auto simp: tx_ok_def idle_out_def)
qed

lemma sync_packet_rest: "pkt_rest sync_packet = [HANDSHAKE_SYNC]" "packet_ok sync_packet"
  by (simp_all add: pkt_rest_def sync_packet_def gsize_simps buf_read_def packet_ok_def packet_sizes)

lemma host_readable_out:
  assumes "out_inv X g" "spawn_ok cfg s k e"
  shows "out_inv X (snd (host_readable X cfg e reads rx g))"
  using assms
proof (induction X cfg e reads rx g rule: host_readable.induct)
  case (1 X cfg e reads rx g)
  obtain r rest where rd: "read_data (stream_want rx) reads = (r, rest)" by fastforce
  show ?case
  proof (cases r)
    case None
    with rd "1.prems"(1) show ?thesis by (subst host_readable.simps) simp
  next
    case (Some got)
    let ?p = "store_received rx got"
    let ?g = "g\<lparr>hostRead := hostRead g @ got, g_rx := Some ?p\<rparr>"
    have g: "out_inv X ?g" using "1.prems"(1) by simp
    have IH: "out_inv X (snd (host_readable X cfg e rest p (?g\<lparr>g_rx := Some p\<rparr>)))"
      if "got \<noteq> []" "bufferLength ?p = bufferOffset ?p" "g_state g = G_RUNNING"
        "bufferLength ?p = LEN_MAX" "rpcpacket_decode_length X ?p = Inr p" for p
      using "1.IH" [of r rest got ?p ?g p] rd Some that "1.prems" by simp
    have sync: "out_inv X (?g\<lparr>g_state := G_SYNCING, g_tx := Some sync_packet, g_rx := b\<rparr>)"
      if "g_state g = G_WAITING" for b
      using g that by (auto simp: out_inv_def idle_out_def tx_rest_def tx_ok_def sync_packet_rest)
    have "g_state ?g = g_state g" by simp
    with rd Some IH g sync "1.prems"(2) start_command_out [OF g] handle_packet_out [OF g]
    show ?thesis
      by (subst host_readable.simps) (auto simp: Let_def split: guest_state.splits sum.splits)
  qed
qed

lemma out_hist_upd [simp]:
  "out_hist X (g\<lparr>g_quit := q\<rparr>) = out_hist X g" "out_hist X (g\<lparr>g_tx := t\<rparr>) = out_hist X g"
  by (simp_all add: out_hist_def out_data_def all_over_def)

lemma write_packet:
  assumes "packet_ok p" "write_data (pkt_rest p) ws = Some sent"
  defines "q \<equiv> p\<lparr>bufferOffset := bufferOffset p + length sent\<rparr>"
  shows "packet_ok q" "sent @ pkt_rest q = pkt_rest p" "bufferOffset q = bufferLength q \<Longrightarrow> pkt_rest q = []"
  using packet_sent [OF assms(1)] write_data_take [OF assms(2)] unfolding q_def by blast+

lemma out_inv_tx:
  assumes "out_inv X g" "g_tx g \<noteq> None" "hostSent h @ tx_rest h = hostSent g @ tx_rest g" "tx_ok h"
    "same_out (g\<lparr>hostSent := hostSent h, g_tx := g_tx h\<rparr>) h"
  shows "out_inv X h"
proof -
  have h: "g_state h = g_state g" "outRead h = outRead g" "errRead h = errRead g"
    "appOutEOF h = appOutEOF g" "appErrEOF h = appErrEOF g" "appQuit h = appQuit g"
    "child h = child g" "g_serial h = g_serial g"
    using assms(5) by (simp_all add: same_out_def)
  then have "all_over h = all_over g" "idle_out h = idle_out g"
    and m: "out_msgs X over h ms = out_msgs X over g ms" for over ms
    using assms(3) by (simp_all add: all_over_def idle_out_def out_msgs_def out_data_def)
  with assms(1-4) h show ?thesis by (cases "g_state g") (auto simp: out_inv_def)
qed

lemma host_writable_post:
  assumes "out_inv X g" "f = G_next"
  shows "out_post X (f, host_writable ws g)"
proof (cases "g_tx g")
  case None
  with assms show ?thesis by (simp add: host_writable_def out_post_inv)
next
  case (Some p)
  have ok: "packet_ok p"
    using assms(1) Some by (simp add: out_inv_def tx_ok_def)
  show ?thesis
  proof (cases "write_data (pkt_rest p) ws")
    case None
    with Some out_inv_hist [OF assms(1)] show ?thesis
      by (simp add: host_writable_def out_post_def)
  next
    case (Some sent)
    note w = write_packet [OF ok Some]
    let ?q = "p\<lparr>bufferOffset := bufferOffset p + length sent\<rparr>"
    have inv: "out_inv X (g\<lparr>hostSent := hostSent g @ sent, g_tx := t\<rparr>)"
      if "t = Some ?q \<or> t = None \<and> bufferOffset ?q = bufferLength ?q" for t
    proof (rule out_inv_tx [OF assms(1)])
      show "g_tx g \<noteq> None" using \<open>g_tx g = Some p\<close> by simp
      let ?h = "g\<lparr>hostSent := hostSent g @ sent, g_tx := t\<rparr>"
      have "tx_rest ?h = pkt_rest ?q" using that w(3) by (auto simp: tx_rest_def)
      with w(2) show "hostSent ?h @ tx_rest ?h = hostSent g @ tx_rest g"
        using \<open>g_tx g = Some p\<close> by (simp add: tx_rest_def)
      show "tx_ok ?h" using that w(1) by (auto simp: tx_ok_def)
    qed (simp add: same_out_def)
    have "host_writable ws g = (if bufferOffset ?q = bufferLength ?q
        then g\<lparr>hostSent := hostSent g @ sent, g_tx := None\<rparr>
        else g\<lparr>hostSent := hostSent g @ sent, g_tx := Some ?q\<rparr>)"
      using \<open>g_tx g = Some p\<close> Some by (simp add: host_writable_def Let_def)
    with inv show ?thesis by (simp add: out_post_inv)
  qed
qed

lemma handle_host_out:
  assumes "out_inv X g" "spawn_ok cfg s k (pe_spawn e)" "handle_host X cfg e g = (f, h)"
  shows "out_post X (f, h)"
proof -
  obtain f1 g1 where 1: "(if re_in e then
           (case g_rx g of
              None \<Rightarrow> (G_next, g)
            | Some rx \<Rightarrow> host_readable X cfg (pe_spawn e) (pe_reads e) rx g)
         else (G_next, g)) = (f1, g1)"
    by fastforce
  have g1: "out_inv X g1"
  proof (cases "g_rx g")
    case None
    with 1 assms(1) show ?thesis by (simp split: if_splits)
  next
    case (Some rx)
    with 1 assms(1) host_readable_out [OF assms(1,2), of "pe_reads e" rx] show ?thesis
      by (simp split: if_splits)
  qed
  have p2: "out_post X (G_next, if re_out e then host_writable (pe_writes e) g1 else g1)"
    using host_writable_post [OF g1 refl] g1 by (simp add: out_post_inv)
  have quit: "out_post X (G_next, g') \<Longrightarrow> out_post X (G_next, g'\<lparr>g_quit := True\<rparr>)" for g'
    by (simp add: out_post_def)
  show ?thesis
    using assms(3) g1 p2 1 quit
    by (cases f1) (auto simp: handle_host_def Let_def out_post_inv split: if_splits)
qed

section \<open>A turn of the loop\<close>

lemma set_tx_keeps: "set_tx r g = (f, h) \<Longrightarrow> child h = child g \<and> appQuit h = appQuit g"
  by (auto simp: set_tx_def Let_def split: sum.splits)

lemma send_exit_keeps: "send_exit X g = (f, h) \<Longrightarrow> child h = child g \<and> appQuit h = appQuit g"
  unfolding send_exit_def by (drule set_tx_keeps) simp

lemma handle_app_keeps:
  "handle_appout X e g = (f, h) \<Longrightarrow> child h = child g \<and> appQuit h = appQuit g"
  "handle_apperr X e g = (f, h) \<Longrightarrow> child h = child g \<and> appQuit h = appQuit g"
  unfolding handle_appout_def handle_apperr_def
  by (auto simp: Let_def split: if_splits option.splits list.splits
      dest!: set_tx_keeps send_exit_keeps)

lemma handle_fd_out:
  assumes "xdr_library X" "\<not> gc_tty cfg" "out_inv X g" "fds_ok cfg s k g" "fd \<noteq> k" "fd \<noteq> -1" "0 \<le> s"
    "fd = s \<Longrightarrow> waits_ok g (pe_waits e)"
    "fd = appout g \<Longrightarrow> g_state g = G_RUNNING \<and> \<not> appOutEOF g"
    "fd = apperr g \<Longrightarrow> g_state g = G_RUNNING \<and> \<not> appErrEOF g"
    "handle_fd X cfg s k fd e g = (f, h)"
  shows "out_inv X h \<and> (fd \<noteq> s \<longrightarrow> child h = child g \<and> appQuit h = appQuit g) \<and>
    (fd \<noteq> appout g \<longrightarrow> appOutEOF h = appOutEOF g) \<and> (fd \<noteq> apperr g \<longrightarrow> appErrEOF h = appErrEOF g)"
proof -
  consider "fd = s" | "fd \<noteq> s" "fd = appin g" "fd \<noteq> appout g"
    | "fd \<noteq> s" "fd = appout g" | "fd \<noteq> s" "fd = apperr g" "fd \<noteq> appin g" "fd \<noteq> appout g"
    | "fd \<noteq> s" "fd \<noteq> appin g" "fd \<noteq> appout g" "fd \<noteq> apperr g" by blast
  then show ?thesis
  proof cases
    case 1
    with assms(5,11) have h: "handle_signal X e g = (f, h)" by (simp add: handle_fd_def)
    have "out_inv X h \<and> same_eof g h"
    proof (cases "revents e \<and> pe_sigread e")
      case True
      with h have "reap X (pe_waits e) g = (f, h)" by (simp add: handle_signal_def)
      with reap_out [OF assms(1,3)] assms(8) 1 show ?thesis by blast
    next
      case False
      with h assms(3) show ?thesis by (auto simp: handle_signal_def split: if_splits)
    qed
    with 1 show ?thesis by (simp add: same_eof_def)
  next
    case 2
    with assms(5,11) have h: "handle_appin e g = (f, h)" by (simp add: handle_fd_def)
    then have same: "same_out g h"
      by (auto simp: handle_appin_def write_stdin_out split: if_splits)
    then have "out_inv X h" using assms(3) same_out_inv by blast
    with same show ?thesis by (simp add: same_out_def)
  next
    case 3
    with assms(9) have g: "g_state g = G_RUNNING" "\<not> appOutEOF g" by simp_all
    with assms(2,4,6) 3 have "fd \<noteq> appin g" "fd \<noteq> apperr g" by (auto simp: fds_ok_def)
    with assms(5,11) 3 have h: "handle_appout X e g = (f, h)" by (simp add: handle_fd_def)
    from handle_appout_out [OF assms(1,3) g h] handle_app_keeps(1) [OF h] 3 show ?thesis by simp
  next
    case 4
    with assms(10) have g: "g_state g = G_RUNNING" "\<not> appErrEOF g" by simp_all
    with assms(5,11) 4 have h: "handle_apperr X e g = (f, h)" by (simp add: handle_fd_def)
    from handle_apperr_out [OF assms(1,3) g h] handle_app_keeps(2) [OF h] 4 show ?thesis by simp
  next
    case 5
    with assms(3,5,11) show ?thesis by (simp add: handle_fd_def)
  qed
qed

text \<open>What the poll set of the application's descriptors guarantees about each entry.\<close>

definition app_entries :: "int \<Rightarrow> guest \<Rightarrow> (pollfd \<times> poll_event) list \<Rightarrow> bool" where
  "app_entries s g xs \<longleftrightarrow> distinct (map (fst \<circ> fst) xs) \<and>
     (\<forall>x \<in> set xs. let fd = fst (fst x); e = snd x in
        fd \<noteq> -1 \<and> (fd = s \<longrightarrow> waits_ok g (pe_waits e)) \<and>
        (fd = appout g \<longrightarrow> g_state g = G_RUNNING \<and> \<not> appOutEOF g) \<and>
        (fd = apperr g \<longrightarrow> g_state g = G_RUNNING \<and> \<not> appErrEOF g))"

lemma handle_fds_out:
  assumes "xdr_library X" "\<not> gc_tty cfg" "0 \<le> s" "out_inv X g" "in_inv X g" "fds_ok cfg s k g"
    "app_entries s g xs" "\<forall>x \<in> set xs. fst (fst x) \<noteq> k" "handle_fds X cfg s k xs g = (f, h)"
  shows "out_inv X h"
  using assms(4-9)
proof (induction xs arbitrary: g)
  case Nil
  then show ?case by simp
next
  case (Cons x xs)
  obtain fd ev e where x: "x = ((fd, ev), e)" by (metis prod.exhaust)
  obtain f1 g1 where 1: "handle_fd X cfg s k fd e g = (f1, g1)" by fastforce
  have ent: "fd \<noteq> -1" "fd = s \<Longrightarrow> waits_ok g (pe_waits e)"
    "fd = appout g \<Longrightarrow> g_state g = G_RUNNING \<and> \<not> appOutEOF g"
    "fd = apperr g \<Longrightarrow> g_state g = G_RUNNING \<and> \<not> appErrEOF g" "fd \<noteq> k"
    using Cons.prems(4,5) x by (simp_all add: app_entries_def Let_def)
  have g1: "out_inv X g1" "fd \<noteq> s \<Longrightarrow> child g1 = child g \<and> appQuit g1 = appQuit g"
    "fd \<noteq> appout g \<Longrightarrow> appOutEOF g1 = appOutEOF g" "fd \<noteq> apperr g \<Longrightarrow> appErrEOF g1 = appErrEOF g"
    using handle_fd_out [OF assms(1,2) Cons.prems(1,3) ent(5,1) assms(3) ent(2-4) 1] by simp_all
  have in1: "in_inv X g1" "same_fds g g1" using handle_fd_inv [OF Cons.prems(2) ent(5) 1] by simp_all
  have fds1: "fds_ok cfg s k g1" by (rule same_fds_ok [OF in1(2) Cons.prems(3)])
  have "app_entries s g1 xs"
    unfolding app_entries_def
  proof (intro conjI ballI)
    show "distinct (map (fst \<circ> fst) xs)" using Cons.prems(4) by (simp add: app_entries_def)
    fix y assume y: "y \<in> set xs"
    then have neq: "fst (fst y) \<noteq> fd" using Cons.prems(4) x by (force simp: app_entries_def)
    have waits: "waits_ok g1 = waits_ok g" if "fd \<noteq> s"
      using g1(2) [OF that] by (intro ext) (simp add: waits_ok_def)
    show "let fd = fst (fst y); e = snd y in
        fd \<noteq> -1 \<and> (fd = s \<longrightarrow> waits_ok g1 (pe_waits e)) \<and>
        (fd = appout g1 \<longrightarrow> g_state g1 = G_RUNNING \<and> \<not> appOutEOF g1) \<and>
        (fd = apperr g1 \<longrightarrow> g_state g1 = G_RUNNING \<and> \<not> appErrEOF g1)"
      using Cons.prems(4) y neq waits g1(3,4) in1(2)
      by (auto simp: app_entries_def Let_def same_fds_def)
  qed
  then have "out_inv X h" if "handle_fds X cfg s k xs g1 = (f, h)"
    using Cons.IH [OF g1(1) in1(1) fds1 _ _ that] Cons.prems(5) by simp
  then show ?case
    using Cons.prems(6) x 1 g1(1) by (cases f1) simp_all
qed

lemma app_set_entries:
  assumes "fds_ok cfg s k g" "\<not> gc_tty cfg" "0 \<le> s" "\<forall>e \<in> set es. waits_ok g (pe_waits e)"
  shows "app_entries s g (zip (app_set s g) es)"
proof -
  have ev: "appin_ev g \<Longrightarrow> g_state g = G_RUNNING \<and> appin g \<noteq> -1"
    "appout_ev g \<Longrightarrow> g_state g = G_RUNNING \<and> appout g \<noteq> -1 \<and> \<not> appOutEOF g"
    "apperr_ev g \<Longrightarrow> g_state g = G_RUNNING \<and> apperr g \<noteq> -1 \<and> \<not> appErrEOF g"
    by (simp_all add: appin_ev_def appout_ev_def apperr_ev_def)
  have fds: "appin g \<noteq> s" "appout g \<noteq> s" "apperr g \<noteq> s" 
    using assms(1,3) by (auto simp: fds_ok_def)
  have run: "g_state g = G_RUNNING \<Longrightarrow> appin g \<noteq> -1 \<Longrightarrow> appin g \<noteq> appout g \<and> appin g \<noteq> apperr g"
    "g_state g = G_RUNNING \<Longrightarrow> appout g \<noteq> apperr g"
    using assms(1,2) by (auto simp: fds_ok_def)
  have "distinct (map fst (app_set s g))"
    using ev fds run by (auto simp: app_set_def)
  then have "distinct (map (fst \<circ> fst) (zip (app_set s g) es))"
    by (simp add: map_fst_zip_take distinct_take flip: map_map take_map)
  moreover have "let fd = fst (fst x); e = snd x in
        fd \<noteq> -1 \<and> (fd = s \<longrightarrow> waits_ok g (pe_waits e)) \<and>
        (fd = appout g \<longrightarrow> g_state g = G_RUNNING \<and> \<not> appOutEOF g) \<and>
        (fd = apperr g \<longrightarrow> g_state g = G_RUNNING \<and> \<not> appErrEOF g)"
    if "x \<in> set (zip (app_set s g) es)" for x
  proof -
    have "fst x \<in> set (app_set s g)" "snd x \<in> set es"
      using that by (metis prod.collapse set_zip_leftD, metis prod.collapse set_zip_rightD)
    with assms(3,4) ev fds run show ?thesis by (auto simp: app_set_def Let_def split: if_splits)
  qed
  ultimately show ?thesis by (simp add: app_entries_def)
qed

lemma turn_out:
  assumes "xdr_library X" "\<not> gc_tty cfg" "out_inv X g" "in_inv X g" "fds_ok cfg s k g"
    "\<forall>e \<in> set es. spawn_ok cfg s k (pe_spawn e) \<and> waits_ok g (pe_waits e)" "s \<noteq> k" "0 \<le> s" "0 \<le> k"
    "handle_fds X cfg s k (zip (poll_set s k g) es) g = (f, h)"
  shows "out_post X (f, h)"
proof -
  obtain f1 g1 where 1: "handle_fds X cfg s k (zip (app_set s g) es) g = (f1, g1)"
    "f1 = G_cleanup \<and> f = G_cleanup \<and> h = g1 \<or> f1 = G_next \<and> f = G_next \<and> h = g1 \<or>
     f1 = G_next \<and> (\<exists>e \<in> set es. handle_host X cfg e g1 = (f, h))"
    by (rule turn_parts [OF assms(10,7)])
  have "app_entries s g (zip (app_set s g) es)"
    using app_set_entries [OF assms(5,2,8)] assms(6) by blast
  moreover have "\<forall>x \<in> set (zip (app_set s g) es). fst (fst x) \<noteq> k"
    by (rule app_set_not_host [OF assms(5,7,9)])
  ultimately have g1: "out_inv X g1"
    using handle_fds_out [OF assms(1,2,8,3-5) _ _ 1(1)] by blast
  from 1(2) consider "h = g1" | e where "e \<in> set es" "handle_host X cfg e g1 = (f, h)" by auto
  then show ?thesis
  proof cases
    case 1
    with g1 show ?thesis by (simp add: out_post_inv)
  next
    case (2 e)
    with assms(6) have "spawn_ok cfg s k (pe_spawn e)" by simp
    from handle_host_out [OF g1 this 2(2)] show ?thesis .
  qed
qed

lemma guest_init_out: "out_inv X guest_init"
  by (simp add: out_inv_def guest_init_def idle_out_def tx_ok_def)

lemma guest_run_out:
  assumes "guest_run X cfg s k g" "xdr_library X" "\<not> gc_tty cfg" "s \<noteq> k" "0 \<le> s" "0 \<le> k"
  shows "out_hist X g \<and> (\<not> g_quit g \<longrightarrow> out_inv X g)"
  using assms(1)
proof (induction rule: guest_run.induct)
  case init
  show ?case using guest_init_out out_inv_hist by blast
next
  case (turn g pr g')
  from turn.hyps(3) obtain es where es: "\<not> g_quit g" "pr = Poll_ready es"
    "handle_fds X cfg s k (zip (poll_set s k g) es) g = (G_next, g')"
    by (auto simp: loop_turn_def split: if_splits poll_result.splits prod.splits guest_flow.splits)
  moreover have "\<forall>e \<in> set es. spawn_ok cfg s k (pe_spawn e) \<and> waits_ok g (pe_waits e)"
    using turn.hyps(2) es(2) by (simp add: turn_ok_def list_all_iff)
  moreover have "guest_inv X cfg s k g"
    by (rule guest_run_inv [OF turn.hyps(1) assms(2,4-6)])
  ultimately have "out_post X (G_next, g')"
    using turn_out [OF assms(2,3) _ _ _ _ assms(4-6) es(3)] turn.IH by (simp add: guest_inv_def)
  then show ?case by (auto simp: out_post_def)
qed

end
