(* ===== verification/Guest_Claims.thy ===== *)
theory Guest_Claims
  imports Guest_Run Guest_Tx
begin

text \<open>
  The properties of the guest's event loop: what it delivers to the command, what it sends to the
  host, when it starts the command, and the ways in which it gets stuck or loses information.
\<close>

section \<open>Input\<close>

lemma read_messages_prefix:
  assumes "xdr_library X" "read_messages X g ns part" "prefix (hostRead g) (host_stream X n ms)" "fits ms"
  shows "prefix ns ms"
proof -
  obtain bs where bs: "sync_read (hostRead g) (bs @ part)" "framed (rpc_frame X) bs ns"
    using assms(2) by (auto simp: read_messages_def)
  then have "handshaken (hostRead g) (bs @ part)"
    by (auto simp: sync_read_def handshaken_def simp del: replicate.simps)
  moreover have "HANDSHAKE_SYNC \<notin> set (replicate n HANDSHAKE_WAIT)" by simp
  ultimately have "prefix (bs @ part) (wires X ms)"
    using handshaken_guest_stream [of "hostRead g" "bs @ part" "replicate n HANDSHAKE_WAIT" "wires X ms"]
      assms(3) by (simp add: host_stream_def)
  then have "prefix bs (wires X ms)" by (metis append_prefixD)
  moreover have "framed (rpc_frame X) (wires X ms) ms"
    using assms(1,4) by (simp add: xdr_library.wires_framed)
  ultimately show ?thesis
    using frame_format.framed_prefix [OF rpc_frame_format bs(2)] by blast
qed

lemma guest_stdin_prefix:
  assumes "xdr_library X" and "guest_run X cfg s k g" and "s \<noteq> k" and "0 \<le> s" and "0 \<le> k"
    and "prefix (hostRead g) (host_stream X n ms)" and "fits ms"
  shows "prefix (appSent g) (data_of PROC_STDIN ms)"
proof -
  have "in_hist X g"
    using guest_run_inv [OF assms(2,1,3-5)] by (simp add: guest_inv_def)
  then consider "appSent g = []"
    | ns part where "read_messages X g ns part" "prefix (appSent g) (data_of PROC_STDIN ns)"
    by (auto simp: in_hist_def)
  then show ?thesis
  proof cases
    case 2
    then have "prefix ns ms" using read_messages_prefix [OF assms(1) _ assms(6,7)] by blast
    then have "prefix (data_of PROC_STDIN ns) (data_of PROC_STDIN ms)" by (rule data_of_prefix)
    with 2(2) show ?thesis by (rule prefix_order.trans)
  qed simp
qed

text \<open>
  C8. If the host sends WAIT bytes, a SYNC and then the packets \<open>ms\<close>, then however the stream is
  cut, whatever the other descriptors do, and also after the loop has decided to quit, the bytes
  written to the command's stdin are a prefix of the concatenated STDIN payloads of \<open>ms\<close>.
\<close>

theorem guest_stdin_in_order:
  assumes "xdr_library X" and "guest_run X cfg s k g" and "s \<noteq> k" and "0 \<le> s" and "0 \<le> k"
    and "prefix (hostRead g) (host_stream X n ms)" and "fits ms"
  shows "prefix (appSent g) (data_of PROC_STDIN ms)"
  using assms by (rule guest_stdin_prefix)

definition input_messages :: "message list" where
  "input_messages =
     [(\<lparr>h_proc = PROC_STDIN, h_type = TYPE_DATA, h_status = STATUS_OK, h_serial = 0\<rparr>, [104, 105]),
      (\<lparr>h_proc = PROC_QUIT, h_type = TYPE_MESSAGE, h_status = STATUS_OK, h_serial = 1\<rparr>, [])]"

lemma input_stream: "host_stream rfc4506 1 input_messages = [27, 28] @ stdin_packet @ quit_packet"
  by (simp add: host_stream_def wires_def input_messages_def wire_def xbytes_def rfc4506_def
      u_int_filter_def header_filter_def iso_filter_def seq_filter_def be32_def proc_defs TYPE_DATA_def
      TYPE_MESSAGE_def STATUS_OK_def HANDSHAKE_SYNC_def HANDSHAKE_WAIT_def stdin_packet_def
      quit_packet_def)

theorem guest_stdin_in_order_witness:
  "appSent guest_done = [104, 105] \<and> prefix (appSent guest_done) (data_of PROC_STDIN input_messages)"
proof -
  have "hostRead guest_done = [27, 28] @ stdin_packet @ quit_packet" by (simp add: guest_done)
  then have "prefix (hostRead guest_done) (host_stream rfc4506 1 input_messages)"
    unfolding input_stream by simp
  moreover have "fits input_messages" by (simp add: fits_def input_messages_def size_defs)
  ultimately have "prefix (appSent guest_done) (data_of PROC_STDIN input_messages)"
    using guest_stdin_in_order [OF rfc.xdr_library_axioms guest_runs(5)] by simp
  then show ?thesis by (simp add: guest_done guest_states)
qed

text \<open>
  C9. The command is started at most once, and only after the host has sent one or more WAIT bytes
  and a SYNC and nothing else; without a command no input is delivered, and while the loop runs
  the state RUNNING is the same as having started it.
\<close>

theorem command_after_handshake:
  assumes "xdr_library X" and "guest_run X cfg s k g" and "s \<noteq> k" and "0 \<le> s" and "0 \<le> k"
  shows "commands g \<le> 1 \<and>
    (commands g = 0 \<longrightarrow> appSent g = []) \<and>
    (commands g = 1 \<longrightarrow>
       (\<exists>n b. hostRead g = replicate (Suc n) HANDSHAKE_WAIT @ HANDSHAKE_SYNC # b)) \<and>
    (g_quit g \<or> (commands g = 1 \<longleftrightarrow> g_state g = G_RUNNING))"
proof -
  have inv: "in_hist X g" "\<not> g_quit g \<longrightarrow> in_inv X g"
    using guest_run_inv [OF assms(2,1,3-5)] by (simp_all add: guest_inv_def)
  have "\<exists>n b. hostRead g = replicate (Suc n) HANDSHAKE_WAIT @ HANDSHAKE_SYNC # b" if "commands g = 1"
    using inv(1) that by (auto simp: in_hist_def read_messages_def sync_read_def simp del: replicate.simps)
  moreover have "g_quit g \<or> (commands g = 1 \<longleftrightarrow> g_state g = G_RUNNING)"
    using inv(2) by (cases "g_state g") (auto simp: in_inv_def no_app_def)
  ultimately show ?thesis using inv(1) by (auto simp: in_hist_def)
qed

theorem command_after_handshake_witness:
  "commands guest_synced = 1 \<and>
   (\<exists>n b. hostRead guest_synced = replicate (Suc n) HANDSHAKE_WAIT @ HANDSHAKE_SYNC # b)"
  using command_after_handshake [OF rfc.xdr_library_axioms guest_runs(1)]
  by (simp add: guest_synced)



section \<open>Output\<close>





section \<open>What goes wrong\<close>












text \<open>
  The status kept for the EXIT message is that of the last process reaped, whichever it was:
  a process adopted by init that dies after the command replaces the command's status.
\<close>

theorem last_reaped_status:
  assumes "reap X ws g = (G_next, h)"
  shows "exitstatus h =
    (case rev (takeWhile (\<lambda>(pid, _). pid \<noteq> -1 \<and> pid \<noteq> 0) ws) of
       [] \<Rightarrow> exitstatus g | (_, status) # _ \<Rightarrow> status)"
  using assms
proof (induction ws arbitrary: g)
  case Nil
  then show ?case by simp
next
  case (Cons w ws)
  obtain rv status where w: "w = (rv, status)" by fastforce
  let ?last = "\<lambda>ws d. case rev (takeWhile (\<lambda>(pid, _). pid \<noteq> -1 \<and> pid \<noteq> 0) ws) of
       [] \<Rightarrow> d | (_, status) # _ \<Rightarrow> status"
  have step: "?last (w # ws) d = ?last ws status" if "rv \<noteq> -1" "rv \<noteq> 0" for d
    using that w by (auto split: list.splits)
  have exit: "exitstatus k = exitstatus g'" if "send_exit X g' = (f, k)" for f k g'
    using that by (auto simp: send_exit_def set_tx_def Let_def split: sum.splits)
  show ?case
  proof (cases "rv = -1 \<or> rv = 0")
    case True
    with Cons.prems w show ?thesis by auto
  next
    case False
    then obtain k where k: "reap X ws k = (G_next, h)" "exitstatus k = status"
      using Cons.prems w exit by (auto simp: Let_def split: if_splits prod.splits guest_flow.splits)
    have "rv \<noteq> -1" "rv \<noteq> 0" using False by simp_all
    then have "?last (w # ws) (exitstatus g) = ?last ws status" by (rule step)
    with Cons.IH [OF k(1)] k(2) show ?thesis by metis
  qed
qed

theorem last_reaped_status_witness:
  "exitstatus (snd (reap rfc4506 [(99, 768), (100, 0)] guest_sent)) = 0 \<and> child guest_sent = 99"
  using last_reaped_status [of rfc4506 "[(99, 768), (100, 0)]" guest_sent]
  by (simp add: guest_states Let_def)

text \<open>
  What \<open>run_command\<close> leaves open. On success the parent keeps its ends and closes the
  child's. When a call fails, the pseudo-tty's two ends are closed, but of the pipes none: only -1
  is passed to \<open>close\<close>, and every pipe opened before the failing call leaks.
\<close>

theorem run_command_descriptors:
  assumes "\<forall>p \<in> {sp_openpty e, sp_pipein e, sp_pipeout e, sp_pipeerr e}.
     case p of None \<Rightarrow> True | Some (a, b) \<Rightarrow> 0 \<le> a \<and> 0 \<le> b"
  shows "case sr_child (run_command cfg e) of
      Some (pid, i, out, err) \<Rightarrow>
        sp_fork e = Some pid \<and>
        (if gc_tty cfg then \<exists>slave. sp_openpty e = Some (i, slave) \<and> out = i \<and> err = i \<and>
           sr_closed (run_command cfg e) = [slave]
         else \<exists>a b c. sp_pipein e = Some (a, i) \<and> sp_pipeout e = Some (out, b) \<and>
           sp_pipeerr e = Some (err, c) \<and> sr_closed (run_command cfg e) = [a, b, c])
    | None \<Rightarrow>
        (if gc_tty cfg then
           sr_closed (run_command cfg e) =
             (case sp_openpty e of None \<Rightarrow> [] | Some (master, slave) \<Rightarrow> [master, slave])
         else \<forall>fd \<in> set (sr_closed (run_command cfg e)). fd = -1)"
proof (cases "gc_tty cfg")
  case True
  with assms show ?thesis
    by (cases "sp_openpty e"; cases "sp_fork e")
      (auto simp: run_command_def Let_def spawn_error_def close_if_def)
next
  case False
  consider "sp_pipein e = None" | "sp_pipein e \<noteq> None" "sp_pipeout e = None"
    | "sp_pipein e \<noteq> None" "sp_pipeout e \<noteq> None" "sp_pipeerr e = None"
    | "sp_pipein e \<noteq> None" "sp_pipeout e \<noteq> None" "sp_pipeerr e \<noteq> None" by blast
  then show ?thesis
  proof cases
    case 4
    with False assms show ?thesis
      by (cases "sp_fork e") (auto simp: run_command_def Let_def spawn_error_def close_if_def)
  qed (use False assms in \<open>auto simp: run_command_def Let_def spawn_error_def close_if_def\<close>)
qed

theorem run_command_descriptors_witness:
  "sr_child (run_command run_cfg (run_spawn\<lparr>sp_fork := None\<rparr>)) = None \<and>
   set (sr_closed (run_command run_cfg (run_spawn\<lparr>sp_fork := None\<rparr>))) \<subseteq> {-1}"
proof -
  have "sr_child (run_command run_cfg (run_spawn\<lparr>sp_fork := None\<rparr>)) = None"
    by (simp add: run_command_def run_cfg_def run_spawn_def spawn_error_def Let_def)
  with run_command_descriptors [of "run_spawn\<lparr>sp_fork := None\<rparr>" run_cfg] show ?thesis
    by (auto simp: run_cfg_def run_spawn_def)
qed

end
