(* ===== verification/Rpc_Session.thy ===== *)
theory Rpc_Session
  imports Console_Rpc_Tx Guest_Claims
begin


section \<open>A computed session\<close>

text \<open>The host reads two bytes of input and sends them; the guest's answer arrives and is shown.\<close>

definition session_typed :: rpc_console where
  "session_typed = stdin_read rfc4506 no_tty (Read_bytes [104, 105]) run_running"


definition answer_packet :: "byte list" where
  "answer_packet = [0, 0, 0, 22, 0, 0, 0, 2, 0, 0, 0, 1, 0, 0, 0, 0, 0, 0, 0, 0, 111, 107]"



lemma session_packets:
  "wire rfc4506 (host_header PROC_STDIN 0) [104, 105] = stdin_packet"
  "wire rfc4506 ok_header [111, 107] = answer_packet"
  by (simp_all add: answer_packet_def wire_def xbytes_def host_header_def ok_header_def stdin_packet_def rfc4506_def
      u_int_filter_def header_filter_def iso_filter_def seq_filter_def be32_def proc_defs TYPE_DATA_def STATUS_OK_def)

lemma session_typed: "session_typed = run_running\<lparr>stdinRead := [104, 105], serial := 1,
    tx := Some (wire_packet rfc4506 (host_header PROC_STDIN 0) [104, 105]), localStdinSource := False,
    stdinSources := 0, streamWatch := Some (True, True)\<rparr>"
  by (simp add: session_typed_def stdin_read_def run_states MAX_IO_def next_serial_def console_new_def
      xdr_library.build_stdin_eq [OF rfc.xdr_library_axioms] console_eval)





section \<open>The session\<close>



section \<open>An exit in the middle of a packet\<close>

text \<open>
  An EXIT that arrives while a STDIN packet is half sent makes the host drop the rest of it and send QUIT
  in its place: the guest, which still waits for the rest, takes the QUIT for input.
\<close>

definition session_half :: rpc_console where
  "session_half = stream_readwrite rfc4506 no_tty False True (Wrote 3) session_typed"

definition session_cut :: rpc_console where
  "session_cut = stream_readwrite rfc4506 no_tty True True (Wrote 20)
     (session_half\<lparr>fromGuest := fromGuest session_half @ [In_bytes exit_packet]\<rparr>)"

lemma session_half: "session_half = session_typed\<lparr>tx := Some ((wire_packet rfc4506 (host_header PROC_STDIN 0) [104, 105])
      \<lparr>bufferOffset := 3\<rparr>), toGuest := [27, 28] @ take 3 stdin_packet\<rparr>"
  by (simp add: session_half_def session_typed run_states console_new_def console_eval
      wire_packet_def session_packets stdin_packet_def)

lemma exit_cuts_packet: "toGuest session_cut = [27, 28] @ take 3 stdin_packet @
    [0, 0, 0, 20, 0, 0, 0, 5, 0, 0, 0, 1, 0, 0, 0, 0, 0, 0, 0, 1]"
  by (simp add: session_cut_def session_half session_typed run_states console_new_def console_eval
      packet_eval exit_packet_def wire_packet_def stdin_packet_def build_quit_def next_serial_def PROC_QUIT_def
      close_def detach_def stop_term_def)

end
