(* ===== verification/Cstring.thy ===== *)
theory Cstring
  imports Main "HOL-Library.Sublist" "HOL-Library.Word"
begin

text \<open>
  The C and GLib string functions the configuration code uses, on strings without NUL:
  \<open>strchr\<close>, \<open>g_strrstr\<close> of one character, \<open>g_str_has_prefix\<close>, \<open>strncmp\<close> against a literal,
  \<open>g_strsplit\<close>, \<open>strtol\<close>, \<open>g_ascii_strup\<close>, and the decimal of a printf \<open>%u\<close>; and the dotted
  names built with it.
\<close>

section \<open>Searching and splitting\<close>

text \<open>\<open>strchr\<close>: what is before and what is after the first occurrence.\<close>

fun strchr_split :: "char \<Rightarrow> string \<Rightarrow> (string \<times> string) option" where
  "strchr_split c [] = None"
| "strchr_split c (x # xs) =
     (if x = c then Some ([], xs)
      else case strchr_split c xs of None \<Rightarrow> None | Some (a, b) \<Rightarrow> Some (x # a, b))"

lemma strchr_split_parts: "strchr_split c s = Some (a, b) \<Longrightarrow> s = a @ c # b \<and> c \<notin> set a"
  by (induction s arbitrary: a) (auto split: if_splits option.splits)

lemma strchr_split_app: "c \<notin> set a \<Longrightarrow> strchr_split c (a @ c # b) = Some (a, b)"
  by (induction a) auto

lemma strchr_split_Some: "strchr_split c s = Some (a, b) \<longleftrightarrow> s = a @ c # b \<and> c \<notin> set a"
  using strchr_split_parts strchr_split_app by blast

lemma strchr_split_None: "strchr_split c s = None \<longleftrightarrow> c \<notin> set s"
  by (induction s) (auto split: option.splits)

text \<open>\<open>g_strrstr\<close> of a single character: the last occurrence.\<close>

definition strrchr_split :: "char \<Rightarrow> string \<Rightarrow> (string \<times> string) option" where
  "strrchr_split c s =
     (case strchr_split c (rev s) of None \<Rightarrow> None | Some (a, b) \<Rightarrow> Some (rev b, rev a))"

lemma strrchr_split_Some: "strrchr_split c s = Some (a, b) \<longleftrightarrow> s = a @ c # b \<and> c \<notin> set b"
proof -
  have "strrchr_split c s = Some (a, b) \<longleftrightarrow> strchr_split c (rev s) = Some (rev b, rev a)"
    by (auto simp: strrchr_split_def split: option.splits)
  also have "\<dots> \<longleftrightarrow> rev s = rev (a @ c # b) \<and> c \<notin> set b" by (simp add: strchr_split_Some)
  finally show ?thesis by (simp only: rev_is_rev_conv)
qed

text \<open>\<open>g_str_has_prefix\<close> and the rest behind the prefix.\<close>

fun strip_prefix :: "string \<Rightarrow> string \<Rightarrow> string option" where
  "strip_prefix [] s = Some s"
| "strip_prefix (p # ps) [] = None"
| "strip_prefix (p # ps) (x # xs) = (if x = p then strip_prefix ps xs else None)"

lemma strip_prefix_Some: "strip_prefix p s = Some r \<longleftrightarrow> s = p @ r"
  by (induction p s rule: strip_prefix.induct) auto

lemma strip_prefix_None: "strip_prefix p s = None \<longleftrightarrow> \<not> prefix p s"
  by (induction p s rule: strip_prefix.induct) auto

text \<open>\<open>strstr\<close>: what is before and what is after the first occurrence of a string.\<close>

fun strstr_split :: "string \<Rightarrow> string \<Rightarrow> (string \<times> string) option" where
  "strstr_split n [] = (if n = [] then Some ([], []) else None)"
| "strstr_split n (c # cs) =
     (case strip_prefix n (c # cs) of
        Some r \<Rightarrow> Some ([], r)
      | None \<Rightarrow> (case strstr_split n cs of None \<Rightarrow> None | Some (a, b) \<Rightarrow> Some (c # a, b)))"

lemma strstr_split_Some: "strstr_split n s = Some (a, b) \<Longrightarrow> s = a @ n @ b"
  by (induction n s arbitrary: a b rule: strstr_split.induct)
    (auto simp: strip_prefix_Some split: if_splits option.splits)

text \<open>
  \<open>strncmp(s, literal, n) == 0\<close> where the first \<open>n\<close> characters of \<open>s\<close> are \<open>a\<close>: the literal
  starts with them.
\<close>

definition strncmp_eq :: "string \<Rightarrow> string \<Rightarrow> bool" where
  "strncmp_eq a literal \<longleftrightarrow> strip_prefix a literal \<noteq> None"

lemma strncmp_eq_prefix: "strncmp_eq a literal \<longleftrightarrow> prefix a literal"
  by (metis strip_prefix_None strncmp_eq_def)

text \<open>\<open>g_strsplit(s, c, n)\<close> for \<open>n > 0\<close>: at most \<open>n\<close> pieces, none for the empty string.\<close>

fun split_pieces :: "char \<Rightarrow> nat \<Rightarrow> string \<Rightarrow> string list" where
  "split_pieces c 0 s = [s]"
| "split_pieces c (Suc n) s =
     (case strchr_split c s of None \<Rightarrow> [s] | Some (a, b) \<Rightarrow> a # split_pieces c n b)"

definition g_strsplit :: "string \<Rightarrow> char \<Rightarrow> nat \<Rightarrow> string list" where
  "g_strsplit s c n = (if s = [] then [] else split_pieces c (n - 1) s)"

lemma length_split_pieces: "length (split_pieces c n s) \<le> Suc n"
  by (induction c n s rule: split_pieces.induct) (auto split: option.splits)

section \<open>Numbers\<close>

definition is_digit :: "char \<Rightarrow> bool" where
  "is_digit c \<longleftrightarrow> 48 \<le> (of_char c :: nat) \<and> (of_char c :: nat) \<le> 57"

definition digit_val :: "char \<Rightarrow> int" where
  "digit_val c = int (of_char c) - 48"

text \<open>The value of a run of digits, and what follows it.\<close>

fun digits_val :: "int \<Rightarrow> string \<Rightarrow> int \<times> string" where
  "digits_val acc [] = (acc, [])"
| "digits_val acc (c # cs) = (if is_digit c then digits_val (10 * acc + digit_val c) cs else (acc, c # cs))"

definition LONG_MAX :: int where
  "LONG_MAX = 2 ^ 63 - 1"

definition LONG_MIN :: int where
  "LONG_MIN = - (2 ^ 63)"

definition is_space :: "char \<Rightarrow> bool" where
  "is_space c \<longleftrightarrow> c = CHR '' '' \<or> c \<in> {CHR 0x09, CHR 0x0A, CHR 0x0B, CHR 0x0C, CHR 0x0D}"

text \<open>
  \<open>strtol\<close> and \<open>g_ascii_strtoll\<close> in base 10, with 64-bit results: blanks, a sign, digits. The
  value is saturated; without a digit it is 0 and nothing is consumed.
\<close>

definition strtol :: "string \<Rightarrow> int \<times> string" where
  "strtol s =
     (let t = dropWhile is_space s;
          (neg, u) = (case t of [] \<Rightarrow> (False, t) | c # cs \<Rightarrow>
             if c = CHR ''-'' then (True, cs) else if c = CHR ''+'' then (False, cs) else (False, t))
      in if u = [] \<or> \<not> is_digit (hd u) then (0, s)
         else let (v, rest) = digits_val 0 u; w = (if neg then - v else v)
              in (max LONG_MIN (min LONG_MAX w), rest))"

text \<open>The decimal of an unsigned number.\<close>

fun dec_rev :: "nat \<Rightarrow> string" where
  "dec_rev n = char_of (48 + n mod 10) # (if n < 10 then [] else dec_rev (n div 10))"

declare dec_rev.simps [simp del]

definition dec :: "nat \<Rightarrow> string" where
  "dec n = rev (dec_rev n)"

text \<open>\<open>g_ascii_strup\<close>\<close>

definition ascii_up :: "string \<Rightarrow> string" where
  "ascii_up s = map (\<lambda>c. let n = of_char c :: nat in
     if 97 \<le> n \<and> n \<le> 122 then char_of (n - 32) else c) s"

lemma digit_char:
  assumes "k < 10"
  shows "is_digit (char_of (48 + k :: nat))" "digit_val (char_of (48 + k :: nat)) = int k"
    "char_of (48 + k :: nat) \<noteq> CHR ''.''" "char_of (48 + k :: nat) \<noteq> CHR ''-''"
    "char_of (48 + k :: nat) \<noteq> CHR ''+''" "\<not> is_space (char_of (48 + k :: nat))"
proof -
  have v: "(of_char (char_of (48 + k :: nat)) :: nat) = 48 + k" using assms by simp
  then show "is_digit (char_of (48 + k :: nat))" "digit_val (char_of (48 + k :: nat)) = int k"
    using assms by (simp_all add: is_digit_def digit_val_def)
  have ne: "char_of (48 + k :: nat) \<noteq> c" if "(of_char c :: nat) < 48" for c
    using v that by auto
  show "char_of (48 + k :: nat) \<noteq> CHR ''.''" "char_of (48 + k :: nat) \<noteq> CHR ''-''"
    "char_of (48 + k :: nat) \<noteq> CHR ''+''" "\<not> is_space (char_of (48 + k :: nat))"
    unfolding is_space_def by (simp_all add: ne)
qed

lemma dec_step: "dec n = (if n < 10 then [] else dec (n div 10)) @ [char_of (48 + n mod 10)]"
  by (subst (1) dec_def, subst dec_rev.simps) (simp add: dec_def)

lemma dec_chars: "c \<in> set (dec n) \<Longrightarrow> is_digit c \<and> c \<noteq> CHR ''.'' \<and> c \<noteq> CHR ''-'' \<and> c \<noteq> CHR ''+'' \<and> \<not> is_space c"
proof (induction n rule: less_induct)
  case (less n)
  have last: "c = char_of (48 + n mod 10) \<or> n \<ge> 10 \<and> c \<in> set (dec (n div 10))"
    using less.prems by (subst (asm) dec_step) (auto split: if_splits)
  show ?case
  proof (cases "c = char_of (48 + n mod 10)")
    case True
    with digit_char [of "n mod 10"] show ?thesis by simp
  next
    case False
    with last have "10 \<le> n" "c \<in> set (dec (n div 10))" by simp_all
    with less.IH [of "n div 10"] show ?thesis by simp
  qed
qed

lemma dec_not_Nil [simp]: "dec n \<noteq> []"
  by (subst dec_step) simp

lemma digits_val_dec: "digits_val 0 (dec n @ r) = digits_val (int n) r"
proof (induction n arbitrary: r rule: less_induct)
  case (less n)
  have d: "digits_val a (char_of (48 + n mod 10) # r) = digits_val (10 * a + int (n mod 10)) r" for a
    using digit_char [of "n mod 10"] by simp
  show ?case
  proof (cases "n < 10")
    case True
    then show ?thesis using d [of 0] by (subst dec_step) simp
  next
    case False
    then have "digits_val 0 (dec n @ r) = digits_val (int (n div 10)) (char_of (48 + n mod 10) # r)"
      using less.IH [of "n div 10" "char_of (48 + n mod 10) # r"] by (subst dec_step) simp
    also have "\<dots> = digits_val (10 * int (n div 10) + int (n mod 10)) r" by (rule d)
    also have "10 * int (n div 10) + int (n mod 10) = int n"
      by (metis mult_div_mod_eq of_nat_add of_nat_mult of_nat_numeral)
    finally show ?thesis .
  qed
qed

lemma strtol_dec_unit:
  assumes "r = [] \<or> \<not> is_digit (hd r)"
  shows "strtol (dec n @ r) = (min LONG_MAX (int n), r)"
proof -
  obtain d ds where d: "dec n = d # ds" using dec_not_Nil by (metis neq_Nil_conv)
  then have "d \<in> set (dec n)" by simp
  from dec_chars [OF this] have c: "is_digit d" "d \<noteq> CHR ''-''" "d \<noteq> CHR ''+''" "\<not> is_space d"
    by simp_all
  have "digits_val (int n) r = (int n, r)" using assms by (cases r) simp_all
  then have "digits_val 0 (d # ds @ r) = (int n, r)" using digits_val_dec [of n r] d by simp
  with c d show ?thesis
    by (simp add: strtol_def LONG_MIN_def LONG_MAX_def del: digits_val.simps)
qed

lemma strtol_dec: "strtol (dec n) = (min LONG_MAX (int n), [])"
  using strtol_dec_unit [of "[]" n] by simp

lemma dec_inject [simp]: "dec m = dec n \<longleftrightarrow> m = n"
proof
  assume "dec m = dec n"
  then have "digits_val (int m) [] = digits_val (int n) []" by (metis digits_val_dec)
  then show "m = n" by simp
qed simp

lemma dec_no_dot [simp]: "CHR ''.'' \<notin> set (dec n)"
  using dec_chars by blast

section \<open>Dotted names\<close>

text \<open>The names \<open>"mount.%u.include.%u"\<close> and the like: pieces without dots, joined by dots.\<close>

fun dotted :: "string list \<Rightarrow> string" where
  "dotted [] = []"
| "dotted [p] = p"
| "dotted (p # ps) = p @ CHR ''.'' # dotted ps"

lemma dotted_Cons: "ps \<noteq> [] \<Longrightarrow> dotted (p # ps) = p @ CHR ''.'' # dotted ps"
  by (cases ps) simp_all

definition pieces_ok :: "string list \<Rightarrow> bool" where
  "pieces_ok ps \<longleftrightarrow> ps \<noteq> [] \<and> (\<forall>p \<in> set ps. CHR ''.'' \<notin> set p)"

lemma dotted_inject: "pieces_ok ps \<Longrightarrow> pieces_ok qs \<Longrightarrow> dotted ps = dotted qs \<longleftrightarrow> ps = qs"
proof (induction ps arbitrary: qs)
  case Nil
  then show ?case by (simp add: pieces_ok_def)
next
  case (Cons p ps)
  from Cons.prems(2) obtain q qs' where qs: "qs = q # qs'" by (cases qs) (auto simp: pieces_ok_def)
  have np: "CHR ''.'' \<notin> set p" "CHR ''.'' \<notin> set q" using Cons.prems qs by (simp_all add: pieces_ok_def)
  show ?case
  proof (cases "ps = [] \<or> qs' = []")
    case True
    with np qs show ?thesis by (cases ps; cases qs') (auto simp: dotted_Cons)
  next
    case False
    then have "pieces_ok ps" "pieces_ok qs'" using Cons.prems qs by (simp_all add: pieces_ok_def)
    note IH = Cons.IH [OF this]
    have "p @ CHR ''.'' # dotted ps = q @ CHR ''.'' # dotted qs' \<longleftrightarrow> p = q \<and> dotted ps = dotted qs'"
      using np by (metis strchr_split_app append_same_eq list.inject option.inject prod.inject)
    with IH False qs show ?thesis by (simp add: dotted_Cons)
  qed
qed

end
