(* ===== verification/Glib.thy ===== *)
theory Glib
  imports Cstring Prelude
begin

text \<open>
  What the configuration code uses of GLib and libvirt-gconfig, as one record of functions: key
  files, internet addresses, the nicks of the two libvirt enumerations, type names and the order
  in which a hash table is iterated. Three locales state their documented behaviour; the record
  \<open>glib_ref\<close> is one implementation that obeys them.
\<close>

datatype kf_error = Group_not_found | Key_not_found | Bad_value

text \<open>
  \<open>'f\<close> is a key file in memory, \<open>'d\<close> its text, \<open>'ip\<close> an address. Booleans and numbers are kept in
  a key file as strings; \<open>kf_of_\<close> and \<open>kf_to_\<close> convert them. \<open>hash_order\<close> is the order in which
  the entries of a hash table with these contents are visited; \<open>prefix_prop\<close> is what a GObject
  property with range 0 to 128 holds after it was given a value; \<open>notify_string\<close> is whether
  \<open>g_object_notify\<close> comes back when it is called on the bytes of a string instead of an object, for
  which nothing is promised.
\<close>

record ('f, 'd, 'ip) glib =
  kf_new :: 'f
  kf_set :: "string \<Rightarrow> string \<Rightarrow> string \<Rightarrow> 'f \<Rightarrow> 'f"
  kf_get :: "'f \<Rightarrow> string \<Rightarrow> string \<Rightarrow> kf_error + string"
  kf_of_bool :: "bool \<Rightarrow> string"
  kf_to_bool :: "string \<Rightarrow> bool option"
  kf_of_u64 :: "64 word \<Rightarrow> string"
  kf_to_u64 :: "string \<Rightarrow> 64 word option"
  kf_to_data :: "'f \<Rightarrow> 'd"
  kf_of_data :: "'d \<Rightarrow> 'f option"
  utf8 :: "string \<Rightarrow> bool"
  inet_parse :: "string \<Rightarrow> 'ip option"
  inet_print :: "'ip \<Rightarrow> string"
  prefix_prop :: "32 word \<Rightarrow> 32 word"
  fmt_nick :: "int \<Rightarrow> string"
  fmt_value :: "string \<Rightarrow> int option"
  dtype_nick :: "int \<Rightarrow> string"
  dtype_value :: "string \<Rightarrow> int option"
  fmt_raw :: int
  dtype_file :: int
  type_known :: "string \<Rightarrow> bool"
  hash_order :: "(string \<times> string) list \<Rightarrow> (string \<times> string) list"
  notify_string :: "string \<Rightarrow> bool"

definition kf_get_bool :: "('f, 'd, 'ip) glib \<Rightarrow> 'f \<Rightarrow> string \<Rightarrow> string \<Rightarrow> kf_error + bool" where
  "kf_get_bool G f g k =
     (case kf_get G f g k of Inl e \<Rightarrow> Inl e
      | Inr s \<Rightarrow> (case kf_to_bool G s of None \<Rightarrow> Inl Bad_value | Some b \<Rightarrow> Inr b))"

definition kf_get_u64 :: "('f, 'd, 'ip) glib \<Rightarrow> 'f \<Rightarrow> string \<Rightarrow> string \<Rightarrow> kf_error + 64 word" where
  "kf_get_u64 G f g k =
     (case kf_get G f g k of Inl e \<Rightarrow> Inl e
      | Inr s \<Rightarrow> (case kf_to_u64 G s of None \<Rightarrow> Inl Bad_value | Some n \<Rightarrow> Inr n))"

definition kf_set_bool :: "('f, 'd, 'ip) glib \<Rightarrow> string \<Rightarrow> string \<Rightarrow> bool \<Rightarrow> 'f \<Rightarrow> 'f" where
  "kf_set_bool G g k b f = kf_set G g k (kf_of_bool G b) f"

definition kf_set_u64 :: "('f, 'd, 'ip) glib \<Rightarrow> string \<Rightarrow> string \<Rightarrow> 64 word \<Rightarrow> 'f \<Rightarrow> 'f" where
  "kf_set_u64 G g k n f = kf_set G g k (kf_of_u64 G n) f"

section \<open>Key files\<close>

locale key_file =
  fixes G :: "('f, 'd, 'ip) glib"
  assumes get_new: "kf_get G (kf_new G) g k = Inl Group_not_found"
    and get_set: "utf8 G v \<Longrightarrow> kf_get G (kf_set G g k v f) g k = Inr v"
    and get_set_key: "k' \<noteq> k \<Longrightarrow> kf_get G (kf_set G g k v f) g k' =
      (case kf_get G f g k' of Inl Group_not_found \<Rightarrow> Inl Key_not_found | r \<Rightarrow> r)"
    and get_set_group: "g' \<noteq> g \<Longrightarrow> kf_get G (kf_set G g k v f) g' k' = kf_get G f g' k'"
    and bool_conv: "kf_to_bool G (kf_of_bool G b) = Some b"
    and u64_conv: "kf_to_u64 G (kf_of_u64 G n) = Some n"
    and utf8_ascii: "\<forall>c \<in> set s. (of_char c :: nat) < 128 \<Longrightarrow> utf8 G s"
    and utf8_conv: "utf8 G (kf_of_bool G b)" "utf8 G (kf_of_u64 G n)"
    and data: "\<exists>f'. kf_of_data G (kf_to_data G f) = Some f' \<and> kf_get G f' = kf_get G f"

text \<open>A sequence of writes, and what a read finds after it.\<close>

type_synonym kf_write = "string \<times> string \<times> string"

definition kf_writes :: "('f, 'd, 'ip) glib \<Rightarrow> kf_write list \<Rightarrow> 'f \<Rightarrow> 'f" where
  "kf_writes G ws f = fold (\<lambda>(g, k, v). kf_set G g k v) ws f"

definition kf_section :: "string \<Rightarrow> kf_write list \<Rightarrow> (string \<times> string) list" where
  "kf_section g ws = map snd (filter (\<lambda>w. fst w = g) ws)"

definition section_get :: "(string \<times> string) list \<Rightarrow> string \<Rightarrow> kf_error + string" where
  "section_get kvs k =
     (if kvs = [] then Inl Group_not_found
      else case map_of (rev kvs) k of None \<Rightarrow> Inl Key_not_found | Some v \<Rightarrow> Inr v)"

lemma kf_writes_simps [simp]:
  "kf_writes G [] f = f"
  "kf_writes G ((g, k, v) # ws) f = kf_writes G ws (kf_set G g k v f)"
  by (simp_all add: kf_writes_def)

lemma kf_writes_append [simp]: "kf_writes G (ws @ vs) f = kf_writes G vs (kf_writes G ws f)"
  by (simp add: kf_writes_def)

lemma kf_section_simps [simp]:
  "kf_section g [] = []"
  "kf_section g ((g', k, v) # ws) = (if g' = g then (k, v) # kf_section g ws else kf_section g ws)"
  "kf_section g (ws @ vs) = kf_section g ws @ kf_section g vs"
  by (simp_all add: kf_section_def)

definition writes_utf8 :: "('f, 'd, 'ip) glib \<Rightarrow> kf_write list \<Rightarrow> bool" where
  "writes_utf8 G ws \<longleftrightarrow> list_all (\<lambda>(g, k, v). utf8 G v) ws"

lemma writes_utf8_simps [simp]:
  "writes_utf8 G []" "writes_utf8 G ((g, k, v) # ws) \<longleftrightarrow> utf8 G v \<and> writes_utf8 G ws"
  "writes_utf8 G (ws @ vs) \<longleftrightarrow> writes_utf8 G ws \<and> writes_utf8 G vs"
  by (simp_all add: writes_utf8_def)

context key_file
begin

lemma get_writes:
  "writes_utf8 G ws \<Longrightarrow> kf_get G (kf_writes G ws (kf_new G)) g k = section_get (kf_section g ws) k"
proof (induction ws rule: rev_induct)
  case Nil
  then show ?case by (simp add: section_get_def get_new)
next
  case (snoc w ws)
  obtain g' k' v where w: "w = (g', k', v)" by (metis prod_cases3)
  with snoc.prems have v: "utf8 G v" by simp
  from snoc w have IH: "kf_get G (kf_writes G ws (kf_new G)) g k = section_get (kf_section g ws) k"
    by simp
  consider "g' \<noteq> g" | "g' = g" "k' = k" | "g' = g" "k' \<noteq> k" by blast
  then show ?case
  proof cases
    case 1
    with IH w show ?thesis by (simp add: get_set_group)
  next
    case 2
    with v w show ?thesis by (simp add: get_set section_get_def)
  next
    case 3
    with IH w get_set_key [of k k' g v] show ?thesis
      by (auto simp: section_get_def split: option.splits)
  qed
qed

lemma get_bool_section:
  assumes "writes_utf8 G ws"
  shows "kf_get_bool G (kf_writes G ws (kf_new G)) g k =
    (case section_get (kf_section g ws) k of Inl e \<Rightarrow> Inl e
     | Inr s \<Rightarrow> (case kf_to_bool G s of None \<Rightarrow> Inl Bad_value | Some b \<Rightarrow> Inr b))"
  by (simp add: kf_get_bool_def get_writes [OF assms])

lemma get_u64_section:
  assumes "writes_utf8 G ws"
  shows "kf_get_u64 G (kf_writes G ws (kf_new G)) g k =
    (case section_get (kf_section g ws) k of Inl e \<Rightarrow> Inl e
     | Inr s \<Rightarrow> (case kf_to_u64 G s of None \<Rightarrow> Inl Bad_value | Some n \<Rightarrow> Inr n))"
  by (simp add: kf_get_u64_def get_writes [OF assms])

lemma utf8_dec: "utf8 G (dec n)"
proof (rule utf8_ascii)
  have "(of_char c :: nat) \<le> 57" if "c \<in> set (dec n)" for c
    using dec_chars [OF that] by (simp add: is_digit_def)
  then show "\<forall>c \<in> set (dec n). (of_char c :: nat) < 128" by fastforce
qed

end

section \<open>Addresses, enumerations, hash tables\<close>

locale inet =
  fixes G :: "('f, 'd, 'ip) glib"
  assumes inet_conv: "inet_parse G (inet_print G a) = Some a"
    and utf8_inet: "utf8 G (inet_print G a)"
    and prefix_prop_ok: "n \<le> 128 \<Longrightarrow> prefix_prop G n = n"

locale disk_enums =
  fixes G :: "('f, 'd, 'ip) glib"
  assumes fmt_conv: "fmt_value G s = Some n \<Longrightarrow> fmt_value G (fmt_nick G n) = Some n \<and> 0 \<le> n"
    and dtype_conv: "dtype_value G s = Some n \<Longrightarrow> dtype_value G (dtype_nick G n) = Some n"
    and utf8_nicks: "utf8 G (fmt_nick G n)" "utf8 G (dtype_nick G n)"
    and fmt_raw_valid: "\<exists>s. fmt_value G s = Some (fmt_raw G)"
    and dtype_file_valid: "\<exists>s. dtype_value G s = Some (dtype_file G)"

locale hash_table =
  fixes G :: "('f, 'd, 'ip) glib"
  assumes hash_order_perm: "distinct (map fst kvs) \<Longrightarrow>
    distinct (map fst (hash_order G kvs)) \<and> map_of (hash_order G kvs) = map_of kvs \<and>
    length (hash_order G kvs) = length kvs"

locale glib_laws = key_file + inet + disk_enums + hash_table

section \<open>An implementation\<close>

definition ascii :: "string \<Rightarrow> bool" where
  "ascii s = list_all (\<lambda>c. (of_char c :: nat) < 128) s"

definition format_table :: "(string \<times> int) list" where
  "format_table = [(''raw'', 0), (''dir'', 1), (''bochs'', 2), (''cloop'', 3), (''cow'', 4), (''dmg'', 5),
     (''iso'', 6), (''qcow'', 7), (''qcow2'', 8), (''qed'', 9), (''vmdk'', 10), (''vpc'', 11)]"

definition dtype_table :: "(string \<times> int) list" where
  "dtype_table = [(''file'', 0), (''block'', 1), (''dir'', 2), (''network'', 3)]"

definition nick_in :: "(string \<times> int) list \<Rightarrow> int \<Rightarrow> string" where
  "nick_in tbl n = (case find (\<lambda>(_, m). m = n) tbl of None \<Rightarrow> [] | Some (s, _) \<Rightarrow> s)"

definition glib_ref :: "(kf_write list, kf_write list, nat) glib" where
  "glib_ref = \<lparr>
     kf_new = [], kf_set = \<lambda>g k v f. f @ [(g, k, v)], kf_get = \<lambda>f g k. section_get (kf_section g f) k,
     kf_of_bool = \<lambda>b. if b then ''true'' else ''false'',
     kf_to_bool = \<lambda>s. if s = ''true'' then Some True else if s = ''false'' then Some False else None,
     kf_of_u64 = \<lambda>n. dec (unat n),
     kf_to_u64 = \<lambda>s. (let (v, r) = digits_val 0 s in
        if s \<noteq> [] \<and> r = [] \<and> v < 2 ^ 64 then Some (of_int v) else None),
     kf_to_data = \<lambda>f. f, kf_of_data = Some, utf8 = ascii,
     inet_parse = \<lambda>s. (let (v, r) = digits_val 0 s in if s = dec (nat v) then Some (nat v) else None),
     inet_print = dec, prefix_prop = \<lambda>n. if n \<le> 128 then n else 0,
     fmt_nick = nick_in format_table, fmt_value = map_of format_table,
     dtype_nick = nick_in dtype_table, dtype_value = map_of dtype_table,
     fmt_raw = 0, dtype_file = 0, type_known = \<lambda>s. s = ''GObject'', hash_order = rev,
     notify_string = \<lambda>_. False\<rparr>"

lemma nick_in_table:
  "map_of tbl s = Some n \<Longrightarrow> distinct (map fst tbl) \<Longrightarrow> map_of tbl (nick_in tbl n) = Some n"
proof (induction tbl)
  case Nil
  then show ?case by simp
next
  case (Cons p tbl)
  obtain t m where p: "p = (t, m)" by fastforce
  show ?case
  proof (cases "m = n")
    case True
    with p show ?thesis by (simp add: nick_in_def)
  next
    case False
    with Cons p have IH: "map_of tbl (nick_in tbl n) = Some n" by (auto split: if_splits)
    have nick: "nick_in (p # tbl) n = nick_in tbl n" using False p by (simp add: nick_in_def)
    have "nick_in tbl n \<noteq> t"
      using Cons.prems(2) p map_of_SomeD [OF IH] by force
    with IH p nick show ?thesis by simp
  qed
qed

lemma ascii_Nil [simp]: "ascii []"
  by (simp add: ascii_def)

lemma ascii_dec [simp]: "ascii (dec n)"
proof -
  have "(of_char c :: nat) < 128" if "c \<in> set (dec n)" for c
    using dec_chars [OF that] by (simp add: is_digit_def)
  then show ?thesis by (simp add: ascii_def list_all_iff)
qed

lemma ascii_nick: "list_all (ascii \<circ> fst) tbl \<Longrightarrow> ascii (nick_in tbl n)"
  by (induction tbl) (auto simp: nick_in_def)

lemma map_of_rev_distinct: "distinct (map fst kvs) \<Longrightarrow> map_of (rev kvs) = map_of kvs"
proof (induction kvs)
  case (Cons p kvs)
  then show ?case by (cases p) (auto simp: map_add_upd_left map_of_eq_None_iff dom_map_of_conv_image_fst)
qed simp

interpretation ref_key_file: key_file glib_ref
proof
  fix b n
  show "utf8 glib_ref (kf_of_bool glib_ref b)" by (simp add: glib_ref_def ascii_def)
  show "utf8 glib_ref (kf_of_u64 glib_ref n)" by (simp add: glib_ref_def)
  have "int (unat n) < 2 ^ 64" using uint_lt2p [of n] by simp
  then show "kf_to_u64 glib_ref (kf_of_u64 glib_ref n) = Some n"
    using digits_val_dec [of "unat n" "[]"] by (simp add: glib_ref_def)
qed (auto simp: glib_ref_def section_get_def ascii_def list_all_iff split: option.splits)

interpretation ref_inet: inet glib_ref
proof
  show "inet_parse glib_ref (inet_print glib_ref a) = Some a" for a
    using digits_val_dec [of a "[]"] by (simp add: glib_ref_def)
qed (simp_all add: glib_ref_def)

interpretation ref_enums: disk_enums glib_ref
proof
  fix s n
  assume f: "fmt_value glib_ref s = Some n"
  then have "0 \<le> n" by (auto simp: glib_ref_def format_table_def split: if_splits)
  moreover have "map_of format_table (nick_in format_table n) = Some n"
    using f by (intro nick_in_table) (simp_all add: glib_ref_def format_table_def)
  ultimately show "fmt_value glib_ref (fmt_nick glib_ref n) = Some n \<and> 0 \<le> n"
    by (simp add: glib_ref_def)
next
  fix s n
  assume "dtype_value glib_ref s = Some n"
  then have "map_of dtype_table (nick_in dtype_table n) = Some n"
    by (intro nick_in_table) (simp_all add: glib_ref_def dtype_table_def)
  then show "dtype_value glib_ref (dtype_nick glib_ref n) = Some n"
    by (simp add: glib_ref_def)
next
  show "utf8 glib_ref (fmt_nick glib_ref n)" "utf8 glib_ref (dtype_nick glib_ref n)" for n
    using ascii_nick [of format_table n] ascii_nick [of dtype_table n]
    by (simp_all add: glib_ref_def, simp_all add: format_table_def dtype_table_def ascii_def)
  show "\<exists>s. fmt_value glib_ref s = Some (fmt_raw glib_ref)"
    by (rule exI [of _ "''raw''"]) (simp add: glib_ref_def format_table_def)
  show "\<exists>s. dtype_value glib_ref s = Some (dtype_file glib_ref)"
    by (rule exI [of _ "''file''"]) (simp add: glib_ref_def dtype_table_def)
qed

interpretation ref_hash: hash_table glib_ref
  by unfold_locales (simp add: glib_ref_def map_of_rev_distinct rev_map [symmetric])

interpretation ref_glib: glib_laws glib_ref ..

end
