(* ===== verification/Config_Types.thy ===== *)
theory Config_Types
  imports Glib "HOL-Library.AList"
begin

text \<open>
  The sandbox configuration: libvirt-sandbox-config.c and the objects it holds (mounts, disks,
  networks with addresses, routes and filters, and the per-class part of the interactive and the
  two service configurations). A GObject is a record of its private data; a string pointer that
  the code allows to be NULL is an \<open>option\<close>; a \<open>GHashTable\<close> is an association list with
  distinct keys, visited in the order \<open>hash_order\<close> gives it.
\<close>

section \<open>Parts\<close>

record 'ip net_address =
  na_primary :: "'ip option"
  na_prefix :: u32
  na_broadcast :: "'ip option"

record 'ip net_route =
  nr_target :: "'ip option"
  nr_prefix :: u32
  nr_gateway :: "'ip option"

record filter_parameter =
  fp_name :: "string option"
  fp_value :: "string option"

record filterref =
  fr_name :: "string option"
  fr_parameters :: "filter_parameter list"

record 'ip network =
  nw_dhcp :: bool
  nw_source :: "string option"
  nw_mac :: "string option"
  nw_addrs :: "'ip net_address list"
  nw_routes :: "'ip net_route list"
  nw_filterref :: "filterref option"

record disk =
  dk_type :: int
  dk_tag :: string
  dk_source :: string
  dk_format :: int

text \<open>The subclasses of the mount object, with their own data.\<close>

datatype mount_kind =
    Host_bind string
  | Host_image string int
  | Guest_bind string
  | Ram "64 word"

record mount =
  mt_target :: string
  mt_kind :: mount_kind
  mt_includes :: "(string \<times> string) list"

datatype config_class =
    Interactive bool "string list"
  | Service_systemd "string option"
  | Service_generic "string list"

record 'ip config =
  cf_class :: config_class
  cf_name :: "string option"
  cf_uuid :: "string option"
  cf_root :: string
  cf_arch :: string
  cf_kernrelease :: "string option"
  cf_kernpath :: "string option"
  cf_kmodpath :: "string option"
  cf_shell :: bool
  cf_uid :: u32
  cf_gid :: u32
  cf_username :: string
  cf_homedir :: string
  cf_networks :: "'ip network list"
  cf_mounts :: "mount list"
  cf_disks :: "disk list"
  cf_envs :: "(string \<times> string) list"
  cf_secLabel :: "string option"
  cf_secDynamic :: bool
  cf_debug :: bool
  cf_verbose :: bool

section \<open>Construction\<close>

text \<open>What \<open>uname\<close>, \<open>geteuid\<close>, \<open>getegid\<close> and GLib answer about the process.\<close>

record host_env =
  he_machine :: string
  he_euid :: u32
  he_egid :: u32
  he_user :: string
  he_home :: string

text \<open>
  \<open>g_object_new(type, "name", name, NULL)\<close>: the instance initialiser sets a default name, and
  then the construct-only properties \<open>name\<close> and \<open>uuid\<close> replace the defaults by what the caller
  gave, NULL if nothing.
\<close>

definition config_init :: "host_env \<Rightarrow> config_class \<Rightarrow> 'ip config" where
  "config_init E cls =
     \<lparr>cf_class = cls, cf_name = Some ''sandbox'', cf_uuid = None, cf_root = ''/'', cf_arch = he_machine E,
      cf_kernrelease = None, cf_kernpath = None, cf_kmodpath = None, cf_shell = False,
      cf_uid = he_euid E, cf_gid = he_egid E, cf_username = he_user E, cf_homedir = he_home E,
      cf_networks = [], cf_mounts = [], cf_disks = [], cf_envs = [],
      cf_secLabel = None, cf_secDynamic = True, cf_debug = False, cf_verbose = False\<rparr>"

definition config_new :: "host_env \<Rightarrow> config_class \<Rightarrow> string option \<Rightarrow> 'ip config" where
  "config_new E cls name = (config_init E cls)\<lparr>cf_name := name, cf_uuid := None\<rparr>"

definition interactive_init :: config_class where
  "interactive_init = Interactive False [''/bin/sh'']"

definition service_systemd_init :: config_class where
  "service_systemd_init = Service_systemd None"

definition service_generic_init :: config_class where
  "service_generic_init = Service_generic [''/bin/sh'']"

definition network_new :: "'ip network" where
  "network_new = \<lparr>nw_dhcp = True, nw_source = None, nw_mac = None, nw_addrs = [], nw_routes = [],
     nw_filterref = None\<rparr>"

definition network_address_new ::
  "('f, 'd, 'ip) glib \<Rightarrow> 'ip option \<Rightarrow> u32 \<Rightarrow> 'ip option \<Rightarrow> 'ip net_address" where
  "network_address_new G primary len broadcast =
     \<lparr>na_primary = primary, na_prefix = prefix_prop G len, na_broadcast = broadcast\<rparr>"

definition network_route_new ::
  "('f, 'd, 'ip) glib \<Rightarrow> 'ip option \<Rightarrow> u32 \<Rightarrow> 'ip option \<Rightarrow> 'ip net_route" where
  "network_route_new G target len gateway =
     \<lparr>nr_target = target, nr_prefix = prefix_prop G len, nr_gateway = gateway\<rparr>"

definition filter_parameter_new :: filter_parameter where
  "filter_parameter_new = \<lparr>fp_name = None, fp_value = None\<rparr>"

definition filterref_new :: filterref where
  "filterref_new = \<lparr>fr_name = None, fr_parameters = []\<rparr>"

definition mount_new :: "string \<Rightarrow> mount_kind \<Rightarrow> mount" where
  "mount_new target kind = \<lparr>mt_target = target, mt_kind = kind, mt_includes = []\<rparr>"

section \<open>Accessors\<close>

text \<open>
  The setters of the configuration and of a network; the getters are the fields. The strings that
  other code reads without looking for NULL (root, architecture, user and home) are never NULL here.
\<close>

definition set_uuid :: "string option \<Rightarrow> 'ip config \<Rightarrow> 'ip config" where
  "set_uuid x c = c\<lparr>cf_uuid := x\<rparr>"

definition set_root :: "string \<Rightarrow> 'ip config \<Rightarrow> 'ip config" where
  "set_root x c = c\<lparr>cf_root := x\<rparr>"

definition set_arch :: "string \<Rightarrow> 'ip config \<Rightarrow> 'ip config" where
  "set_arch x c = c\<lparr>cf_arch := x\<rparr>"

definition set_kernrelease :: "string option \<Rightarrow> 'ip config \<Rightarrow> 'ip config" where
  "set_kernrelease x c = c\<lparr>cf_kernrelease := x\<rparr>"

definition set_kernpath :: "string option \<Rightarrow> 'ip config \<Rightarrow> 'ip config" where
  "set_kernpath x c = c\<lparr>cf_kernpath := x\<rparr>"

definition set_kmodpath :: "string option \<Rightarrow> 'ip config \<Rightarrow> 'ip config" where
  "set_kmodpath x c = c\<lparr>cf_kmodpath := x\<rparr>"

definition set_username :: "string \<Rightarrow> 'ip config \<Rightarrow> 'ip config" where
  "set_username x c = c\<lparr>cf_username := x\<rparr>"

definition set_homedir :: "string \<Rightarrow> 'ip config \<Rightarrow> 'ip config" where
  "set_homedir x c = c\<lparr>cf_homedir := x\<rparr>"

definition set_security_label :: "string option \<Rightarrow> 'ip config \<Rightarrow> 'ip config" where
  "set_security_label x c = c\<lparr>cf_secLabel := x\<rparr>"

definition set_shell :: "bool \<Rightarrow> 'ip config \<Rightarrow> 'ip config" where
  "set_shell x c = c\<lparr>cf_shell := x\<rparr>"

definition set_userid :: "u32 \<Rightarrow> 'ip config \<Rightarrow> 'ip config" where
  "set_userid x c = c\<lparr>cf_uid := x\<rparr>"

definition set_groupid :: "u32 \<Rightarrow> 'ip config \<Rightarrow> 'ip config" where
  "set_groupid x c = c\<lparr>cf_gid := x\<rparr>"

definition set_security_dynamic :: "bool \<Rightarrow> 'ip config \<Rightarrow> 'ip config" where
  "set_security_dynamic x c = c\<lparr>cf_secDynamic := x\<rparr>"

definition config_set_debug :: "bool \<Rightarrow> 'ip config \<Rightarrow> 'ip config" where
  "config_set_debug x c = c\<lparr>cf_debug := x\<rparr>"

definition config_set_verbose :: "bool \<Rightarrow> 'ip config \<Rightarrow> 'ip config" where
  "config_set_verbose x c = c\<lparr>cf_verbose := x\<rparr>"

text \<open>The setters of the subclasses; on an object of another class they do nothing.\<close>

definition interactive_set_tty :: "bool \<Rightarrow> 'ip config \<Rightarrow> 'ip config" where
  "interactive_set_tty tty c =
     (case cf_class c of Interactive _ argv \<Rightarrow> c\<lparr>cf_class := Interactive tty argv\<rparr> | _ \<Rightarrow> c)"

definition interactive_set_command :: "string list \<Rightarrow> 'ip config \<Rightarrow> 'ip config" where
  "interactive_set_command argv c =
     (case cf_class c of Interactive tty _ \<Rightarrow> c\<lparr>cf_class := Interactive tty argv\<rparr> | _ \<Rightarrow> c)"

definition service_generic_set_command :: "string list \<Rightarrow> 'ip config \<Rightarrow> 'ip config" where
  "service_generic_set_command argv c =
     (case cf_class c of Service_generic _ \<Rightarrow> c\<lparr>cf_class := Service_generic argv\<rparr> | _ \<Rightarrow> c)"

definition service_systemd_set_boot_target :: "string option \<Rightarrow> 'ip config \<Rightarrow> 'ip config" where
  "service_systemd_set_boot_target target c =
     (case cf_class c of Service_systemd _ \<Rightarrow> c\<lparr>cf_class := Service_systemd target\<rparr> | _ \<Rightarrow> c)"

definition network_set_source :: "string option \<Rightarrow> 'ip network \<Rightarrow> 'ip network" where
  "network_set_source x n = n\<lparr>nw_source := x\<rparr>"

definition network_set_mac :: "string option \<Rightarrow> 'ip network \<Rightarrow> 'ip network" where
  "network_set_mac x n = n\<lparr>nw_mac := x\<rparr>"

definition network_set_dhcp :: "bool \<Rightarrow> 'ip network \<Rightarrow> 'ip network" where
  "network_set_dhcp x n = n\<lparr>nw_dhcp := x\<rparr>"

definition network_add_address :: "'ip net_address \<Rightarrow> 'ip network \<Rightarrow> 'ip network" where
  "network_add_address x n = n\<lparr>nw_addrs := nw_addrs n @ [x]\<rparr>"

definition network_add_route :: "'ip net_route \<Rightarrow> 'ip network \<Rightarrow> 'ip network" where
  "network_add_route x n = n\<lparr>nw_routes := nw_routes n @ [x]\<rparr>"

definition network_set_filterref :: "filterref \<Rightarrow> 'ip network \<Rightarrow> 'ip network" where
  "network_set_filterref x n = n\<lparr>nw_filterref := Some x\<rparr>"

lemmas config_setters = set_uuid_def set_root_def set_arch_def set_kernrelease_def set_kernpath_def set_kmodpath_def
  set_username_def set_homedir_def set_security_label_def set_shell_def set_userid_def set_groupid_def
  set_security_dynamic_def config_set_debug_def config_set_verbose_def

lemmas class_setters = interactive_set_tty_def interactive_set_command_def service_generic_set_command_def
  service_systemd_set_boot_target_def

lemmas network_setters = network_set_source_def network_set_mac_def network_set_dhcp_def network_add_address_def
  network_add_route_def network_set_filterref_def

section \<open>Operations\<close>

definition add_network :: "'ip config \<Rightarrow> 'ip network \<Rightarrow> 'ip config" where
  "add_network c net = c\<lparr>cf_networks := cf_networks c @ [net]\<rparr>"

definition add_env :: "'ip config \<Rightarrow> string \<Rightarrow> string \<Rightarrow> 'ip config" where
  "add_env c k v = c\<lparr>cf_envs := AList.update k v (cf_envs c)\<rparr>"

definition add_disk :: "'ip config \<Rightarrow> disk \<Rightarrow> 'ip config" where
  "add_disk c d = c\<lparr>cf_disks := cf_disks c @ [d]\<rparr>"

definition add_mount :: "'ip config \<Rightarrow> mount \<Rightarrow> 'ip config" where
  "add_mount c m = c\<lparr>cf_mounts := cf_mounts c @ [m]\<rparr>"

definition mount_add_include :: "mount \<Rightarrow> string \<Rightarrow> string \<Rightarrow> mount" where
  "mount_add_include m src dst = m\<lparr>mt_includes := AList.update dst src (mt_includes m)\<rparr>"

definition parameter_set_name :: "string option \<Rightarrow> filter_parameter \<Rightarrow> filter_parameter" where
  "parameter_set_name name q = q\<lparr>fp_name := name\<rparr>"

text \<open>
  \<open>set_value\<close> calls \<open>g_object_notify\<close> on the new value, a string, and not on the parameter; without a
  result when that does not come back.
\<close>

definition parameter_set_value :: "('f, 'd, 'ip) glib \<Rightarrow> string \<Rightarrow> filter_parameter \<Rightarrow> filter_parameter option" where
  "parameter_set_value G v q = (if notify_string G v then Some (q\<lparr>fp_value := Some v\<rparr>) else None)"

definition filterref_set_name :: "string option \<Rightarrow> filterref \<Rightarrow> filterref" where
  "filterref_set_name name f = f\<lparr>fr_name := name\<rparr>"

definition filterref_add_parameter :: "filter_parameter \<Rightarrow> filterref \<Rightarrow> filterref" where
  "filterref_add_parameter q f = f\<lparr>fr_parameters := fr_parameters f @ [q]\<rparr>"

text \<open>\<open>find_mount\<close>: the first mount with exactly this target.\<close>

fun find_mount :: "mount list \<Rightarrow> string \<Rightarrow> mount option" where
  "find_mount [] target = None"
| "find_mount (m # ms) target = (if mt_target m = target then Some m else find_mount ms target)"

text \<open>\<open>G_OBJECT_TYPE\<close> of a mount.\<close>

datatype mount_type = T_host_bind | T_host_image | T_guest_bind | T_ram

definition mount_type_of :: "mount \<Rightarrow> mount_type" where
  "mount_type_of m = (case mt_kind m of Host_bind _ \<Rightarrow> T_host_bind | Host_image _ _ \<Rightarrow> T_host_image
     | Guest_bind _ \<Rightarrow> T_guest_bind | Ram _ \<Rightarrow> T_ram)"

fun mounts_with_type :: "mount list \<Rightarrow> mount_type \<Rightarrow> mount list" where
  "mounts_with_type [] t = []"
| "mounts_with_type (m # ms) t =
     (if mount_type_of m = t then m # mounts_with_type ms t else mounts_with_type ms t)"

fun has_mounts_with_type :: "mount list \<Rightarrow> mount_type \<Rightarrow> bool" where
  "has_mounts_with_type [] t = False"
| "has_mounts_with_type (m # ms) t = (mount_type_of m = t \<or> has_mounts_with_type ms t)"

fun has_root_mount :: "mount list \<Rightarrow> bool" where
  "has_root_mount [] = False"
| "has_root_mount (m # ms) = (mt_target m = ''/'' \<or> has_root_mount ms)"

text \<open>\<open>get_command\<close> of the three classes; a NULL boot target ends the vector early.\<close>

definition get_command :: "'ip config \<Rightarrow> string list" where
  "get_command c = (case cf_class c of
       Interactive _ argv \<Rightarrow> argv
     | Service_generic argv \<Rightarrow> argv
     | Service_systemd None \<Rightarrow> [''/usr/lib/systemd/systemd'', ''--unit'']
     | Service_systemd (Some target) \<Rightarrow>
         [''/usr/lib/systemd/systemd'', ''--unit'', target, ''--log-target'', ''console'', ''--system''])"

lemma mounts_with_type_filter: "mounts_with_type ms t = filter (\<lambda>m. mount_type_of m = t) ms"
  by (induction ms) auto

lemma has_mounts_with_type_iff: "has_mounts_with_type ms t \<longleftrightarrow> mounts_with_type ms t \<noteq> []"
  by (induction ms) auto

lemma has_root_mount_iff: "has_root_mount ms \<longleftrightarrow> find_mount ms ''/'' \<noteq> None"
  by (induction ms) auto

end
