(* ===== verification/Config_Opts.thy ===== *)
theory Config_Opts
  imports Config_Types
begin

text \<open>
  The option parsers of libvirt-sandbox-config.c: what the command line hands to
  \<open>add_network_opts\<close>, \<open>add_env_opts\<close>, \<open>add_disk_opts\<close>, \<open>add_mount_opts\<close>, \<open>add_host_include_strv\<close>,
  \<open>add_host_include_file\<close> and \<open>set_security_opts\<close>, and the two functions on image formats of
  libvirt-sandbox-util.c. A parser that fails returns its error; the \<open>_strv\<close> loops have then
  already added the earlier elements, so they return the configuration as well.
\<close>

datatype config_error =
    No_type_prefix string
  | Unknown_type_prefix string
  | Unimplemented_type string
  | Missing_source string
  | Unknown_format string
  | Bad_env string
  | Dhcp_with_static
  | Static_with_dhcp
  | Routes_without_addresses
  | Missing_gateway string
  | Bad_address string
  | No_filter_assignment
  | Unknown_parameter string
  | No_mount_for string
  | Unknown_security string
  | No_context
  | Missing_key string
  | Key_file_error kf_error
  | Unknown_class string
  | Io_error
  | Undefined_behaviour

fun add_strv :: "(string \<Rightarrow> 'c \<Rightarrow> config_error + 'c) \<Rightarrow> string list \<Rightarrow> 'c \<Rightarrow> 'c \<times> config_error option" where
  "add_strv f [] c = (c, None)"
| "add_strv f (s # ss) c =
     (case f s c of Inl e \<Rightarrow> (c, Some e) | Inr c' \<Rightarrow> add_strv f ss c')"

section \<open>Image formats\<close>

definition disk_format_from_str :: "('f, 'd, 'ip) glib \<Rightarrow> string \<Rightarrow> int option" where
  "disk_format_from_str G s = fmt_value G s"

definition guess_image_format :: "('f, 'd, 'ip) glib \<Rightarrow> string \<Rightarrow> int option" where
  "guess_image_format G path =
     (case strrchr_split CHR ''.'' path of
        None \<Rightarrow> None
      | Some (_, ext) \<Rightarrow> if ext = ''img'' then Some (fmt_raw G) else disk_format_from_str G ext)"

section \<open>Networks\<close>

text \<open>
  The state of the loop over the parameters. The filter object is shared: once it is attached to
  the network, parameters added to it later belong to the network's filter too.
\<close>

record 'ip net_parse =
  np_net :: "'ip network"
  np_filter :: filterref
  np_attached :: bool
  np_gotaddr :: bool
  np_gotroute :: bool
  np_gotdhcp :: bool

text \<open>\<open>ADDR[/PREFIX][%OTHER]\<close>, the prefix being 24 when it is not given.\<close>

definition split_address :: "string \<Rightarrow> string \<times> u32 \<times> string option" where
  "split_address s =
     (case strchr_split CHR ''/'' s of
        Some (a, r) \<Rightarrow>
          (a, of_int (fst (strtol r)),
           (case strchr_split CHR ''%'' r of None \<Rightarrow> None | Some (_, b) \<Rightarrow> Some b))
      | None \<Rightarrow>
          (case strchr_split CHR ''%'' s of
             None \<Rightarrow> (s, 24, None)
           | Some (a, b) \<Rightarrow> (a, 24, Some b)))"

definition parse_address ::
  "('f, 'd, 'ip) glib \<Rightarrow> string \<Rightarrow> 'ip net_parse \<Rightarrow> config_error + 'ip net_parse" where
  "parse_address G s p =
     (if np_gotdhcp p then Inl Static_with_dhcp
      else
        let (primary, len, bcast) = split_address s in
        case inet_parse G primary of
          None \<Rightarrow> Inl (Bad_address primary)
        | Some a \<Rightarrow>
          (case (case bcast of None \<Rightarrow> Inr None
                 | Some b \<Rightarrow> (case inet_parse G b of None \<Rightarrow> Inl (Bad_address b) | Some x \<Rightarrow> Inr (Some x)))
           of Inl e \<Rightarrow> Inl e
            | Inr bc \<Rightarrow>
                Inr (p\<lparr>np_gotaddr := True,
                       np_net := network_set_dhcp False (network_add_address
                                   (network_address_new G (Some a) len bc) (np_net p))\<rparr>)))"

definition parse_route ::
  "('f, 'd, 'ip) glib \<Rightarrow> string \<Rightarrow> 'ip net_parse \<Rightarrow> config_error + 'ip net_parse" where
  "parse_route G s p =
     (if np_gotdhcp p then Inl Static_with_dhcp
      else
        let (target, len, gateway) = split_address s in
        case gateway of
          None \<Rightarrow> Inl (Missing_gateway (''route='' @ s))
        | Some gw \<Rightarrow>
          (case inet_parse G target of
             None \<Rightarrow> Inl (Bad_address target)
           | Some t \<Rightarrow>
             (case inet_parse G gw of
                None \<Rightarrow> Inl (Bad_address gw)
              | Some g \<Rightarrow>
                  Inr (p\<lparr>np_gotroute := True,
                         np_net := network_set_dhcp False (network_add_route
                                     (network_route_new G (Some t) len (Some g)) (np_net p))\<rparr>))))"

definition parse_filter_parameter ::
  "('f, 'd, 'ip) glib \<Rightarrow> string \<Rightarrow> 'ip net_parse \<Rightarrow> config_error + 'ip net_parse" where
  "parse_filter_parameter G tail p =
     (case strrchr_split CHR ''='' tail of
        None \<Rightarrow> Inl No_filter_assignment
      | Some (name, v) \<Rightarrow>
          (case parameter_set_value G v (parameter_set_name (Some (ascii_up name)) filter_parameter_new) of
             None \<Rightarrow> Inl Undefined_behaviour
           | Some q \<Rightarrow> Inr (p\<lparr>np_filter := filterref_add_parameter q (np_filter p)\<rparr>)))"

definition parse_network_param ::
  "('f, 'd, 'ip) glib \<Rightarrow> string \<Rightarrow> 'ip net_parse \<Rightarrow> config_error + 'ip net_parse" where
  "parse_network_param G param p =
     (if param = ''dhcp'' then
        (if np_gotaddr p \<or> np_gotroute p then Inl Dhcp_with_static
         else Inr (p\<lparr>np_net := network_set_dhcp True (np_net p), np_gotdhcp := True\<rparr>))
      else case strip_prefix ''source='' param of
        Some v \<Rightarrow> Inr (p\<lparr>np_net := network_set_source (Some v) (np_net p)\<rparr>)
      | None \<Rightarrow> (case strip_prefix ''mac='' param of
        Some v \<Rightarrow> Inr (p\<lparr>np_net := network_set_mac (Some v) (np_net p)\<rparr>)
      | None \<Rightarrow> (case strip_prefix ''filter.'' param of
        Some tail \<Rightarrow> parse_filter_parameter G tail p
      | None \<Rightarrow> (case strip_prefix ''filter='' param of
        Some v \<Rightarrow> Inr (p\<lparr>np_filter := filterref_set_name (Some v) (np_filter p), np_attached := True\<rparr>)
      | None \<Rightarrow> (case strip_prefix ''address='' param of
        Some s \<Rightarrow> parse_address G s p
      | None \<Rightarrow> (case strip_prefix ''route='' param of
        Some s \<Rightarrow> parse_route G s p
      | None \<Rightarrow> Inl (Unknown_parameter param)))))))"

fun parse_network_params ::
  "('f, 'd, 'ip) glib \<Rightarrow> string list \<Rightarrow> 'ip net_parse \<Rightarrow> config_error + 'ip net_parse" where
  "parse_network_params G [] p = Inr p"
| "parse_network_params G (s # ss) p =
     (case parse_network_param G s p of Inl e \<Rightarrow> Inl e | Inr p' \<Rightarrow> parse_network_params G ss p')"

definition net_parse_init :: "'ip net_parse" where
  "net_parse_init =
     \<lparr>np_net = network_set_dhcp False network_new, np_filter = filterref_new,
      np_attached = False, np_gotaddr = False, np_gotroute = False, np_gotdhcp = False\<rparr>"

definition add_network_opts ::
  "('f, 'd, 'ip) glib \<Rightarrow> string \<Rightarrow> 'ip config \<Rightarrow> config_error + 'ip config" where
  "add_network_opts G network c =
     (case parse_network_params G (g_strsplit network CHR '','' 50) net_parse_init of
        Inl e \<Rightarrow> Inl e
      | Inr p \<Rightarrow>
          if np_gotroute p \<and> \<not> np_gotaddr p then Inl Routes_without_addresses
          else Inr (add_network c
                      (if np_attached p then network_set_filterref (np_filter p) (np_net p) else np_net p)))"

section \<open>Environment, disks, mounts\<close>

definition add_env_opts :: "string \<Rightarrow> 'ip config \<Rightarrow> config_error + 'ip config" where
  "add_env_opts opt c =
     (case strchr_split CHR ''='' opt of
        None \<Rightarrow> Inl (Bad_env opt)
      | Some (k, v) \<Rightarrow> Inr (add_env c k v))"

definition add_disk_opts ::
  "('f, 'd, 'ip) glib \<Rightarrow> string \<Rightarrow> 'ip config \<Rightarrow> config_error + 'ip config" where
  "add_disk_opts G opt c =
     (case strchr_split CHR '':'' opt of
        None \<Rightarrow> Inl (No_type_prefix opt)
      | Some (ty, rest) \<Rightarrow>
        (case dtype_value G ty of
           None \<Rightarrow> Inl (Unknown_type_prefix opt)
         | Some t \<Rightarrow>
           if t \<noteq> dtype_file G then Inl (Unimplemented_type opt)
           else
             (case strchr_split CHR ''='' rest of
                None \<Rightarrow> Inl (Missing_source opt)
              | Some (tag, src) \<Rightarrow>
                (case strchr_split CHR '','' src of
                   None \<Rightarrow>
                     Inr (add_disk c \<lparr>dk_type = t, dk_tag = tag, dk_source = src,
                       dk_format = (case guess_image_format G src of None \<Rightarrow> fmt_raw G | Some f \<Rightarrow> f)\<rparr>)
                 | Some (src', fs) \<Rightarrow>
                   (case strip_prefix ''format='' fs of
                      None \<Rightarrow> Inl (Unknown_format fs)
                    | Some nick \<Rightarrow>
                      (case disk_format_from_str G nick of
                         None \<Rightarrow> Inl (Unknown_format nick)
                       | Some f \<Rightarrow>
                         Inr (add_disk c \<lparr>dk_type = t, dk_tag = tag, dk_source = src',
                           dk_format = f\<rparr>)))))))"

text \<open>
  The type of a mount is what stands before the colon, compared with \<open>strncmp\<close> up to its own
  length.
\<close>

definition mount_type_prefix :: "string \<Rightarrow> mount_type option" where
  "mount_type_prefix p =
     (if strncmp_eq p ''host-bind'' then Some T_host_bind
      else if strncmp_eq p ''host-image'' then Some T_host_image
      else if strncmp_eq p ''guest-bind'' then Some T_guest_bind
      else if strncmp_eq p ''ram'' then Some T_ram
      else None)"

text \<open>
  The size of a RAM mount is computed in a 32-bit \<open>gint\<close> (its overflow is taken to wrap), and
  passed on as a \<open>guint64\<close>.
\<close>

definition ram_size :: "string \<Rightarrow> 64 word" where
  "ram_size s =
     (let (v, unit) = strtol s;
          size = of_int v :: 32 word;
          size = (if unit = ''KiB'' \<or> unit = ''K'' then size * 1024
                  else if unit = ''MiB'' \<or> unit = ''M'' then size * (1024 * 1024)
                  else if unit = ''GiB'' \<or> unit = ''G'' then size * (1024 * 1024 * 1024)
                  else size)
      in scast size)"

definition add_mount_opts ::
  "('f, 'd, 'ip) glib \<Rightarrow> string \<Rightarrow> 'ip config \<Rightarrow> config_error + 'ip config" where
  "add_mount_opts G opt c =
     (case strchr_split CHR '':'' opt of
        None \<Rightarrow> Inl (No_type_prefix opt)
      | Some (p, rest) \<Rightarrow>
        (case mount_type_prefix p of
           None \<Rightarrow> Inl (Unknown_type_prefix opt)
         | Some t \<Rightarrow>
           (case strchr_split CHR ''='' rest of
              None \<Rightarrow> Inl (Missing_source opt)
            | Some (target, src) \<Rightarrow>
              (case t of
                 T_ram \<Rightarrow> Inr (add_mount c (mount_new target (Ram (ram_size src))))
               | T_host_image \<Rightarrow>
                   (case strchr_split CHR '','' src of
                      None \<Rightarrow>
                        Inr (add_mount c (mount_new target (Host_image src
                          (case guess_image_format G src of None \<Rightarrow> fmt_raw G | Some f \<Rightarrow> f))))
                    | Some (src', fs) \<Rightarrow>
                      (case strip_prefix ''format='' fs of
                         None \<Rightarrow> Inr (add_mount c (mount_new target (Host_image src' (fmt_raw G))))
                       | Some nick \<Rightarrow>
                         (case fmt_value G nick of
                            None \<Rightarrow> Inl (Unknown_format nick)
                          | Some f \<Rightarrow> Inr (add_mount c (mount_new target (Host_image src' f))))))
               | T_host_bind \<Rightarrow> Inr (add_mount c (mount_new target (Host_bind src)))
               | T_guest_bind \<Rightarrow> Inr (add_mount c (mount_new target (Guest_bind src)))))))"

section \<open>Includes\<close>

text \<open>The file goes into the first mount whose target is a prefix of the guest path.\<close>

fun include_in :: "mount list \<Rightarrow> string \<Rightarrow> string \<Rightarrow> mount list option" where
  "include_in [] host guest = None"
| "include_in (m # ms) host guest =
     (case strip_prefix (mt_target m) guest of
        Some rel \<Rightarrow> Some (mount_add_include m host rel # ms)
      | None \<Rightarrow> (case include_in ms host guest of None \<Rightarrow> None | Some ms' \<Rightarrow> Some (m # ms')))"

definition add_include :: "string \<Rightarrow> 'ip config \<Rightarrow> config_error + 'ip config" where
  "add_include s c =
     (let (guest, host) = (case strchr_split CHR ''='' s of None \<Rightarrow> (s, s) | Some (g, h) \<Rightarrow> (g, h)) in
      case include_in (cf_mounts c) host guest of
        None \<Rightarrow> Inl (No_mount_for guest)
      | Some ms \<Rightarrow> Inr (c\<lparr>cf_mounts := ms\<rparr>))"

definition add_host_include_strv :: "string list \<Rightarrow> 'ip config \<Rightarrow> 'ip config \<times> config_error option" where
  "add_host_include_strv includes c = add_strv add_include includes c"

text \<open>The lines of the file, \<open>None\<close> if it cannot be opened, and whether the reading fails after them.\<close>

definition add_host_include_file ::
  "string list option \<Rightarrow> bool \<Rightarrow> 'ip config \<Rightarrow> 'ip config \<times> config_error option" where
  "add_host_include_file contents read_error c =
     (case contents of
        None \<Rightarrow> (c, Some Io_error)
      | Some ls \<Rightarrow>
        (case add_strv add_include ls c of
           (c', Some e) \<Rightarrow> (c', Some e)
         | (c', None) \<Rightarrow> (c', if read_error then Some Io_error else None)))"

section \<open>Lists of options\<close>

definition add_network_strv ::
  "('f, 'd, 'ip) glib \<Rightarrow> string list \<Rightarrow> 'ip config \<Rightarrow> 'ip config \<times> config_error option" where
  "add_network_strv G networks c = add_strv (add_network_opts G) networks c"

definition add_env_strv :: "string list \<Rightarrow> 'ip config \<Rightarrow> 'ip config \<times> config_error option" where
  "add_env_strv envs c = add_strv add_env_opts envs c"

definition add_disk_strv ::
  "('f, 'd, 'ip) glib \<Rightarrow> string list \<Rightarrow> 'ip config \<Rightarrow> 'ip config \<times> config_error option" where
  "add_disk_strv G disks c = add_strv (add_disk_opts G) disks c"

lemmas strv_defs = add_network_strv_def add_env_strv_def add_disk_strv_def

section \<open>Security\<close>

text \<open>\<open>con\<close> is what \<open>getcon\<close> answers. A bad label option fails after the mode has been set.\<close>

definition set_security_opts ::
  "string option \<Rightarrow> string \<Rightarrow> 'ip config \<Rightarrow> 'ip config \<times> config_error option" where
  "set_security_opts con optstr c =
     (let (mode, label) = (case strchr_split CHR '','' optstr of None \<Rightarrow> (optstr, None)
                           | Some (a, b) \<Rightarrow> (a, Some b));
          r = (if mode = ''dynamic'' then Inr (set_security_dynamic True c)
               else if mode = ''static'' then Inr (set_security_dynamic False c)
               else if mode = ''inherit'' then
                 (case con of
                    None \<Rightarrow> Inl (set_security_dynamic False c, No_context)
                  | Some s \<Rightarrow> Inr (set_security_label (Some s) (set_security_dynamic False c)))
               else Inl (c, Unknown_security mode))
      in case r of
           Inl (c', e) \<Rightarrow> (c', Some e)
         | Inr c' \<Rightarrow>
           (case label of
              None \<Rightarrow> (c', None)
            | Some l \<Rightarrow>
              (case strip_prefix ''label='' l of
                 None \<Rightarrow> (c', Some (Unknown_security l))
               | Some v \<Rightarrow> (set_security_label (Some v) c', None))))"

end
