(* ===== verification/Config_File.thy ===== *)
theory Config_File
  imports Config_Opts
begin

text \<open>
  Saving a configuration to a key file and loading it back: \<open>save_config\<close> and \<open>load_config\<close> of
  libvirt-sandbox-config.c and of the interactive, systemd and generic classes, and the functions
  that wrap them. Saving is given as the list of the \<open>g_key_file_set_\<close> calls in their order;
  a call with a NULL string writes nothing.
\<close>

section \<open>Saving\<close>

definition put :: "string \<Rightarrow> string \<Rightarrow> string option \<Rightarrow> kf_write list" where
  "put g k v = (case v of None \<Rightarrow> [] | Some s \<Rightarrow> [(g, k, s)])"

definition put_bool :: "('f, 'd, 'ip) glib \<Rightarrow> string \<Rightarrow> string \<Rightarrow> bool \<Rightarrow> kf_write list" where
  "put_bool G g k b = [(g, k, kf_of_bool G b)]"

definition put_u64 :: "('f, 'd, 'ip) glib \<Rightarrow> string \<Rightarrow> string \<Rightarrow> 64 word \<Rightarrow> kf_write list" where
  "put_u64 G g k n = [(g, k, kf_of_u64 G n)]"

text \<open>The \<open>while\<close> loops over lists and hash tables: the index of each element goes into its group's name.\<close>

fun save_each :: "(nat \<Rightarrow> 'a \<Rightarrow> kf_write list) \<Rightarrow> nat \<Rightarrow> 'a list \<Rightarrow> kf_write list" where
  "save_each f i [] = []"
| "save_each f i (x # xs) = f i x @ save_each f (Suc i) xs"

definition save_env :: "nat \<Rightarrow> string \<times> string \<Rightarrow> kf_write list" where
  "save_env i kv =
     (let g = dotted [''env'', dec i] in put g ''key'' (Some (fst kv)) @ put g ''value'' (Some (snd kv)))"

definition save_disk :: "('f, 'd, 'ip) glib \<Rightarrow> nat \<Rightarrow> disk \<Rightarrow> kf_write list" where
  "save_disk G i d =
     (let g = dotted [''disk'', dec i] in
      put g ''type'' (Some (dtype_nick G (dk_type d))) @
      put g ''source'' (Some (dk_source d)) @
      put g ''tag'' (Some (dk_tag d)) @
      put g ''format'' (Some (fmt_nick G (dk_format d))))"

text \<open>\<open>g_type_name\<close> of the four mount classes and of the configuration classes.\<close>

definition mount_type_name :: "mount_type \<Rightarrow> string" where
  "mount_type_name t = (case t of
       T_host_bind \<Rightarrow> ''GVirSandboxConfigMountHostBind''
     | T_host_image \<Rightarrow> ''GVirSandboxConfigMountHostImage''
     | T_guest_bind \<Rightarrow> ''GVirSandboxConfigMountGuestBind''
     | T_ram \<Rightarrow> ''GVirSandboxConfigMountRam'')"

definition class_name :: "config_class \<Rightarrow> string" where
  "class_name cls = (case cls of
       Interactive _ _ \<Rightarrow> ''GVirSandboxConfigInteractive''
     | Service_systemd _ \<Rightarrow> ''GVirSandboxConfigServiceSystemd''
     | Service_generic _ \<Rightarrow> ''GVirSandboxConfigServiceGeneric'')"

definition save_include :: "nat \<Rightarrow> nat \<Rightarrow> string \<times> string \<Rightarrow> kf_write list" where
  "save_include i j ds =
     (let g = dotted [''mount'', dec i, ''include'', dec j] in
      put g ''dst'' (Some (fst ds)) @ put g ''src'' (Some (snd ds)))"

definition save_mount :: "('f, 'd, 'ip) glib \<Rightarrow> nat \<Rightarrow> mount \<Rightarrow> kf_write list" where
  "save_mount G i m =
     (let g = dotted [''mount'', dec i] in
      put g ''type'' (Some (mount_type_name (mount_type_of m))) @
      put g ''target'' (Some (mt_target m)) @
      (case mt_kind m of
         Ram usage \<Rightarrow> put g ''usage'' (Some (dec (unat usage)))
       | Host_image src fmt \<Rightarrow> put g ''format'' (Some (fmt_nick G fmt)) @ put g ''source'' (Some src)
       | Host_bind src \<Rightarrow> put g ''source'' (Some src)
       | Guest_bind src \<Rightarrow> put g ''source'' (Some src)) @
      save_each (save_include i) 0 (hash_order G (mt_includes m)))"

definition save_address :: "('f, 'd, 'ip) glib \<Rightarrow> nat \<Rightarrow> nat \<Rightarrow> 'ip net_address \<Rightarrow> kf_write list" where
  "save_address G i j a =
     (let g = dotted [''network'', dec i, ''address'', dec j] in
      put g ''primary'' (map_option (inet_print G) (na_primary a)) @
      put g ''broadcast'' (map_option (inet_print G) (na_broadcast a)) @
      put_u64 G g ''prefix'' (ucast (na_prefix a)))"

definition save_route :: "('f, 'd, 'ip) glib \<Rightarrow> nat \<Rightarrow> nat \<Rightarrow> 'ip net_route \<Rightarrow> kf_write list" where
  "save_route G i k r =
     (let g = dotted [''network'', dec i, ''route'', dec k] in
      put_u64 G g ''prefix'' (ucast (nr_prefix r)) @
      put g ''gateway'' (map_option (inet_print G) (nr_gateway r)) @
      put g ''target'' (map_option (inet_print G) (nr_target r)))"

definition save_network :: "('f, 'd, 'ip) glib \<Rightarrow> nat \<Rightarrow> 'ip network \<Rightarrow> kf_write list" where
  "save_network G i n =
     (let g = dotted [''network'', dec i] in
      save_each (save_address G i) 0 (nw_addrs n) @
      save_each (save_route G i) 0 (nw_routes n) @
      put_bool G g ''dhcp'' (nw_dhcp n) @
      put g ''source'' (nw_source n) @
      put g ''mac'' (nw_mac n) @
      put_u64 G g ''addresses'' (of_nat (length (nw_addrs n))) @
      put_u64 G g ''routes'' (of_nat (length (nw_routes n))))"

definition save_config :: "('f, 'd, 'ip) glib \<Rightarrow> 'ip config \<Rightarrow> kf_write list" where
  "save_config G c =
     put ''core'' ''name'' (cf_name c) @
     put ''core'' ''uuid'' (cf_uuid c) @
     put ''core'' ''root'' (Some (cf_root c)) @
     put ''core'' ''arch'' (Some (cf_arch c)) @
     put ''core'' ''kernrelease'' (cf_kernrelease c) @
     put ''core'' ''kernpath'' (cf_kernpath c) @
     put ''core'' ''kmodpath'' (cf_kmodpath c) @
     put_bool G ''core'' ''shell'' (cf_shell c) @
     put_u64 G ''identity'' ''uid'' (ucast (cf_uid c)) @
     put_u64 G ''identity'' ''gid'' (ucast (cf_gid c)) @
     put ''identity'' ''username'' (Some (cf_username c)) @
     put ''identity'' ''homedir'' (Some (cf_homedir c)) @
     save_each (save_mount G) 0 (cf_mounts c) @
     save_each save_env 0 (hash_order G (cf_envs c)) @
     save_each (save_disk G) 0 (cf_disks c) @
     save_each (save_network G) 0 (cf_networks c) @
     put ''security'' ''label'' (cf_secLabel c) @
     put_bool G ''security'' ''dynamic'' (cf_secDynamic c) @
     put_bool G ''core'' ''debug'' (cf_debug c) @
     put_bool G ''core'' ''verbose'' (cf_verbose c)"

definition save_argv :: "nat \<Rightarrow> string \<Rightarrow> kf_write list" where
  "save_argv i s = put ''command'' (dotted [''argv'', dec i]) (Some s)"

definition interactive_save :: "('f, 'd, 'ip) glib \<Rightarrow> 'ip config \<Rightarrow> bool \<Rightarrow> string list \<Rightarrow> kf_write list" where
  "interactive_save G c tty argv =
     save_config G c @ put_bool G ''interactive'' ''tty'' tty @ save_each save_argv 0 argv"

definition service_systemd_save :: "('f, 'd, 'ip) glib \<Rightarrow> 'ip config \<Rightarrow> string option \<Rightarrow> kf_write list" where
  "service_systemd_save G c target = save_config G c @ put ''service'' ''bootTarget'' target"

definition service_generic_save :: "('f, 'd, 'ip) glib \<Rightarrow> 'ip config \<Rightarrow> string list \<Rightarrow> kf_write list" where
  "service_generic_save G c argv = save_config G c @ save_each save_argv 0 argv"

definition save_class :: "('f, 'd, 'ip) glib \<Rightarrow> 'ip config \<Rightarrow> kf_write list" where
  "save_class G c = (case cf_class c of
       Interactive tty argv \<Rightarrow> interactive_save G c tty argv
     | Service_systemd target \<Rightarrow> service_systemd_save G c target
     | Service_generic argv \<Rightarrow> service_generic_save G c argv)"

definition VERSION :: string where
  "VERSION = ''0.8.0''"

definition save_to_keyfile :: "('f, 'd, 'ip) glib \<Rightarrow> 'ip config \<Rightarrow> 'f" where
  "save_to_keyfile G c =
     kf_writes G
       (put ''api'' ''class'' (Some (class_name (cf_class c))) @
        put ''api'' ''version'' (Some VERSION) @ save_class G c)
       (kf_new G)"

definition save_to_data :: "('f, 'd, 'ip) glib \<Rightarrow> 'ip config \<Rightarrow> 'd" where
  "save_to_data G c = kf_to_data G (save_to_keyfile G c)"

text \<open>
  \<open>save_to_path\<close>: the file must not exist yet; the code tries to delete it again when writing or
  closing it fails. \<open>existing\<close> is the file before, and the environment says which calls succeed.
\<close>

datatype 'd file_state = File_absent | File_partial | File_whole 'd

record save_env_io =
  io_to_data :: bool
  io_create :: bool
  io_write :: bool
  io_close :: bool
  io_delete :: bool

definition save_to_path ::
  "('f, 'd, 'ip) glib \<Rightarrow> save_env_io \<Rightarrow> 'd file_state \<Rightarrow> 'ip config \<Rightarrow> bool \<times> 'd file_state" where
  "save_to_path G io existing c =
     (if \<not> io_to_data io then (False, existing)
      else if \<not> io_create io \<or> (case existing of File_absent \<Rightarrow> False | _ \<Rightarrow> True) then (False, existing)
      else
        let written = (if io_write io then File_whole (save_to_data G c) else File_partial) in
        if \<not> io_write io \<or> \<not> io_close io then (False, if io_delete io then File_absent else written)
        else (True, written))"

section \<open>Loading\<close>

definition get_str :: "('f, 'd, 'ip) glib \<Rightarrow> 'f \<Rightarrow> string \<Rightarrow> string \<Rightarrow> string option" where
  "get_str G f g k = (case kf_get G f g k of Inl _ \<Rightarrow> None | Inr s \<Rightarrow> Some s)"

definition str_or :: "string \<Rightarrow> string option \<Rightarrow> string" where
  "str_or old s = (case s of None \<Rightarrow> old | Some s \<Rightarrow> s)"

definition opt_or :: "string option \<Rightarrow> string option \<Rightarrow> string option" where
  "opt_or old s = (case s of None \<Rightarrow> old | Some s \<Rightarrow> Some s)"

definition bool_or :: "bool \<Rightarrow> kf_error + bool \<Rightarrow> bool" where
  "bool_or old b = (case b of Inl _ \<Rightarrow> old | Inr b \<Rightarrow> b)"

definition u64_or :: "u32 \<Rightarrow> kf_error + 64 word \<Rightarrow> u32" where
  "u64_or old n = (case n of Inl _ \<Rightarrow> old | Inr n \<Rightarrow> ucast n)"

text \<open>
  The two kinds of loop: over a fixed range, where an element that is not there is skipped, and
  over indices up to the first one that is not there.
\<close>

fun load_each :: "(nat \<Rightarrow> config_error + 'a option) \<Rightarrow> nat list \<Rightarrow> config_error + 'a list" where
  "load_each f [] = Inr []"
| "load_each f (i # is) =
     (case f i of
        Inl e \<Rightarrow> Inl e
      | Inr None \<Rightarrow> load_each f is
      | Inr (Some x) \<Rightarrow> (case load_each f is of Inl e \<Rightarrow> Inl e | Inr xs \<Rightarrow> Inr (x # xs)))"

fun load_until :: "(nat \<Rightarrow> config_error + 'a option) \<Rightarrow> nat list \<Rightarrow> config_error + 'a list" where
  "load_until f [] = Inr []"
| "load_until f (i # is) =
     (case f i of
        Inl e \<Rightarrow> Inl e
      | Inr None \<Rightarrow> Inr []
      | Inr (Some x) \<Rightarrow> (case load_until f is of Inl e \<Rightarrow> Inl e | Inr xs \<Rightarrow> Inr (x # xs)))"

definition load_address ::
  "('f, 'd, 'ip) glib \<Rightarrow> 'f \<Rightarrow> nat \<Rightarrow> nat \<Rightarrow> config_error + 'ip net_address option" where
  "load_address G f i j =
     (let g = dotted [''network'', dec i, ''address'', dec j] in
      case kf_get G f g ''primary'' of
        Inl Group_not_found \<Rightarrow> Inr None
      | Inl e \<Rightarrow> Inl (Key_file_error e)
      | Inr s \<Rightarrow>
          Inr (Some (network_address_new G (inet_parse G s) (u64_or 0 (kf_get_u64 G f g ''prefix''))
            (case get_str G f g ''broadcast'' of None \<Rightarrow> None | Some b \<Rightarrow> inet_parse G b))))"

definition load_route ::
  "('f, 'd, 'ip) glib \<Rightarrow> 'f \<Rightarrow> nat \<Rightarrow> nat \<Rightarrow> config_error + 'ip net_route option" where
  "load_route G f i j =
     (let g = dotted [''network'', dec i, ''route'', dec j] in
      case kf_get G f g ''target'' of
        Inl Group_not_found \<Rightarrow> Inr None
      | Inl e \<Rightarrow> Inl (Key_file_error e)
      | Inr s \<Rightarrow>
          Inr (Some (network_route_new G (inet_parse G s) (u64_or 0 (kf_get_u64 G f g ''prefix''))
            (case get_str G f g ''gateway'' of None \<Rightarrow> None | Some b \<Rightarrow> inet_parse G b))))"

definition load_network :: "('f, 'd, 'ip) glib \<Rightarrow> 'f \<Rightarrow> nat \<Rightarrow> config_error + 'ip network option" where
  "load_network G f i =
     (let g = dotted [''network'', dec i];
          b = kf_get_bool G f g ''dhcp''
      in if b = Inl Group_not_found then Inr None
         else
           let net = network_new\<lparr>nw_dhcp := bool_or True b, nw_source := get_str G f g ''source'',
                                 nw_mac := get_str G f g ''mac''\<rparr>
           in case load_until (load_address G f i) [0..<100] of
                Inl e \<Rightarrow> Inl e
              | Inr addrs \<Rightarrow>
                (case load_until (load_route G f i) [0..<100] of
                   Inl e \<Rightarrow> Inl e
                 | Inr routes \<Rightarrow> Inr (Some (net\<lparr>nw_addrs := addrs, nw_routes := routes\<rparr>))))"

text \<open>
  The type name of a mount; a registered type that is no mount type is constructed and used as a
  mount all the same.
\<close>

definition load_mount_type :: "('f, 'd, 'ip) glib \<Rightarrow> string \<Rightarrow> config_error + mount_type" where
  "load_mount_type G ty =
     (if ty = mount_type_name T_host_bind then Inr T_host_bind
      else if ty = mount_type_name T_host_image then Inr T_host_image
      else if ty = mount_type_name T_guest_bind then Inr T_guest_bind
      else if ty = mount_type_name T_ram then Inr T_ram
      else if type_known G ty then Inl Undefined_behaviour
      else Inl (Unknown_class ty))"

definition load_mount_kind ::
  "('f, 'd, 'ip) glib \<Rightarrow> 'f \<Rightarrow> string \<Rightarrow> mount_type \<Rightarrow> config_error + mount_kind" where
  "load_mount_kind G f g t =
     (if t = T_ram then
        (case get_str G f g ''usage'' of
           None \<Rightarrow> Inl (Missing_key ''usage'')
         | Some s \<Rightarrow> Inr (Ram (scast (of_int (fst (strtol s)) :: 32 word))))
      else
        (case get_str G f g ''source'' of
           None \<Rightarrow> Inl (Missing_key ''source'')
         | Some src \<Rightarrow>
             if t = T_host_image then
               (case get_str G f g ''format'' of
                  None \<Rightarrow> Inl (Missing_key ''format'')
                | Some nick \<Rightarrow>
                  (case fmt_value G nick of
                     None \<Rightarrow> Inl (Unknown_format nick)
                   | Some n \<Rightarrow> Inr (Host_image src n)))
             else if t = T_host_bind then Inr (Host_bind src)
             else Inr (Guest_bind src)))"

definition load_include ::
  "('f, 'd, 'ip) glib \<Rightarrow> 'f \<Rightarrow> nat \<Rightarrow> nat \<Rightarrow> config_error + (string \<times> string) option" where
  "load_include G f i j =
     (let g = dotted [''mount'', dec i, ''include'', dec j] in
      case kf_get G f g ''src'' of
        Inl Group_not_found \<Rightarrow> Inr None
      | Inl e \<Rightarrow> Inl (Key_file_error e)
      | Inr src \<Rightarrow>
          (case get_str G f g ''dst'' of
             None \<Rightarrow> Inl Undefined_behaviour
           | Some dst \<Rightarrow> Inr (Some (src, dst))))"

definition load_mount :: "('f, 'd, 'ip) glib \<Rightarrow> 'f \<Rightarrow> nat \<Rightarrow> config_error + mount option" where
  "load_mount G f i =
     (let g = dotted [''mount'', dec i] in
      case kf_get G f g ''target'' of
        Inl Group_not_found \<Rightarrow> Inr None
      | Inl _ \<Rightarrow> Inl (Missing_key ''target'')
      | Inr target \<Rightarrow>
        (case get_str G f g ''type'' of
           None \<Rightarrow> Inl (Missing_key ''type'')
         | Some ty \<Rightarrow>
           (case load_mount_type G ty of
              Inl e \<Rightarrow> Inl e
            | Inr t \<Rightarrow>
              (case load_mount_kind G f g t of
                 Inl e \<Rightarrow> Inl e
               | Inr kind \<Rightarrow>
                 (case load_until (load_include G f i) [0..<1024] of
                    Inl e \<Rightarrow> Inl e
                  | Inr incs \<Rightarrow>
                      Inr (Some (fold (\<lambda>(src, dst) m. mount_add_include m src dst) incs
                                   (mount_new target kind))))))))"

definition load_env :: "('f, 'd, 'ip) glib \<Rightarrow> 'f \<Rightarrow> nat \<Rightarrow> config_error + (string \<times> string) option" where
  "load_env G f i =
     (let g = dotted [''env'', dec i] in
      case kf_get G f g ''key'' of
        Inl Group_not_found \<Rightarrow> Inr None
      | Inl _ \<Rightarrow> Inl (Missing_key ''key'')
      | Inr k \<Rightarrow>
          (case get_str G f g ''value'' of
             None \<Rightarrow> Inl (Missing_key ''value'')
           | Some v \<Rightarrow> Inr (Some (k, v))))"

definition load_disk :: "('f, 'd, 'ip) glib \<Rightarrow> 'f \<Rightarrow> nat \<Rightarrow> config_error + disk option" where
  "load_disk G f i =
     (let g = dotted [''disk'', dec i] in
      case kf_get G f g ''tag'' of
        Inl Group_not_found \<Rightarrow> Inr None
      | Inl _ \<Rightarrow> Inl (Missing_key ''tag'')
      | Inr tag \<Rightarrow>
        (case get_str G f g ''source'' of None \<Rightarrow> Inl (Missing_key ''source'')
         | Some src \<Rightarrow>
        (case get_str G f g ''type'' of None \<Rightarrow> Inl (Missing_key ''type'')
         | Some ty \<Rightarrow>
        (case dtype_value G ty of None \<Rightarrow> Inl (Unknown_class ty)
         | Some t \<Rightarrow>
        (case get_str G f g ''format'' of None \<Rightarrow> Inl (Missing_key ''format'')
         | Some nick \<Rightarrow>
        (case disk_format_from_str G nick of None \<Rightarrow> Inl (Unknown_format nick)
         | Some fmt \<Rightarrow>
             Inr (Some \<lparr>dk_type = t, dk_tag = tag, dk_source = src, dk_format = fmt\<rparr>)))))))"

definition load_core :: "('f, 'd, 'ip) glib \<Rightarrow> 'f \<Rightarrow> 'ip config \<Rightarrow> 'ip config" where
  "load_core G f c =
     c\<lparr>cf_name := opt_or (cf_name c) (get_str G f ''core'' ''name''),
       cf_uuid := opt_or (cf_uuid c) (get_str G f ''core'' ''uuid''),
       cf_root := str_or (cf_root c) (get_str G f ''core'' ''root''),
       cf_arch := str_or (cf_arch c) (get_str G f ''core'' ''arch''),
       cf_kernrelease := opt_or (cf_kernrelease c) (get_str G f ''core'' ''kernrelease''),
       cf_kernpath := opt_or (cf_kernpath c) (get_str G f ''core'' ''kernpath''),
       cf_kmodpath := opt_or (cf_kmodpath c) (get_str G f ''core'' ''kmodpath''),
       cf_shell := bool_or (cf_shell c) (kf_get_bool G f ''core'' ''shell''),
       cf_uid := u64_or (cf_uid c) (kf_get_u64 G f ''identity'' ''uid''),
       cf_gid := u64_or (cf_gid c) (kf_get_u64 G f ''identity'' ''gid''),
       cf_username := str_or (cf_username c) (get_str G f ''identity'' ''username''),
       cf_homedir := str_or (cf_homedir c) (get_str G f ''identity'' ''homedir'')\<rparr>"

definition load_security :: "('f, 'd, 'ip) glib \<Rightarrow> 'f \<Rightarrow> 'ip config \<Rightarrow> 'ip config" where
  "load_security G f c =
     c\<lparr>cf_secLabel := get_str G f ''security'' ''label'',
       cf_secDynamic := bool_or (cf_secDynamic c) (kf_get_bool G f ''security'' ''dynamic''),
       cf_debug := bool_or (cf_debug c) (kf_get_bool G f ''core'' ''debug''),
       cf_verbose := bool_or (cf_verbose c) (kf_get_bool G f ''core'' ''verbose'')\<rparr>"

definition load_config :: "('f, 'd, 'ip) glib \<Rightarrow> 'f \<Rightarrow> 'ip config \<Rightarrow> config_error + 'ip config" where
  "load_config G f c =
     (let c = load_core G f c in
      case load_each (load_network G f) [0..<100] of Inl e \<Rightarrow> Inl e
      | Inr nets \<Rightarrow>
     (case load_each (load_mount G f) [0..<1024] of Inl e \<Rightarrow> Inl e
      | Inr mounts \<Rightarrow>
     (case load_each (load_env G f) [0..<1024] of Inl e \<Rightarrow> Inl e
      | Inr envs \<Rightarrow>
     (case load_each (load_disk G f) [0..<1024] of Inl e \<Rightarrow> Inl e
      | Inr disks \<Rightarrow>
          Inr (load_security G f
            (c\<lparr>cf_networks := cf_networks c @ nets, cf_mounts := cf_mounts c @ mounts,
               cf_envs := fold (\<lambda>(k, v). AList.update k v) envs (cf_envs c),
               cf_disks := cf_disks c @ disks\<rparr>))))))"

definition load_arg :: "('f, 'd, 'ip) glib \<Rightarrow> 'f \<Rightarrow> nat \<Rightarrow> config_error + string option" where
  "load_arg G f i =
     (case kf_get G f ''command'' (dotted [''argv'', dec i]) of
        Inl Key_not_found \<Rightarrow> Inr None
      | Inl e \<Rightarrow> Inl (Key_file_error e)
      | Inr s \<Rightarrow> Inr (Some s))"

definition load_argv :: "('f, 'd, 'ip) glib \<Rightarrow> 'f \<Rightarrow> config_error + string list" where
  "load_argv G f = load_until (load_arg G f) [0..<1024]"

definition interactive_load ::
  "('f, 'd, 'ip) glib \<Rightarrow> 'f \<Rightarrow> bool \<Rightarrow> 'ip config \<Rightarrow> config_error + 'ip config" where
  "interactive_load G f tty c =
     (case load_config G f c of Inl e \<Rightarrow> Inl e
      | Inr c \<Rightarrow>
        (case load_argv G f of Inl e \<Rightarrow> Inl e
         | Inr argv \<Rightarrow>
             Inr (c\<lparr>cf_class :=
               Interactive (bool_or tty (kf_get_bool G f ''interactive'' ''tty'')) argv\<rparr>)))"

definition service_systemd_load :: "('f, 'd, 'ip) glib \<Rightarrow> 'f \<Rightarrow> 'ip config \<Rightarrow> config_error + 'ip config" where
  "service_systemd_load G f c =
     (case load_config G f c of Inl e \<Rightarrow> Inl e
      | Inr c \<Rightarrow>
        (case kf_get G f ''service'' ''bootTarget'' of Inl e \<Rightarrow> Inl (Key_file_error e)
         | Inr s \<Rightarrow> Inr (c\<lparr>cf_class := Service_systemd (Some s)\<rparr>)))"

definition service_generic_load :: "('f, 'd, 'ip) glib \<Rightarrow> 'f \<Rightarrow> 'ip config \<Rightarrow> config_error + 'ip config" where
  "service_generic_load G f c =
     (case load_config G f c of Inl e \<Rightarrow> Inl e
      | Inr c \<Rightarrow>
        (case load_argv G f of Inl e \<Rightarrow> Inl e
         | Inr argv \<Rightarrow> Inr (c\<lparr>cf_class := Service_generic argv\<rparr>)))"

text \<open>
  The class named in the file is instantiated with no properties, so the name is NULL until the
  file gives one. A type that is not a configuration class is refused; the two abstract classes pass
  the test and cannot be instantiated.
\<close>

definition load_from_keyfile ::
  "('f, 'd, 'ip) glib \<Rightarrow> host_env \<Rightarrow> 'f \<Rightarrow> config_error + 'ip config" where
  "load_from_keyfile G E f =
     (case get_str G f ''api'' ''class'' of
        None \<Rightarrow> Inl (Missing_key ''class'')
      | Some cls \<Rightarrow>
          if cls = class_name interactive_init
          then interactive_load G f False (config_new E interactive_init None)
          else if cls = class_name service_systemd_init
          then service_systemd_load G f (config_new E service_systemd_init None)
          else if cls = class_name service_generic_init
          then service_generic_load G f (config_new E service_generic_init None)
          else if cls = ''GVirSandboxConfig'' \<or> cls = ''GVirSandboxConfigService''
          then Inl Undefined_behaviour
          else Inl (Unknown_class cls))"

definition load_from_data ::
  "('f, 'd, 'ip) glib \<Rightarrow> host_env \<Rightarrow> 'd \<Rightarrow> config_error + 'ip config" where
  "load_from_data G E d =
     (case kf_of_data G d of None \<Rightarrow> Inl Io_error | Some f \<Rightarrow> load_from_keyfile G E f)"

definition load_from_path ::
  "('f, 'd, 'ip) glib \<Rightarrow> host_env \<Rightarrow> 'd file_state \<Rightarrow> config_error + 'ip config" where
  "load_from_path G E file =
     (case file of File_whole d \<Rightarrow> load_from_data G E d | _ \<Rightarrow> Inl Io_error)"

end
