(* ===== verification/Config_Roundtrip.thy ===== *)
theory Config_Roundtrip
  imports Config_File
begin

text \<open>
  What is left of a configuration after it was saved and loaded. Every group of the key file is
  found among the writes as one section (\<open>*_section\<close>), every element loads back from its own
  section (\<open>load_*_saved\<close>), and the loops put the elements together.
\<close>

named_theorems sec_simps "sections of the writes of one element"

section \<open>Sections of indexed writes\<close>

lemma dotted2_eq [sec_simps]:
  assumes "CHR ''.'' \<notin> set p" "CHR ''.'' \<notin> set q"
  shows "dotted [p, dec i] = dotted [q, dec j] \<longleftrightarrow> p = q \<and> i = j"
  using dotted_inject [of "[p, dec i]" "[q, dec j]"] assms by (auto simp: pieces_ok_def)

lemma dotted4_eq [sec_simps]:
  assumes "CHR ''.'' \<notin> set p" "CHR ''.'' \<notin> set q" "CHR ''.'' \<notin> set r" "CHR ''.'' \<notin> set s"
  shows "dotted [p, dec i, r, dec k] = dotted [q, dec j, s, dec l] \<longleftrightarrow> p = q \<and> i = j \<and> r = s \<and> k = l"
  using dotted_inject [of "[p, dec i, r, dec k]" "[q, dec j, s, dec l]"] assms
  by (auto simp: pieces_ok_def)

lemma dotted24_neq [sec_simps]:
  assumes "CHR ''.'' \<notin> set p" "CHR ''.'' \<notin> set q" "CHR ''.'' \<notin> set r"
  shows "dotted [p, dec i] \<noteq> dotted [q, dec j, r, dec k]" "dotted [q, dec j, r, dec k] \<noteq> dotted [p, dec i]"
  using dotted_inject [of "[p, dec i]" "[q, dec j, r, dec k]"] assms
  by (auto simp: pieces_ok_def)

lemma dotted1_neq [sec_simps]:
  assumes "CHR ''.'' \<notin> set s"
  shows "dotted (p # q # r) \<noteq> s" "s \<noteq> dotted (p # q # r)"
  using assms by (auto simp: dotted_Cons)

lemma section_put [sec_simps]:
  "kf_section g (put g' k v) = (if g' = g then (case v of None \<Rightarrow> [] | Some s \<Rightarrow> [(k, s)]) else [])"
  "kf_section g (put_bool G g' k b) = (if g' = g then [(k, kf_of_bool G b)] else [])"
  "kf_section g (put_u64 G g' k n) = (if g' = g then [(k, kf_of_u64 G n)] else [])"
  by (simp_all add: put_def put_bool_def put_u64_def split: option.splits)

lemma writes_utf8_put:
  "writes_utf8 G (put g k v) \<longleftrightarrow> (\<forall>s. v = Some s \<longrightarrow> utf8 G s)"
  by (simp add: put_def split: option.splits)

lemma section_each_Nil:
  "(\<And>j x. kf_section g (f j x) = []) \<Longrightarrow> kf_section g (save_each f i xs) = []"
  by (induction f i xs rule: save_each.induct) simp_all

lemma section_each:
  "(\<And>j x. j \<noteq> n \<Longrightarrow> kf_section g (f j x) = []) \<Longrightarrow> kf_section g (save_each f i xs) =
     (if i \<le> n \<and> n - i < length xs then kf_section g (f n (xs ! (n - i))) else [])"
proof (induction f i xs rule: save_each.induct)
  case (2 f i x xs)
  show ?case
  proof (cases "i = n")
    case True
    have "kf_section g (save_each f (Suc n) xs) = []" using 2 True by simp
    with True show ?thesis by simp
  next
    case False
    then have x: "kf_section g (f i x) = []" using 2 by blast
    consider "i < n" | "n < i" using False by linarith
    then show ?thesis
    proof cases
      case 1
      then have "n - i = Suc (n - Suc i)" by simp
      with 1 2 x show ?thesis by simp
    qed (use 2 x in simp)
  qed
qed simp

lemma writes_utf8_each:
  "(\<And>j x. x \<in> set xs \<Longrightarrow> writes_utf8 G (f j x)) \<Longrightarrow> writes_utf8 G (save_each f i xs)"
  by (induction f i xs rule: save_each.induct) simp_all

section \<open>The loading loops\<close>

lemma load_each_None: "(\<And>i. i \<in> set is \<Longrightarrow> f i = Inr None) \<Longrightarrow> load_each f is = Inr []"
  by (induction f "is" rule: load_each.induct) simp_all

lemma load_each_from:
  "(\<And>k. k < length xs \<Longrightarrow> k < n \<Longrightarrow> f (i + k) = Inr (Some (h (xs ! k)))) \<Longrightarrow>
   (\<And>k. length xs \<le> k \<Longrightarrow> f (i + k) = Inr None) \<Longrightarrow>
   load_each f [i..<i + n] = Inr (map h (take n xs))"
proof (induction n arbitrary: i xs)
  case (Suc n)
  have upt: "[i..<i + Suc n] = i # [Suc i..<Suc i + n]" by (simp add: upt_rec)
  show ?case
  proof (cases xs)
    case Nil
    with Suc.prems(2) have "load_each f [i..<i + Suc n] = Inr []"
      by (intro load_each_None) (metis atLeastLessThan_iff atLeastLessThan_upt le_add_diff_inverse list.size(3) zero_le)
    with Nil show ?thesis by simp
  next
    case (Cons y ys)
    have "load_each f [Suc i..<Suc i + n] = Inr (map h (take n ys))"
      using Suc.prems Cons
      by (intro Suc.IH) (metis Suc_less_eq add_Suc_shift length_Cons nth_Cons_Suc,
          metis Suc_le_mono add_Suc_shift length_Cons)
    moreover have "f i = Inr (Some (h y))" using Suc.prems(1) [of 0] Cons by simp
    ultimately show ?thesis unfolding upt Cons by simp
  qed
qed simp

lemma load_until_from:
  "(\<And>k. k < length xs \<Longrightarrow> k < n \<Longrightarrow> f (i + k) = Inr (Some (h (xs ! k)))) \<Longrightarrow>
   (\<And>k. length xs \<le> k \<Longrightarrow> f (i + k) = Inr None) \<Longrightarrow>
   load_until f [i..<i + n] = Inr (map h (take n xs))"
proof (induction n arbitrary: i xs)
  case (Suc n)
  have upt: "[i..<i + Suc n] = i # [Suc i..<Suc i + n]" by (simp add: upt_rec)
  show ?case
  proof (cases xs)
    case Nil
    with Suc.prems(2) [of 0] show ?thesis unfolding upt by simp
  next
    case (Cons y ys)
    have "load_until f [Suc i..<Suc i + n] = Inr (map h (take n ys))"
      using Suc.prems Cons
      by (intro Suc.IH) (metis Suc_less_eq add_Suc_shift length_Cons nth_Cons_Suc,
          metis Suc_le_mono add_Suc_shift length_Cons)
    moreover have "f i = Inr (Some (h y))" using Suc.prems(1) [of 0] Cons by simp
    ultimately show ?thesis unfolding upt Cons by simp
  qed
qed simp

lemmas load_each_saved = load_each_from [of _ _ _ 0, simplified]
lemmas load_until_saved = load_until_from [of _ _ _ 0, simplified]

section \<open>What a configuration keeps\<close>

text \<open>
  The bounds of the loading loops cut lists off; filters are not written at all; the usage of a
  RAM mount is read with \<open>strtol\<close> into a \<open>gint\<close>; hash tables come back in their visiting order.
\<close>

definition persisted_usage :: "64 word \<Rightarrow> 64 word" where
  "persisted_usage u = scast (of_int (min LONG_MAX (uint u)) :: 32 word)"

definition persisted_kind :: "mount_kind \<Rightarrow> mount_kind" where
  "persisted_kind k = (case k of Ram u \<Rightarrow> Ram (persisted_usage u) | _ \<Rightarrow> k)"

definition persisted_mount :: "('f, 'd, 'ip) glib \<Rightarrow> mount \<Rightarrow> mount" where
  "persisted_mount G m =
     \<lparr>mt_target = mt_target m, mt_kind = persisted_kind (mt_kind m),
      mt_includes = take 1024 (hash_order G (mt_includes m))\<rparr>"

definition persisted_network :: "'ip network \<Rightarrow> 'ip network" where
  "persisted_network n =
     n\<lparr>nw_addrs := take 100 (nw_addrs n), nw_routes := take 100 (nw_routes n), nw_filterref := None\<rparr>"

definition persisted_class :: "config_class \<Rightarrow> config_class" where
  "persisted_class cls = (case cls of
       Interactive tty argv \<Rightarrow> Interactive tty (take 1024 argv)
     | Service_systemd target \<Rightarrow> Service_systemd target
     | Service_generic argv \<Rightarrow> Service_generic (take 1024 argv))"

definition persisted :: "('f, 'd, 'ip) glib \<Rightarrow> 'ip config \<Rightarrow> 'ip config" where
  "persisted G c =
     c\<lparr>cf_class := persisted_class (cf_class c),
       cf_networks := map persisted_network (take 100 (cf_networks c)),
       cf_mounts := map (persisted_mount G) (take 1024 (cf_mounts c)),
       cf_disks := take 1024 (cf_disks c),
       cf_envs := take 1024 (hash_order G (cf_envs c))\<rparr>"

text \<open>
  The configurations the API builds: strings are UTF-8, hash tables have distinct keys, enumeration
  values have a nick, addresses and routes have the addresses they are found by. A command is not
  empty and the boot target is set: otherwise the file that is written is refused.
\<close>

definition utf8_opt :: "('f, 'd, 'ip) glib \<Rightarrow> string option \<Rightarrow> bool" where
  "utf8_opt G s = (case s of None \<Rightarrow> True | Some t \<Rightarrow> utf8 G t)"

definition utf8_pairs :: "('f, 'd, 'ip) glib \<Rightarrow> (string \<times> string) list \<Rightarrow> bool" where
  "utf8_pairs G kvs = list_all (\<lambda>(k, v). utf8 G k \<and> utf8 G v) kvs"

definition mount_saveable :: "('f, 'd, 'ip) glib \<Rightarrow> mount \<Rightarrow> bool" where
  "mount_saveable G m \<longleftrightarrow>
     utf8 G (mt_target m) \<and> distinct (map fst (mt_includes m)) \<and> utf8_pairs G (mt_includes m) \<and>
     (case mt_kind m of Ram _ \<Rightarrow> True | Host_bind s \<Rightarrow> utf8 G s | Guest_bind s \<Rightarrow> utf8 G s
      | Host_image s f \<Rightarrow> utf8 G s \<and> fmt_value G (fmt_nick G f) = Some f)"

definition disk_saveable :: "('f, 'd, 'ip) glib \<Rightarrow> disk \<Rightarrow> bool" where
  "disk_saveable G d \<longleftrightarrow>
     utf8 G (dk_tag d) \<and> utf8 G (dk_source d) \<and> fmt_value G (fmt_nick G (dk_format d)) = Some (dk_format d) \<and>
     dtype_value G (dtype_nick G (dk_type d)) = Some (dk_type d)"

definition network_saveable :: "('f, 'd, 'ip) glib \<Rightarrow> 'ip network \<Rightarrow> bool" where
  "network_saveable G n \<longleftrightarrow>
     utf8_opt G (nw_source n) \<and> utf8_opt G (nw_mac n) \<and>
     list_all (\<lambda>a. na_primary a \<noteq> None \<and> na_prefix a \<le> 128) (nw_addrs n) \<and>
     list_all (\<lambda>r. nr_target r \<noteq> None \<and> nr_prefix r \<le> 128) (nw_routes n)"

definition class_saveable :: "('f, 'd, 'ip) glib \<Rightarrow> config_class \<Rightarrow> bool" where
  "class_saveable G cls = (case cls of
       Interactive _ argv \<Rightarrow> argv \<noteq> [] \<and> list_all (utf8 G) argv
     | Service_systemd target \<Rightarrow> target \<noteq> None \<and> utf8_opt G target
     | Service_generic argv \<Rightarrow> argv \<noteq> [] \<and> list_all (utf8 G) argv)"

definition saveable :: "('f, 'd, 'ip) glib \<Rightarrow> 'ip config \<Rightarrow> bool" where
  "saveable G c \<longleftrightarrow>
     class_saveable G (cf_class c) \<and>
     list_all (utf8_opt G) [cf_name c, cf_uuid c, cf_kernrelease c, cf_kernpath c, cf_kmodpath c, cf_secLabel c] \<and>
     list_all (utf8 G) [cf_root c, cf_arch c, cf_username c, cf_homedir c] \<and>
     list_all (network_saveable G) (cf_networks c) \<and> list_all (mount_saveable G) (cf_mounts c) \<and>
     list_all (disk_saveable G) (cf_disks c) \<and>
     distinct (map fst (cf_envs c)) \<and> utf8_pairs G (cf_envs c)"

declare dotted.simps [simp del]

section \<open>Every element loads back\<close>

context glib_laws
begin

lemma hash_order_facts:
  assumes "distinct (map fst kvs)"
  shows "distinct (map fst (hash_order G kvs))" "set (hash_order G kvs) = set kvs"
    "length (hash_order G kvs) = length kvs"
proof -
  note p = hash_order_perm [OF assms]
  then show d: "distinct (map fst (hash_order G kvs))" and "length (hash_order G kvs) = length kvs"
    by simp_all
  have "(k, v) \<in> set (hash_order G kvs) \<longleftrightarrow> (k, v) \<in> set kvs" for k v
    using p d assms by (metis map_of_eq_Some_iff)
  then show "set (hash_order G kvs) = set kvs" by auto
qed

text \<open>Reading one key of a section written by \<open>put\<close>s.\<close>

lemma get_str_saved:
  "writes_utf8 G ws \<Longrightarrow> kf_section g ws \<noteq> [] \<Longrightarrow>
   get_str G (kf_writes G ws (kf_new G)) g k = map_of (rev (kf_section g ws)) k"
  by (simp add: get_str_def get_writes section_get_def split: option.splits)

lemma get_found:
  "writes_utf8 G ws \<Longrightarrow> map_of (rev (kf_section g ws)) k = Some v \<Longrightarrow>
   kf_get G (kf_writes G ws (kf_new G)) g k = Inr v"
  by (auto simp: get_writes section_get_def)

lemma get_no_group:
  "writes_utf8 G ws \<Longrightarrow> kf_section g ws = [] \<Longrightarrow>
   kf_get G (kf_writes G ws (kf_new G)) g k = Inl Group_not_found"
  by (simp add: get_writes section_get_def)

lemma get_bool_found:
  "writes_utf8 G ws \<Longrightarrow> map_of (rev (kf_section g ws)) k = Some (kf_of_bool G b) \<Longrightarrow>
   kf_get_bool G (kf_writes G ws (kf_new G)) g k = Inr b"
  by (simp add: kf_get_bool_def get_found bool_conv)

lemma get_u64_found:
  "writes_utf8 G ws \<Longrightarrow> map_of (rev (kf_section g ws)) k = Some (kf_of_u64 G n) \<Longrightarrow>
   kf_get_u64 G (kf_writes G ws (kf_new G)) g k = Inr n"
  by (simp add: kf_get_u64_def get_found u64_conv)

lemma load_env_saved:
  assumes "writes_utf8 G ws" "kf_section (dotted [''env'', dec i]) ws = [(''key'', k), (''value'', v)]"
  shows "load_env G (kf_writes G ws (kf_new G)) i = Inr (Some (k, v))"
  using assms by (simp add: load_env_def Let_def get_str_saved get_found)

lemma load_disk_saved:
  assumes "writes_utf8 G ws"
    "kf_section (dotted [''disk'', dec i]) ws = [(''type'', dtype_nick G (dk_type d)), (''source'', dk_source d),
       (''tag'', dk_tag d), (''format'', fmt_nick G (dk_format d))]"
    "disk_saveable G d"
  shows "load_disk G (kf_writes G ws (kf_new G)) i = Inr (Some d)"
  using assms
  by (simp add: load_disk_def Let_def get_str_saved get_found disk_saveable_def disk_format_from_str_def)

lemma ucast_prefix: "(ucast (ucast (n :: u32) :: 64 word) :: u32) = n"
  by (simp add: ucast_down_ucast_id is_down)

lemma load_address_saved:
  assumes "writes_utf8 G ws"
    "kf_section (dotted [''network'', dec i, ''address'', dec j]) ws =
       kf_section (dotted [''network'', dec i, ''address'', dec j]) (save_address G i j a)"
    "na_primary a \<noteq> None" "na_prefix a \<le> 128"
  shows "load_address G (kf_writes G ws (kf_new G)) i j = Inr (Some a)"
proof -
  obtain p where p: "na_primary a = Some p" using assms(3) by blast
  note s = assms(2) [unfolded save_address_def Let_def, simplified sec_simps kf_section_simps p, simplified]
  show ?thesis
    using assms(1,4) s p
    by (cases "na_broadcast a")
      (simp_all add: load_address_def Let_def get_str_saved get_found get_u64_found [where n = "ucast (na_prefix a)"]
        u64_or_def ucast_prefix network_address_new_def inet_conv prefix_prop_ok)
qed

lemma load_route_saved:
  assumes "writes_utf8 G ws"
    "kf_section (dotted [''network'', dec i, ''route'', dec j]) ws =
       kf_section (dotted [''network'', dec i, ''route'', dec j]) (save_route G i j r)"
    "nr_target r \<noteq> None" "nr_prefix r \<le> 128"
  shows "load_route G (kf_writes G ws (kf_new G)) i j = Inr (Some r)"
proof -
  obtain p where p: "nr_target r = Some p" using assms(3) by blast
  note s = assms(2) [unfolded save_route_def Let_def, simplified sec_simps kf_section_simps p, simplified]
  show ?thesis
    using assms(1,4) s p
    by (cases "nr_gateway r")
      (simp_all add: load_route_def Let_def get_str_saved get_found get_u64_found [where n = "ucast (nr_prefix r)"]
        u64_or_def ucast_prefix network_route_new_def inet_conv prefix_prop_ok)
qed

end

section \<open>The sections of a saved configuration\<close>

definition all_writes :: "('f, 'd, 'ip) glib \<Rightarrow> 'ip config \<Rightarrow> kf_write list" where
  "all_writes G c =
     put ''api'' ''class'' (Some (class_name (cf_class c))) @
     put ''api'' ''version'' (Some VERSION) @ save_class G c"

lemma save_to_keyfile_writes: "save_to_keyfile G c = kf_writes G (all_writes G c) (kf_new G)"
  by (simp add: save_to_keyfile_def all_writes_def)

definition mount_section :: "('f, 'd, 'ip) glib \<Rightarrow> mount \<Rightarrow> (string \<times> string) list" where
  "mount_section G m =
     [(''type'', mount_type_name (mount_type_of m)), (''target'', mt_target m)] @
     (case mt_kind m of Ram u \<Rightarrow> [(''usage'', dec (unat u))]
      | Host_image s f \<Rightarrow> [(''format'', fmt_nick G f), (''source'', s)]
      | Host_bind s \<Rightarrow> [(''source'', s)] | Guest_bind s \<Rightarrow> [(''source'', s)])"

definition network_section :: "('f, 'd, 'ip) glib \<Rightarrow> 'ip network \<Rightarrow> (string \<times> string) list" where
  "network_section G n =
     (''dhcp'', kf_of_bool G (nw_dhcp n)) #
     (case nw_source n of None \<Rightarrow> [] | Some s \<Rightarrow> [(''source'', s)]) @
     (case nw_mac n of None \<Rightarrow> [] | Some s \<Rightarrow> [(''mac'', s)]) @
     [(''addresses'', kf_of_u64 G (of_nat (length (nw_addrs n)))),
      (''routes'', kf_of_u64 G (of_nat (length (nw_routes n))))]"

lemma section_elements [sec_simps]:
  "kf_section g (save_env i kv) =
     (if g = dotted [''env'', dec i] then [(''key'', fst kv), (''value'', snd kv)] else [])"
  "kf_section g (save_disk G i d) =
     (if g = dotted [''disk'', dec i] then [(''type'', dtype_nick G (dk_type d)), (''source'', dk_source d),
       (''tag'', dk_tag d), (''format'', fmt_nick G (dk_format d))] else [])"
  "kf_section g (save_include i j ds) =
     (if g = dotted [''mount'', dec i, ''include'', dec j] then [(''dst'', fst ds), (''src'', snd ds)] else [])"
  "kf_section g (save_argv i v) = (if g = ''command'' then [(dotted [''argv'', dec i], v)] else [])"
  by (auto simp: save_env_def save_disk_def save_include_def save_argv_def sec_simps Let_def)

lemma section_address_other [sec_simps]:
  "g \<noteq> dotted [''network'', dec i, ''address'', dec j] \<Longrightarrow> kf_section g (save_address G i j a) = []"
  "g \<noteq> dotted [''network'', dec i, ''route'', dec j] \<Longrightarrow> kf_section g (save_route G i j r) = []"
  by (auto simp: save_address_def save_route_def Let_def sec_simps)

lemma section_mount [sec_simps]:
  "kf_section g (save_mount G i m) =
     (if g = dotted [''mount'', dec i] then mount_section G m else []) @
     kf_section g (save_each (save_include i) 0 (hash_order G (mt_includes m)))"
  by (auto simp: save_mount_def mount_section_def Let_def sec_simps split: mount_kind.splits)

lemma section_network [sec_simps]:
  "kf_section g (save_network G i n) =
     kf_section g (save_each (save_address G i) 0 (nw_addrs n)) @
     kf_section g (save_each (save_route G i) 0 (nw_routes n)) @
     (if g = dotted [''network'', dec i] then network_section G n else [])"
  by (auto simp: save_network_def network_section_def Let_def sec_simps split: option.splits)

lemma section_class [sec_simps]:
  "g \<noteq> ''command'' \<Longrightarrow> g \<noteq> ''interactive'' \<Longrightarrow> g \<noteq> ''service'' \<Longrightarrow> g \<noteq> ''api'' \<Longrightarrow>
   kf_section g (all_writes G c) = kf_section g (save_config G c)"
  by (auto simp: all_writes_def save_class_def interactive_save_def service_systemd_save_def
      service_generic_save_def sec_simps section_each_Nil split: config_class.splits)

text \<open>Every group of the file, found among all writes.\<close>

lemma section_mounts:
  "kf_section (dotted [''mount'', dec n]) (all_writes G c) =
     (if n < length (cf_mounts c) then mount_section G (cf_mounts c ! n) else [])"
  by (simp add: sec_simps save_config_def section_each_Nil section_each [where n = n])

lemma section_includes:
  "kf_section (dotted [''mount'', dec n, ''include'', dec j]) (all_writes G c) =
     (if n < length (cf_mounts c) \<and> j < length (hash_order G (mt_includes (cf_mounts c ! n)))
      then (let ds = hash_order G (mt_includes (cf_mounts c ! n)) ! j in [(''dst'', fst ds), (''src'', snd ds)])
      else [])"
  by (simp add: sec_simps save_config_def section_each_Nil section_each [where n = n]
      section_each [where n = j] Let_def)

lemma section_envs:
  "kf_section (dotted [''env'', dec n]) (all_writes G c) =
     (if n < length (hash_order G (cf_envs c)) then
        [(''key'', fst (hash_order G (cf_envs c) ! n)), (''value'', snd (hash_order G (cf_envs c) ! n))]
      else [])"
  by (simp add: sec_simps save_config_def section_each_Nil section_each [where n = n])

lemma section_disks:
  "kf_section (dotted [''disk'', dec n]) (all_writes G c) =
     (if n < length (cf_disks c) then
        (let d = cf_disks c ! n in [(''type'', dtype_nick G (dk_type d)), (''source'', dk_source d),
           (''tag'', dk_tag d), (''format'', fmt_nick G (dk_format d))])
      else [])"
  by (simp add: sec_simps save_config_def section_each_Nil section_each [where n = n] Let_def)

lemma section_networks:
  "kf_section (dotted [''network'', dec n]) (all_writes G c) =
     (if n < length (cf_networks c) then network_section G (cf_networks c ! n) else [])"
  by (simp add: sec_simps save_config_def section_each_Nil section_each [where n = n])

lemma section_addresses:
  "kf_section (dotted [''network'', dec n, ''address'', dec j]) (all_writes G c) =
     (if n < length (cf_networks c) \<and> j < length (nw_addrs (cf_networks c ! n))
      then kf_section (dotted [''network'', dec n, ''address'', dec j])
             (save_address G n j (nw_addrs (cf_networks c ! n) ! j)) else [])"
  by (simp add: sec_simps save_config_def section_each_Nil section_each [where n = n]
      section_each [where n = j])

lemma section_routes:
  "kf_section (dotted [''network'', dec n, ''route'', dec j]) (all_writes G c) =
     (if n < length (cf_networks c) \<and> j < length (nw_routes (cf_networks c ! n))
      then kf_section (dotted [''network'', dec n, ''route'', dec j])
             (save_route G n j (nw_routes (cf_networks c ! n) ! j)) else [])"
  by (simp add: sec_simps save_config_def section_each_Nil section_each [where n = n]
      section_each [where n = j])

section \<open>All writes are UTF-8\<close>

context glib_laws
begin

lemma utf8_literal: "list_all (\<lambda>ch. (of_char ch :: nat) < 128) s \<Longrightarrow> utf8 G s"
  by (rule utf8_ascii) (simp add: list_all_iff)

lemma utf8_put: "writes_utf8 G (put_bool G g k b)" "writes_utf8 G (put_u64 G g k n)"
  by (simp_all add: put_bool_def put_u64_def utf8_conv)

lemma utf8_put_opt: "utf8_opt G v \<Longrightarrow> writes_utf8 G (put g k v)"
  by (cases v) (simp_all add: put_def utf8_opt_def)

lemma utf8_put_some: "utf8 G v \<Longrightarrow> writes_utf8 G (put g k (Some v))"
  by (simp add: put_def)

lemma utf8_hash_order:
  "(k, v) \<in> set (hash_order G kvs) \<Longrightarrow> distinct (map fst kvs) \<Longrightarrow> utf8_pairs G kvs \<Longrightarrow>
   utf8 G k \<and> utf8 G v"
  using hash_order_facts(2) [of kvs] by (auto simp: utf8_pairs_def list_all_iff)

lemma utf8_opt_simps [simp]: "utf8_opt G None" "utf8_opt G (Some s) \<longleftrightarrow> utf8 G s"
  by (simp_all add: utf8_opt_def)

lemma utf8_type_name: "utf8 G (mount_type_name t)"
  by (cases t) (simp_all add: mount_type_name_def utf8_literal)

lemma utf8_save_mount: "mount_saveable G m \<Longrightarrow> writes_utf8 G (save_mount G i m)"
  by (cases "mt_kind m")
    (auto simp: save_mount_def mount_saveable_def Let_def save_include_def utf8_type_name utf8_dec
      utf8_nicks intro!: utf8_put_some writes_utf8_each dest: utf8_hash_order)

lemma utf8_save_network: "network_saveable G n \<Longrightarrow> writes_utf8 G (save_network G i n)"
  by (auto simp: save_network_def network_saveable_def Let_def save_address_def save_route_def utf8_put
      writes_utf8_put utf8_inet intro!: writes_utf8_each utf8_put_opt)

lemma utf8_save_disk: "disk_saveable G d \<Longrightarrow> writes_utf8 G (save_disk G i d)"
  by (simp add: save_disk_def disk_saveable_def Let_def utf8_nicks writes_utf8_put)

lemma utf8_save_config: "saveable G c \<Longrightarrow> writes_utf8 G (save_config G c)"
  by (auto simp: save_config_def saveable_def utf8_put list_all_iff save_env_def Let_def
      intro!: writes_utf8_each utf8_put_opt utf8_put_some utf8_save_mount utf8_save_network utf8_save_disk
      dest: utf8_hash_order)

lemma utf8_all_writes:
  assumes "saveable G c"
  shows "writes_utf8 G (all_writes G c)"
proof -
  have "class_saveable G (cf_class c)" using assms by (simp add: saveable_def)
  then have "writes_utf8 G (save_class G c)"
    by (auto simp: save_class_def interactive_save_def service_systemd_save_def service_generic_save_def
        class_saveable_def list_all_iff save_argv_def utf8_put utf8_save_config [OF assms]
        intro!: writes_utf8_each utf8_put_opt utf8_put_some split: config_class.splits)
  moreover have "utf8 G (class_name (cf_class c))" "utf8 G VERSION"
    by (auto simp: class_name_def VERSION_def intro!: utf8_literal split: config_class.splits)
  ultimately show ?thesis by (simp add: all_writes_def writes_utf8_put)
qed

end

section \<open>The loops load everything back\<close>

lemma update_new: "k \<notin> fst ` set al \<Longrightarrow> AList.update k v al = al @ [(k, v)]"
  by (induction al) auto

lemma fold_update_new:
  "distinct (map fst al @ map fst kvs) \<Longrightarrow> fold (\<lambda>(k, v). AList.update k v) kvs al = al @ kvs"
proof (induction kvs arbitrary: al)
  case (Cons kv kvs)
  then show ?case by (cases kv) (simp add: update_new)
qed simp

lemma fold_includes_new:
  "distinct (map fst (mt_includes m) @ map fst kvs) \<Longrightarrow>
   fold (\<lambda>(src, dst) m. mount_add_include m src dst) (map (\<lambda>(k, v). (v, k)) kvs) m =
     m\<lparr>mt_includes := mt_includes m @ kvs\<rparr>"
proof (induction kvs arbitrary: m)
  case (Cons kv kvs)
  then show ?case by (cases kv) (simp add: mount_add_include_def update_new)
qed simp

lemma strtol_usage: "(of_int (fst (strtol (dec (unat u)))) :: 32 word) = of_int (min LONG_MAX (uint u))"
  by (simp add: strtol_dec)

abbreviation saved :: "('f, 'd, 'ip) glib \<Rightarrow> 'ip config \<Rightarrow> 'f" where
  "saved G c \<equiv> kf_writes G (all_writes G c) (kf_new G)"

context glib_laws
begin

lemma load_envs_saved:
  assumes "saveable G c"
  shows "load_each (load_env G (saved G c)) [0..<n] = Inr (take n (hash_order G (cf_envs c)))"
proof -
  note u = utf8_all_writes [OF assms]
  have "load_each (load_env G (saved G c)) [0..<n] = Inr (map id (take n (hash_order G (cf_envs c))))"
  proof (rule load_each_saved)
    fix k assume "k < length (hash_order G (cf_envs c))"
    then show "load_env G (saved G c) k = Inr (Some (id (hash_order G (cf_envs c) ! k)))"
      using load_env_saved [OF u, of k] by (simp add: section_envs)
  next
    fix k assume "length (hash_order G (cf_envs c)) \<le> k"
    then show "load_env G (saved G c) k = Inr None"
      by (simp add: load_env_def get_no_group [OF u] section_envs)
  qed
  then show ?thesis by simp
qed

lemma load_disks_saved:
  assumes "saveable G c"
  shows "load_each (load_disk G (saved G c)) [0..<n] = Inr (take n (cf_disks c))"
proof -
  note u = utf8_all_writes [OF assms]
  have "load_each (load_disk G (saved G c)) [0..<n] = Inr (map id (take n (cf_disks c)))"
  proof (rule load_each_saved)
    fix k assume k: "k < length (cf_disks c)"
    then have "disk_saveable G (cf_disks c ! k)" using assms by (simp add: saveable_def list_all_length)
    with k show "load_disk G (saved G c) k = Inr (Some (id (cf_disks c ! k)))"
      using load_disk_saved [OF u, of k "cf_disks c ! k"] by (simp add: section_disks Let_def)
  next
    fix k assume "length (cf_disks c) \<le> k"
    then show "load_disk G (saved G c) k = Inr None"
      by (simp add: load_disk_def get_no_group [OF u] section_disks)
  qed
  then show ?thesis by simp
qed

lemma load_include_saved:
  assumes "saveable G c" "i < length (cf_mounts c)"
  shows "load_until (load_include G (saved G c) i) [0..<n] =
    Inr (map (\<lambda>(k, v). (v, k)) (take n (hash_order G (mt_includes (cf_mounts c ! i)))))"
proof (rule load_until_saved)
  note u = utf8_all_writes [OF assms(1)]
  let ?incs = "hash_order G (mt_includes (cf_mounts c ! i))"
  show "load_include G (saved G c) i k = Inr (Some (case ?incs ! k of (k, v) \<Rightarrow> (v, k)))" if "k < length ?incs" for k
  proof -
    have "kf_section (dotted [''mount'', dec i, ''include'', dec k]) (all_writes G c) =
      [(''dst'', fst (?incs ! k)), (''src'', snd (?incs ! k))]"
      using assms(2) that by (simp add: section_includes Let_def)
    then show ?thesis
      by (simp add: load_include_def Let_def get_str_saved [OF u] get_found [OF u] split: prod.split)
  qed
  show "load_include G (saved G c) i k = Inr None" if "length ?incs \<le> k" for k
    using that by (simp add: load_include_def get_no_group [OF u] section_includes)
qed

lemma load_mount_type_saved: "load_mount_type G (mount_type_name t) = Inr t"
  by (cases t) (simp_all add: load_mount_type_def mount_type_name_def)

lemma load_mount_kind_saved:
  assumes "saveable G c" "i < length (cf_mounts c)"
  defines "m \<equiv> cf_mounts c ! i"
  shows "load_mount_kind G (saved G c) (dotted [''mount'', dec i]) (mount_type_of m) =
    Inr (persisted_kind (mt_kind m))"
proof -
  note u = utf8_all_writes [OF assms(1)]
  have sec: "kf_section (dotted [''mount'', dec i]) (all_writes G c) = mount_section G m"
    using assms by (simp add: section_mounts)
  have "mount_saveable G m" using assms by (simp add: saveable_def list_all_length)
  then show ?thesis
    by (cases "mt_kind m")
      (simp_all add: load_mount_kind_def mount_type_of_def persisted_kind_def get_str_saved [OF u] sec
        mount_section_def mount_saveable_def strtol_usage persisted_usage_def)
qed

lemma load_mount_saved:
  assumes "saveable G c" "i < length (cf_mounts c)"
  shows "load_mount G (saved G c) i = Inr (Some (persisted_mount G (cf_mounts c ! i)))"
proof -
  note u = utf8_all_writes [OF assms(1)]
  define m where "m = cf_mounts c ! i"
  have m: "mount_saveable G m" using assms by (simp add: saveable_def list_all_length m_def)
  have sec: "kf_section (dotted [''mount'', dec i]) (all_writes G c) = mount_section G m"
    using assms by (simp add: section_mounts m_def)
  have get: "kf_get G (saved G c) (dotted [''mount'', dec i]) ''target'' = Inr (mt_target m)"
    "get_str G (saved G c) (dotted [''mount'', dec i]) ''type'' = Some (mount_type_name (mount_type_of m))"
    by (cases "mt_kind m"; simp add: get_found [OF u] get_str_saved [OF u] sec mount_section_def)+
  have "distinct (map fst (take 1024 (hash_order G (mt_includes m))))"
    using m hash_order_facts(1) [of "mt_includes m"] by (simp add: mount_saveable_def take_map [symmetric])
  then have "fold (\<lambda>(src, dst) m. mount_add_include m src dst)
      (map (\<lambda>(k, v). (v, k)) (take 1024 (hash_order G (mt_includes m))))
      (mount_new (mt_target m) (persisted_kind (mt_kind m))) = persisted_mount G m"
    by (simp add: fold_includes_new mount_new_def persisted_mount_def)
  then show ?thesis
    using load_include_saved [OF assms, of 1024] load_mount_kind_saved [OF assms]
    by (simp add: load_mount_def Let_def get load_mount_type_saved m_def)
qed

lemma load_mounts_saved:
  assumes "saveable G c"
  shows "load_each (load_mount G (saved G c)) [0..<n] = Inr (map (persisted_mount G) (take n (cf_mounts c)))"
proof (rule load_each_saved)
  note u = utf8_all_writes [OF assms]
  show "load_mount G (saved G c) k = Inr None" if "length (cf_mounts c) \<le> k" for k
    using that by (simp add: load_mount_def get_no_group [OF u] section_mounts)
qed (rule load_mount_saved [OF assms])

lemma load_network_saved:
  assumes "saveable G c" "i < length (cf_networks c)"
  shows "load_network G (saved G c) i = Inr (Some (persisted_network (cf_networks c ! i)))"
proof -
  note u = utf8_all_writes [OF assms(1)]
  define n where "n = cf_networks c ! i"
  have n: "network_saveable G n" using assms by (simp add: saveable_def list_all_length n_def)
  have sec: "kf_section (dotted [''network'', dec i]) (all_writes G c) = network_section G n"
    using assms by (simp add: section_networks n_def)
  have get: "kf_get_bool G (saved G c) (dotted [''network'', dec i]) ''dhcp'' = Inr (nw_dhcp n)"
    "get_str G (saved G c) (dotted [''network'', dec i]) ''source'' = nw_source n"
    "get_str G (saved G c) (dotted [''network'', dec i]) ''mac'' = nw_mac n"
    by (cases "nw_source n"; cases "nw_mac n";
        simp add: get_bool_found [OF u] get_str_saved [OF u] sec network_section_def)+
  have "load_until (load_address G (saved G c) i) [0..<100] = Inr (map id (take 100 (nw_addrs n)))"
  proof (rule load_until_saved)
    fix k assume k: "k < length (nw_addrs n)"
    with n have "na_primary (nw_addrs n ! k) \<noteq> None" "na_prefix (nw_addrs n ! k) \<le> 128"
      by (simp_all add: network_saveable_def list_all_length)
    with k assms show "load_address G (saved G c) i k = Inr (Some (id (nw_addrs n ! k)))"
      by (simp add: load_address_saved [OF u] section_addresses n_def)
  next
    fix k assume "length (nw_addrs n) \<le> k"
    then show "load_address G (saved G c) i k = Inr None"
      by (simp add: load_address_def get_no_group [OF u] section_addresses n_def)
  qed
  moreover have "load_until (load_route G (saved G c) i) [0..<100] = Inr (map id (take 100 (nw_routes n)))"
  proof (rule load_until_saved)
    fix k assume k: "k < length (nw_routes n)"
    with n have "nr_target (nw_routes n ! k) \<noteq> None" "nr_prefix (nw_routes n ! k) \<le> 128"
      by (simp_all add: network_saveable_def list_all_length)
    with k assms show "load_route G (saved G c) i k = Inr (Some (id (nw_routes n ! k)))"
      by (simp add: load_route_saved [OF u] section_routes n_def)
  next
    fix k assume "length (nw_routes n) \<le> k"
    then show "load_route G (saved G c) i k = Inr None"
      by (simp add: load_route_def get_no_group [OF u] section_routes n_def)
  qed
  ultimately show ?thesis
    by (simp add: load_network_def Let_def get bool_or_def network_new_def persisted_network_def n_def)
qed

lemma load_networks_saved:
  assumes "saveable G c"
  shows "load_each (load_network G (saved G c)) [0..<n] = Inr (map persisted_network (take n (cf_networks c)))"
proof (rule load_each_saved)
  note u = utf8_all_writes [OF assms]
  show "load_network G (saved G c) k = Inr None" if "length (cf_networks c) \<le> k" for k
    using that by (simp add: load_network_def kf_get_bool_def get_no_group [OF u] section_networks)
qed (rule load_network_saved [OF assms])

end

section \<open>The single-valued groups\<close>

text \<open>The value written last under a key.\<close>

definition sec_val :: "string \<Rightarrow> string \<Rightarrow> kf_write list \<Rightarrow> string option" where
  "sec_val g k ws = map_of (rev (kf_section g ws)) k"

lemma sec_val_append [sec_simps]:
  "sec_val g k (ws @ vs) = opt_or (sec_val g k ws) (sec_val g k vs)"
  by (simp add: sec_val_def map_add_def opt_or_def split: option.splits)

lemma opt_or_simps [sec_simps]: "opt_or x None = x" "opt_or x (Some v) = Some v" "opt_or None y = y"
  by (simp_all add: opt_or_def split: option.split)

lemma sec_val_put [sec_simps]: "sec_val g k (put g' k' v) = (if g' = g \<and> k' = k then v else None)"
  by (cases v; cases "g' = g"; cases "k' = k") (simp_all add: sec_val_def section_put(1))

lemma sec_val_put_conv [sec_simps]:
  "sec_val g k (put_bool G g' k' b) = (if g' = g \<and> k' = k then Some (kf_of_bool G b) else None)"
  "sec_val g k (put_u64 G g' k' n) = (if g' = g \<and> k' = k then Some (kf_of_u64 G n) else None)"
  by (simp_all add: sec_val_def section_put)

lemma sec_val_each_other [sec_simps]:
  "CHR ''.'' \<notin> set g \<Longrightarrow> sec_val g k (save_each (save_mount G) i ms) = None"
  "CHR ''.'' \<notin> set g \<Longrightarrow> sec_val g k (save_each save_env i es) = None"
  "CHR ''.'' \<notin> set g \<Longrightarrow> sec_val g k (save_each (save_disk G) i ds) = None"
  "CHR ''.'' \<notin> set g \<Longrightarrow> sec_val g k (save_each (save_network G) i ns) = None"
  "g \<noteq> ''command'' \<Longrightarrow> sec_val g k (save_each save_argv i argv) = None"
  by (simp_all add: sec_val_def sec_simps section_each_Nil)

lemma sec_val_argv:
  "sec_val ''command'' (dotted [''argv'', dec k]) (save_each save_argv i argv) =
     (if i \<le> k \<and> k - i < length argv then Some (argv ! (k - i)) else None)"
proof (induction save_argv i argv rule: save_each.induct)
  case (2 i x xs)
  consider "i = k" | "i < k" | "k < i" by linarith
  then show ?case
  proof cases
    case 2
    then have "k - i = Suc (k - Suc i)" by simp
    with 2 \<open>sec_val ''command'' _ _ = _\<close> show ?thesis
      by (simp add: sec_simps save_argv_def)
  qed (use 2 in \<open>simp_all add: sec_simps save_argv_def\<close>)
qed (simp add: sec_val_def)

lemma sec_val_class [sec_simps]:
  "g \<noteq> ''command'' \<Longrightarrow> g \<noteq> ''interactive'' \<Longrightarrow> g \<noteq> ''service'' \<Longrightarrow> g \<noteq> ''api'' \<Longrightarrow>
   sec_val g k (all_writes G c) = sec_val g k (save_config G c)"
  by (simp add: sec_val_def section_class)

context glib_laws
begin

lemma get_str_val: "writes_utf8 G ws \<Longrightarrow> get_str G (kf_writes G ws (kf_new G)) g k = sec_val g k ws"
  by (auto simp: get_str_def get_writes section_get_def sec_val_def split: option.splits)

lemma get_val:
  "writes_utf8 G ws \<Longrightarrow> sec_val g k ws = Some v \<Longrightarrow> kf_get G (kf_writes G ws (kf_new G)) g k = Inr v"
  by (simp add: sec_val_def get_found)

lemma get_bool_val:
  "writes_utf8 G ws \<Longrightarrow> sec_val g k ws = Some (kf_of_bool G b) \<Longrightarrow>
   kf_get_bool G (kf_writes G ws (kf_new G)) g k = Inr b"
  by (simp add: sec_val_def get_bool_found)

lemma get_u64_val:
  "writes_utf8 G ws \<Longrightarrow> sec_val g k ws = Some (kf_of_u64 G n) \<Longrightarrow>
   kf_get_u64 G (kf_writes G ws (kf_new G)) g k = Inr n"
  by (simp add: sec_val_def get_u64_found)

lemma load_core_saved:
  assumes "saveable G c" "cf_name d = None" "cf_uuid d = None" "cf_kernrelease d = None"
    "cf_kernpath d = None" "cf_kmodpath d = None"
  shows "load_core G (saved G c) d =
    d\<lparr>cf_name := cf_name c, cf_uuid := cf_uuid c, cf_root := cf_root c, cf_arch := cf_arch c,
      cf_kernrelease := cf_kernrelease c, cf_kernpath := cf_kernpath c, cf_kmodpath := cf_kmodpath c,
      cf_shell := cf_shell c, cf_uid := cf_uid c, cf_gid := cf_gid c, cf_username := cf_username c,
      cf_homedir := cf_homedir c\<rparr>"
proof -
  note u = utf8_all_writes [OF assms(1)]
  note v = sec_simps save_config_def
  have strs: "get_str G (saved G c) ''core'' ''name'' = cf_name c"
    "get_str G (saved G c) ''core'' ''uuid'' = cf_uuid c"
    "get_str G (saved G c) ''core'' ''root'' = Some (cf_root c)"
    "get_str G (saved G c) ''core'' ''arch'' = Some (cf_arch c)"
    "get_str G (saved G c) ''core'' ''kernrelease'' = cf_kernrelease c"
    "get_str G (saved G c) ''core'' ''kernpath'' = cf_kernpath c"
    "get_str G (saved G c) ''core'' ''kmodpath'' = cf_kmodpath c"
    "get_str G (saved G c) ''identity'' ''username'' = Some (cf_username c)"
    "get_str G (saved G c) ''identity'' ''homedir'' = Some (cf_homedir c)"
    by (simp_all add: get_str_val [OF u] v split: option.splits)
  have nums: "kf_get_bool G (saved G c) ''core'' ''shell'' = Inr (cf_shell c)"
    "kf_get_u64 G (saved G c) ''identity'' ''uid'' = Inr (ucast (cf_uid c))"
    "kf_get_u64 G (saved G c) ''identity'' ''gid'' = Inr (ucast (cf_gid c))"
    by (rule get_bool_val [OF u] get_u64_val [OF u], simp add: v)+
  show ?thesis
    by (simp add: load_core_def strs nums assms opt_or_simps str_or_def bool_or_def u64_or_def ucast_prefix)
qed

lemma load_security_saved:
  assumes "saveable G c"
  shows "load_security G (saved G c) d =
    d\<lparr>cf_secLabel := cf_secLabel c, cf_secDynamic := cf_secDynamic c, cf_debug := cf_debug c,
      cf_verbose := cf_verbose c\<rparr>"
proof -
  note u = utf8_all_writes [OF assms(1)]
  note v = sec_simps save_config_def
  have "get_str G (saved G c) ''security'' ''label'' = cf_secLabel c"
    by (simp add: get_str_val [OF u] v split: option.splits)
  moreover have "kf_get_bool G (saved G c) ''security'' ''dynamic'' = Inr (cf_secDynamic c)"
    "kf_get_bool G (saved G c) ''core'' ''debug'' = Inr (cf_debug c)"
    "kf_get_bool G (saved G c) ''core'' ''verbose'' = Inr (cf_verbose c)"
    by (rule get_bool_val [OF u], simp add: v)+
  ultimately show ?thesis by (simp add: load_security_def bool_or_def)
qed

lemma load_config_saved:
  assumes "saveable G c"
  shows "load_config G (saved G c) (config_new E cls None) = Inr ((persisted G c)\<lparr>cf_class := cls\<rparr>)"
proof -
  have "distinct (map fst (take 1024 (hash_order G (cf_envs c))))"
    using assms hash_order_facts(1) [of "cf_envs c"] by (simp add: saveable_def take_map [symmetric])
  then have "fold (\<lambda>(k, v). AList.update k v) (take 1024 (hash_order G (cf_envs c))) [] =
      take 1024 (hash_order G (cf_envs c))"
    by (simp add: fold_update_new)
  then show ?thesis
    by (simp add: load_config_def Let_def load_core_saved [OF assms] load_security_saved [OF assms]
        load_networks_saved [OF assms] load_mounts_saved [OF assms] load_envs_saved [OF assms]
        load_disks_saved [OF assms] config_new_def config_init_def persisted_def)
qed

lemma load_argv_saved:
  assumes "saveable G c" "argv \<noteq> []"
    "\<And>k. sec_val ''command'' k (all_writes G c) = sec_val ''command'' k (save_each save_argv 0 argv)"
  shows "load_argv G (saved G c) = Inr (take 1024 argv)"
proof -
  note u = utf8_all_writes [OF assms(1)]
  note val = sec_val_argv [where i = 0, simplified]
  have "load_until (load_arg G (saved G c)) [0..<1024] = Inr (map id (take 1024 argv))"
  proof (rule load_until_saved)
    fix k assume "k < length argv"
    then show "load_arg G (saved G c) k = Inr (Some (id (argv ! k)))"
      by (simp add: load_arg_def get_val [OF u] assms(3) val)
  next
    have "sec_val ''command'' (dotted [''argv'', dec 0]) (all_writes G c) \<noteq> None"
      using assms(2,3) by (simp add: val)
    then have ne: "kf_section ''command'' (all_writes G c) \<noteq> []" by (auto simp: sec_val_def)
    fix k assume "length argv \<le> k"
    then have "sec_val ''command'' (dotted [''argv'', dec k]) (all_writes G c) = None"
      by (simp add: assms(3) val)
    with ne show "load_arg G (saved G c) k = Inr None"
      by (simp add: load_arg_def get_writes [OF u] section_get_def sec_val_def)
  qed
  then show ?thesis by (simp add: load_argv_def)
qed

lemma load_keyfile_saved:
  assumes "saveable G c"
  shows "load_from_keyfile G E (save_to_keyfile G c) = Inr (persisted G c)"
proof -
  note u = utf8_all_writes [OF assms]
  note cls = all_writes_def save_class_def interactive_save_def service_systemd_save_def
    service_generic_save_def sec_simps save_config_def
  have cs: "class_saveable G (cf_class c)" using assms by (simp add: saveable_def)
  have name: "get_str G (saved G c) ''api'' ''class'' = Some (class_name (cf_class c))"
    unfolding get_str_val [OF u] by (simp add: cls split: config_class.split option.splits)
  show ?thesis
  proof (cases "cf_class c")
    case (Interactive tty argv)
    then have "load_argv G (saved G c) = Inr (take 1024 argv)"
      using cs by (intro load_argv_saved [OF assms]) (simp_all add: class_saveable_def cls)
    moreover have "kf_get_bool G (saved G c) ''interactive'' ''tty'' = Inr tty"
      by (rule get_bool_val [OF u]) (simp add: Interactive cls)
    ultimately show ?thesis
      using name Interactive
      by (simp add: save_to_keyfile_writes load_from_keyfile_def interactive_load_def load_config_saved [OF assms]
          class_name_def interactive_init_def bool_or_def persisted_def persisted_class_def)
  next
    case (Service_systemd target)
    then obtain t where t: "target = Some t" using cs by (auto simp: class_saveable_def)
    have "kf_get G (saved G c) ''service'' ''bootTarget'' = Inr t"
      by (rule get_val [OF u]) (simp add: Service_systemd t cls)
    then show ?thesis
      using name Service_systemd t
      by (simp add: save_to_keyfile_writes load_from_keyfile_def service_systemd_load_def
          load_config_saved [OF assms] class_name_def interactive_init_def service_systemd_init_def
          persisted_def persisted_class_def)
  next
    case (Service_generic argv)
    then have "load_argv G (saved G c) = Inr (take 1024 argv)"
      using cs by (intro load_argv_saved [OF assms]) (simp_all add: class_saveable_def cls)
    then show ?thesis
      using name Service_generic
      by (simp add: save_to_keyfile_writes load_from_keyfile_def service_generic_load_def
          load_config_saved [OF assms] class_name_def interactive_init_def service_systemd_init_def
          service_generic_init_def persisted_def persisted_class_def)
  qed
qed

end

end
