(* ===== verification/Config_Claims.thy ===== *)
theory Config_Claims
  imports Config_Roundtrip
begin

text \<open>
  The properties of the configuration code: files, the option parsers, includes. The options are
  compared with the strings that describe an object (\<open>mount_opt\<close> and its like), which the
  parsers have to invert.
\<close>

section \<open>Files\<close>

text \<open>Loading reads a key file through \<open>g_key_file_get_string\<close> only.\<close>

lemma load_same_keys:
  assumes "kf_get G f = kf_get G f'"
  shows "load_from_keyfile G E f = load_from_keyfile G E f'"
proof -
  have bool: "kf_get_bool G f = kf_get_bool G f'" and u64: "kf_get_u64 G f = kf_get_u64 G f'"
    and str: "get_str G f = get_str G f'"
    by (simp_all add: fun_eq_iff kf_get_bool_def kf_get_u64_def get_str_def assms)
  have each: "load_address G f = load_address G f'" "load_route G f = load_route G f'"
    "load_mount_kind G f = load_mount_kind G f'" "load_include G f = load_include G f'"
    "load_env G f = load_env G f'" "load_disk G f = load_disk G f'" "load_arg G f = load_arg G f'"
    "load_core G f = load_core G f'" "load_security G f = load_security G f'"
    unfolding fun_eq_iff load_address_def load_route_def load_mount_kind_def load_include_def
      load_env_def load_disk_def load_arg_def load_core_def load_security_def assms bool u64 str
    by blast+
  have parts: "load_network G f = load_network G f'" "load_mount G f = load_mount G f'"
    "load_argv G f = load_argv G f'"
    unfolding fun_eq_iff load_network_def load_mount_def load_argv_def assms bool str each by blast+
  have cfg: "load_config G f = load_config G f'"
    unfolding fun_eq_iff load_config_def each parts by blast
  show ?thesis
    unfolding load_from_keyfile_def interactive_load_def service_systemd_load_def
      service_generic_load_def assms bool str cfg parts by (rule refl)
qed

context glib_laws
begin

lemma load_data_saved:
  "saveable G c \<Longrightarrow> load_from_data G E (save_to_data G c) = Inr (persisted G c)"
  using data [of "save_to_keyfile G c"] load_same_keys [of G _ "save_to_keyfile G c" E]
  by (auto simp: load_from_data_def save_to_data_def load_keyfile_saved)

end

text \<open>Equal up to the order in which the hash tables are visited.\<close>

definition same_includes :: "mount \<Rightarrow> mount \<Rightarrow> bool" where
  "same_includes m m' \<longleftrightarrow>
     mt_target m = mt_target m' \<and> mt_kind m = mt_kind m' \<and> map_of (mt_includes m) = map_of (mt_includes m')"

definition same_config :: "'ip config \<Rightarrow> 'ip config \<Rightarrow> bool" where
  "same_config c c' \<longleftrightarrow>
     c\<lparr>cf_envs := [], cf_mounts := []\<rparr> = c'\<lparr>cf_envs := [], cf_mounts := []\<rparr> \<and>
     map_of (cf_envs c) = map_of (cf_envs c') \<and> list_all2 same_includes (cf_mounts c) (cf_mounts c')"

definition argv_of :: "config_class \<Rightarrow> string list" where
  "argv_of cls = (case cls of Interactive _ a \<Rightarrow> a | Service_generic a \<Rightarrow> a | Service_systemd _ \<Rightarrow> [])"

text \<open>Within the bounds of the loader.\<close>

definition mount_fits :: "mount \<Rightarrow> bool" where
  "mount_fits m \<longleftrightarrow> length (mt_includes m) \<le> 1024 \<and>
     (case mt_kind m of Ram u \<Rightarrow> unat u < 2 ^ 31 | _ \<Rightarrow> True)"

definition network_fits :: "'ip network \<Rightarrow> bool" where
  "network_fits n \<longleftrightarrow> length (nw_addrs n) \<le> 100 \<and> length (nw_routes n) \<le> 100 \<and> nw_filterref n = None"

definition config_fits :: "'ip config \<Rightarrow> bool" where
  "config_fits c \<longleftrightarrow>
     length (cf_networks c) \<le> 100 \<and> length (cf_mounts c) \<le> 1024 \<and> length (cf_envs c) \<le> 1024 \<and>
     length (cf_disks c) \<le> 1024 \<and> length (argv_of (cf_class c)) \<le> 1024 \<and>
     list_all network_fits (cf_networks c) \<and> list_all mount_fits (cf_mounts c)"

text \<open>A \<open>gint\<close> widened to a \<open>guint64\<close>.\<close>

lemma sint_gint: "- (2 ^ 31) \<le> sint (scast (w :: 32 word) :: 64 word) \<and> sint (scast w :: 64 word) < 2 ^ 31"
proof -
  have r: "- (2 ^ 31) \<le> sint w" "sint w < 2 ^ 31"
    using sint_greater_eq [of w] sint_less [of w] by simp_all
  have "sint (scast w :: 64 word) = signed_take_bit 63 (sint w)"
    by (simp only: scast_eq, subst signed_of_int) simp
  also have "\<dots> = sint w" using r by (intro signed_take_bit_int_eq_self) auto
  finally show ?thesis using r by simp
qed

lemma persisted_usage_fits:
  assumes "unat u < 2 ^ 31"
  shows "persisted_usage u = u"
proof -
  have u: "0 \<le> uint u" "uint u < 2 ^ 31" using assms by (simp_all add: nat_less_iff flip: nat_uint_eq)
  then have "min LONG_MAX (uint u) = uint u" by (simp add: LONG_MAX_def)
  moreover have "sint (of_int (uint u) :: 32 word) = uint u"
    using signed_take_bit_int_eq_self [of 31 "uint u", OF order_trans [OF _ u(1)] u(2)]
    by (subst signed_of_int) simp
  ultimately show ?thesis
    by (simp add: persisted_usage_def scast_eq)
qed

lemma persisted_network_fits: "network_fits n \<Longrightarrow> persisted_network n = n"
  by (simp add: network_fits_def persisted_network_def)

lemma persisted_class_fits: "length (argv_of cls) \<le> 1024 \<Longrightarrow> persisted_class cls = cls"
  by (cases cls) (simp_all add: argv_of_def persisted_class_def)

context glib_laws
begin

lemma persisted_mount_fits:
  assumes "mount_fits m" "distinct (map fst (mt_includes m))"
  shows "same_includes (persisted_mount G m) m"
proof -
  have "persisted_kind (mt_kind m) = mt_kind m"
    using assms(1) by (cases "mt_kind m") (simp_all add: persisted_kind_def mount_fits_def persisted_usage_fits)
  then show ?thesis
    using assms hash_order_perm [OF assms(2)]
    by (simp add: same_includes_def persisted_mount_def mount_fits_def)
qed

lemma persisted_fits:
  assumes "saveable G c" "config_fits c"
  shows "same_config (persisted G c) c"
proof -
  have d: "distinct (map fst (cf_envs c))" using assms(1) by (simp add: saveable_def)
  have "list_all2 same_includes (map (persisted_mount G) (cf_mounts c)) (cf_mounts c)"
    using assms by (auto simp: list_all2_conv_all_nth saveable_def config_fits_def list_all_length
        mount_saveable_def intro!: persisted_mount_fits)
  moreover have "map persisted_network (cf_networks c) = cf_networks c"
    using assms(2) by (simp add: config_fits_def list_all_iff persisted_network_fits map_idI)
  ultimately show ?thesis
    using assms(2) hash_order_perm [OF d] persisted_class_fits [of "cf_class c"]
    by (simp add: same_config_def persisted_def config_fits_def)
qed

end

section \<open>Whatever the file says\<close>

lemma load_each_range:
  "load_each f is = Inr xs \<Longrightarrow> length xs \<le> length is \<and> (\<forall>x \<in> set xs. \<exists>i \<in> set is. f i = Inr (Some x))"
  by (induction f "is" arbitrary: xs rule: load_each.induct)
    (fastforce split: sum.splits option.splits)+

lemma load_until_range: "load_until f is = Inr xs \<Longrightarrow> length xs \<le> length is"
  by (induction f "is" arbitrary: xs rule: load_until.induct)
    (fastforce split: sum.splits option.splits)+

definition mount_bounded :: "mount \<Rightarrow> bool" where
  "mount_bounded m \<longleftrightarrow> distinct (map fst (mt_includes m)) \<and> length (mt_includes m) \<le> 1024 \<and>
     (case mt_kind m of Ram u \<Rightarrow> - (2 ^ 31) \<le> sint u \<and> sint u < 2 ^ 31 | _ \<Rightarrow> True)"

definition config_bounded :: "'ip config \<Rightarrow> bool" where
  "config_bounded c \<longleftrightarrow>
     length (cf_networks c) \<le> 100 \<and> length (cf_mounts c) \<le> 1024 \<and> length (cf_envs c) \<le> 1024 \<and>
     length (cf_disks c) \<le> 1024 \<and> length (argv_of (cf_class c)) \<le> 1024 \<and>
     distinct (map fst (cf_envs c)) \<and> list_all network_fits (cf_networks c) \<and>
     list_all mount_bounded (cf_mounts c)"

lemma length_update_le: "length (AList.update k v al) \<le> Suc (length al)"
  by (induction al) auto

lemma fold_update_bounds:
  "distinct (map fst al) \<Longrightarrow> distinct (map fst (fold (\<lambda>(k, v). AList.update k v) kvs al)) \<and>
   length (fold (\<lambda>(k, v). AList.update k v) kvs al) \<le> length al + length kvs"
proof (induction kvs arbitrary: al)
  case (Cons kv kvs)
  obtain k v where kv: "kv = (k, v)" by fastforce
  have "distinct (map fst (AList.update k v al))" using Cons.prems by (simp add: distinct_update)
  from Cons.IH [OF this] length_update_le [of k v al] kv show ?case by simp
qed simp

lemma fold_includes_bounds:
  "distinct (map fst (mt_includes m)) \<Longrightarrow>
   (let m' = fold (\<lambda>(src, dst) m. mount_add_include m src dst) incs m in
    distinct (map fst (mt_includes m')) \<and> length (mt_includes m') \<le> length (mt_includes m) + length incs \<and>
    mt_kind m' = mt_kind m)"
proof (induction incs arbitrary: m)
  case (Cons i incs)
  obtain src dst where i: "i = (src, dst)" by fastforce
  have "distinct (map fst (mt_includes (mount_add_include m src dst)))"
    using Cons.prems by (simp add: distinct_update mount_add_include_def)
  from Cons.IH [OF this] length_update_le [of dst src "mt_includes m"] i
  show ?case by (simp add: mount_add_include_def Let_def)
qed simp

lemma load_mount_kind_bounded:
  "load_mount_kind G f g t = Inr (Ram u) \<Longrightarrow> - (2 ^ 31) \<le> sint u \<and> sint u < 2 ^ 31"
proof -
  assume "load_mount_kind G f g t = Inr (Ram u)"
  then obtain w :: "32 word" where "u = scast w"
    by (auto simp: load_mount_kind_def split: if_splits option.splits)
  then show ?thesis by (simp only: sint_gint)
qed

lemma load_mount_bounded: "load_mount G f i = Inr (Some m) \<Longrightarrow> mount_bounded m"
proof -
  assume "load_mount G f i = Inr (Some m)"
  then obtain g t kind target incs where kind: "load_mount_kind G f g t = Inr kind"
    and incs: "load_until (load_include G f i) [0..<1024] = Inr incs"
    and m: "m = fold (\<lambda>(src, dst) m. mount_add_include m src dst) incs (mount_new target kind)"
    by (auto simp: load_mount_def Let_def split: sum.splits option.splits kf_error.splits)
  have "length incs \<le> 1024" using load_until_range [OF incs] by simp
  with fold_includes_bounds [of "mount_new target kind" incs] m load_mount_kind_bounded [of G f g t] kind
  show ?thesis by (auto simp: mount_bounded_def mount_new_def Let_def split: mount_kind.split)
qed

lemma load_network_fits: "load_network G f i = Inr (Some n) \<Longrightarrow> network_fits n"
  by (auto simp: load_network_def Let_def network_fits_def network_new_def
      dest!: load_until_range split: if_splits sum.splits)

lemma load_argv_length: "load_argv G f = Inr argv \<Longrightarrow> length argv \<le> 1024"
  by (auto simp: load_argv_def dest!: load_until_range)

lemma load_config_bounded:
  assumes "load_config G f c = Inr c'" "cf_networks c = []" "cf_mounts c = []" "cf_envs c = []" "cf_disks c = []"
  shows "config_bounded (c'\<lparr>cf_class := Service_systemd target\<rparr>)"
proof -
  obtain nets mounts envs disks where nets: "load_each (load_network G f) [0..<100] = Inr nets"
    and mounts: "load_each (load_mount G f) [0..<1024] = Inr mounts"
    and envs: "load_each (load_env G f) [0..<1024] = Inr envs"
    and disks: "load_each (load_disk G f) [0..<1024] = Inr disks"
    and c': "cf_networks c' = nets" "cf_mounts c' = mounts" "cf_disks c' = disks"
      "cf_envs c' = fold (\<lambda>(k, v). AList.update k v) envs []"
    using assms by (auto simp: load_config_def Let_def load_security_def load_core_def split: sum.splits)
  have "list_all network_fits nets" "list_all mount_bounded mounts"
    using load_each_range [OF nets] load_each_range [OF mounts]
    by (metis list_all_iff load_network_fits, metis list_all_iff load_mount_bounded)
  then show ?thesis
    using load_each_range [OF nets] load_each_range [OF mounts] load_each_range [OF envs]
      load_each_range [OF disks] fold_update_bounds [of "[]" envs] c'
    by (simp add: config_bounded_def argv_of_def)
qed

lemma load_from_keyfile_bounded:
  assumes "load_from_keyfile G E f = Inr c"
  shows "config_bounded c"
proof -
  obtain d d' where d: "load_config G f d = Inr d'" "cf_networks d = []" "cf_mounts d = []" "cf_envs d = []"
      "cf_disks d = []" and c: "c = d'\<lparr>cf_class := cf_class c\<rparr>" "length (argv_of (cf_class c)) \<le> 1024"
    using assms
    by (auto simp: load_from_keyfile_def interactive_load_def service_systemd_load_def service_generic_load_def
        config_new_def config_init_def argv_of_def dest: load_argv_length split: option.splits if_splits sum.splits)
  have "config_bounded (d'\<lparr>cf_class := Service_systemd None\<rparr>)" by (rule load_config_bounded [OF d])
  moreover have "config_bounded (d'\<lparr>cf_class := cls\<rparr>) \<longleftrightarrow>
      config_bounded (d'\<lparr>cf_class := Service_systemd None\<rparr>) \<and> length (argv_of cls) \<le> 1024" for cls
    by (auto simp: config_bounded_def argv_of_def)
  ultimately show ?thesis using c by metis
qed

lemma glib_laws_ref: "glib_laws glib_ref"
  by (rule ref_glib.glib_laws_axioms)

text \<open>A configuration for the witnesses, with something of everything.\<close>

definition cfg_env :: host_env where
  "cfg_env = \<lparr>he_machine = ''x86_64'', he_euid = 0, he_egid = 0, he_user = ''root'', he_home = ''/root''\<rparr>"

definition cfg_network :: "nat network" where
  "cfg_network = \<lparr>nw_dhcp = False, nw_source = Some ''default'', nw_mac = None,
     nw_addrs = [\<lparr>na_primary = Some 7, na_prefix = 24, na_broadcast = Some 9\<rparr>],
     nw_routes = [\<lparr>nr_target = Some 8, nr_prefix = 16, nr_gateway = Some 7\<rparr>], nw_filterref = None\<rparr>"

definition cfg_mounts :: "mount list" where
  "cfg_mounts =
     [\<lparr>mt_target = ''/tmp'', mt_kind = Ram 4096, mt_includes = [(''a'', ''/a''), (''b'', ''/b'')]\<rparr>,
      \<lparr>mt_target = ''/'', mt_kind = Host_image ''/img'' 8, mt_includes = []\<rparr>]"

definition cfg :: "nat config" where
  "cfg = (config_init cfg_env (Interactive True [''/bin/ls'', ''-l'']))
     \<lparr>cf_networks := [cfg_network], cf_mounts := cfg_mounts,
      cf_disks := [\<lparr>dk_type = 1, dk_tag = ''db'', dk_source = ''/dev/sdb'', dk_format = 0\<rparr>],
      cf_envs := [(''PATH'', ''/bin''), (''HOME'', ''/'')]\<rparr>"

lemma cfg_saveable: "saveable glib_ref cfg"
  unfolding saveable_def cfg_def config_init_def cfg_env_def cfg_network_def cfg_mounts_def
  by (simp add: class_saveable_def utf8_opt_def network_saveable_def mount_saveable_def disk_saveable_def
      utf8_pairs_def glib_ref_def ascii_def nick_in_def format_table_def dtype_table_def)

lemma cfg_fits: "config_fits cfg"
  by (simp add: config_fits_def cfg_def config_init_def cfg_network_def cfg_mounts_def argv_of_def
      network_fits_def mount_fits_def)

text \<open>
  C14. A saved configuration loads back as what \<open>persisted\<close> says of it: for all classes, any
  number of mounts, networks and so on, whatever the process that loads it, everything is as it
  was, except that lists are cut at the loader's bounds, filters are lost and the RAM sizes are
  read through a \<open>gint\<close>.
\<close>

theorem saved_config_loads:
  assumes "glib_laws G" "saveable G c"
  shows "load_from_data G E (save_to_data G c) = Inr (persisted G c)"
  using assms by (rule glib_laws.load_data_saved)

theorem saved_config_loads_witness:
  "load_from_data glib_ref cfg_env (save_to_data glib_ref cfg) = Inr (persisted glib_ref cfg) \<and>
   cf_mounts (persisted glib_ref cfg) \<noteq> cf_mounts cfg"
proof
  show "load_from_data glib_ref cfg_env (save_to_data glib_ref cfg) = Inr (persisted glib_ref cfg)"
    by (rule saved_config_loads [OF glib_laws_ref cfg_saveable])
  show "cf_mounts (persisted glib_ref cfg) \<noteq> cf_mounts cfg"
    by (simp add: persisted_def cfg_def cfg_mounts_def persisted_mount_def glib_ref_def)
qed

text \<open>
  Within the bounds of the loader (100 networks, addresses and routes, 1024 of everything
  else, RAM mounts below 2 GiB, no filter) nothing is lost: what is loaded differs from what was
  saved at most in the order of the hash tables.
\<close>

theorem roundtrip_lossless:
  assumes "glib_laws G" "saveable G c" "config_fits c"
  shows "\<exists>c'. load_from_data G E (save_to_data G c) = Inr c' \<and> same_config c' c"
  using glib_laws.load_data_saved [OF assms(1,2)] glib_laws.persisted_fits [OF assms] by blast

theorem roundtrip_lossless_witness:
  "\<exists>c'. load_from_data glib_ref cfg_env (save_to_data glib_ref cfg) = Inr c' \<and> same_config c' cfg"
  by (rule roundtrip_lossless [OF glib_laws_ref cfg_saveable cfg_fits])

text \<open>
  \<open>save_to_path\<close> never overwrites: if it succeeds, there was no file, and the file that is
  there then loads as the saved configuration; if it fails, the path is as it was before, unless
  the clean-up itself could not delete what was written.
\<close>

theorem save_to_path_contract:
  assumes "glib_laws G" "saveable G c" "save_to_path G io before c = (ok, after)"
  shows "(ok \<longrightarrow> before = File_absent \<and> load_from_path G E after = Inr (persisted G c)) \<and>
    (\<not> ok \<and> io_delete io \<longrightarrow> after = before)"
  using assms(3) glib_laws.load_data_saved [OF assms(1,2)]
  by (auto simp: save_to_path_def load_from_path_def Let_def split: if_splits file_state.splits)

theorem save_to_path_contract_witness:
  "load_from_path glib_ref cfg_env
     (snd (save_to_path glib_ref \<lparr>io_to_data = True, io_create = True, io_write = True, io_close = True,
        io_delete = True\<rparr> File_absent cfg)) = Inr (persisted glib_ref cfg) \<and>
   snd (save_to_path glib_ref \<lparr>io_to_data = True, io_create = True, io_write = False, io_close = True,
        io_delete = True\<rparr> File_absent cfg) = File_absent"
proof
  let ?io = "\<lparr>io_to_data = True, io_create = True, io_write = True, io_close = True, io_delete = True\<rparr>"
  have ok: "save_to_path glib_ref ?io File_absent cfg = (True, File_whole (save_to_data glib_ref cfg))"
    by (simp add: save_to_path_def)
  show "load_from_path glib_ref cfg_env (snd (save_to_path glib_ref ?io File_absent cfg)) =
    Inr (persisted glib_ref cfg)"
    using save_to_path_contract [OF glib_laws_ref cfg_saveable ok] by (simp add: ok)
  let ?io = "\<lparr>io_to_data = True, io_create = True, io_write = False, io_close = True, io_delete = True\<rparr>"
  obtain after where bad: "save_to_path glib_ref ?io File_absent cfg = (False, after)"
    by (simp add: save_to_path_def)
  show "snd (save_to_path glib_ref ?io File_absent cfg) = File_absent"
    using save_to_path_contract [OF glib_laws_ref cfg_saveable bad] by (simp add: bad)
qed

text \<open>
  Whatever a key file says, a configuration loaded from it respects the loader's bounds, its
  tables have distinct keys and a RAM mount has a size that fits a \<open>gint\<close> (as a \<open>guint64\<close> it may
  be a negative number).
\<close>

theorem loaded_config_bounded:
  assumes "load_from_data G E d = Inr c"
  shows "config_bounded c"
  using assms load_from_keyfile_bounded by (auto simp: load_from_data_def split: option.splits)

theorem loaded_config_bounded_witness: "config_bounded (persisted glib_ref cfg)"
  by (rule loaded_config_bounded [OF glib_laws.load_data_saved [OF glib_laws_ref cfg_saveable]])

end
