(* ===== verification/Config_Opts_Claims.thy ===== *)
theory Config_Opts_Claims
  imports Config_Opts
begin

text \<open>
  The properties of the option parsers: what a network option can produce, the options that
  describe a mount or a disk and are inverted by the parsers, the arithmetic of RAM sizes, which
  mount an included file goes to, and where a list of options stops.
\<close>

section \<open>Networks\<close>

definition net_inv :: "'ip net_parse \<Rightarrow> bool" where
  "net_inv p \<longleftrightarrow>
     np_gotdhcp p = nw_dhcp (np_net p) \<and> np_gotaddr p = (nw_addrs (np_net p) \<noteq> []) \<and>
     np_gotroute p = (nw_routes (np_net p) \<noteq> []) \<and>
     (np_gotdhcp p \<longrightarrow> \<not> np_gotaddr p \<and> \<not> np_gotroute p) \<and>
     list_all (\<lambda>a. na_primary a \<noteq> None) (nw_addrs (np_net p)) \<and>
     list_all (\<lambda>r. nr_target r \<noteq> None \<and> nr_gateway r \<noteq> None) (nw_routes (np_net p))"

lemma parse_address_inv: "parse_address G s p = Inr p' \<Longrightarrow> net_inv p \<Longrightarrow> net_inv p'"
  by (auto simp: parse_address_def net_inv_def network_setters network_address_new_def Let_def
      split: if_splits option.splits prod.splits sum.splits)

lemma parse_route_inv: "parse_route G s p = Inr p' \<Longrightarrow> net_inv p \<Longrightarrow> net_inv p'"
  by (auto simp: parse_route_def net_inv_def network_setters network_route_new_def Let_def
      split: if_splits option.splits prod.splits)

lemma parse_filter_parameter_inv: "parse_filter_parameter G s p = Inr p' \<Longrightarrow> net_inv p \<Longrightarrow> net_inv p'"
  by (auto simp: parse_filter_parameter_def net_inv_def split: option.splits prod.splits)

lemma parse_network_param_inv:
  assumes "parse_network_param G s p = Inr p'" "net_inv p"
  shows "net_inv p'"
proof (cases "s = ''dhcp''")
  case True
  with assms show ?thesis by (auto simp: parse_network_param_def net_inv_def network_setters split: if_splits)
next
  case False
  then show ?thesis
    using assms
    by (auto simp: parse_network_param_def net_inv_def [of "p\<lparr>np_net := _\<rparr>"] net_inv_def [of "p\<lparr>np_filter := _, np_attached := _\<rparr>"]
        net_inv_def [of p] network_setters
        split: option.splits dest: parse_address_inv parse_route_inv parse_filter_parameter_inv)
qed

lemma parse_network_params_inv: "parse_network_params G ss p = Inr p' \<Longrightarrow> net_inv p \<Longrightarrow> net_inv p'"
  by (induction G ss p rule: parse_network_params.induct)
    (auto split: sum.splits dest: parse_network_param_inv)

lemma net_parse_init_inv: "net_inv net_parse_init"
  by (simp add: net_inv_def net_parse_init_def network_new_def network_setters)

section \<open>Options that describe an object\<close>

definition mount_opt :: "('f, 'd, 'ip) glib \<Rightarrow> mount \<Rightarrow> string" where
  "mount_opt G m = (case mt_kind m of
       Host_bind s \<Rightarrow> ''host-bind:'' @ mt_target m @ ''='' @ s
     | Guest_bind s \<Rightarrow> ''guest-bind:'' @ mt_target m @ ''='' @ s
     | Host_image s f \<Rightarrow> ''host-image:'' @ mt_target m @ ''='' @ s @ '',format='' @ fmt_nick G f
     | Ram u \<Rightarrow> ''ram:'' @ mt_target m @ ''='' @ dec (unat u))"

definition mount_opt_ok :: "('f, 'd, 'ip) glib \<Rightarrow> mount \<Rightarrow> bool" where
  "mount_opt_ok G m \<longleftrightarrow> mt_includes m = [] \<and> CHR ''='' \<notin> set (mt_target m) \<and>
     (case mt_kind m of Host_image s f \<Rightarrow> CHR '','' \<notin> set s \<and> fmt_value G (fmt_nick G f) = Some f
      | Ram u \<Rightarrow> unat u < 2 ^ 31 | _ \<Rightarrow> True)"

definition disk_opt :: "('f, 'd, 'ip) glib \<Rightarrow> disk \<Rightarrow> string" where
  "disk_opt G d = dtype_nick G (dk_type d) @ '':'' @ dk_tag d @ ''='' @ dk_source d @ '',format='' @
     fmt_nick G (dk_format d)"

definition disk_opt_ok :: "('f, 'd, 'ip) glib \<Rightarrow> disk \<Rightarrow> bool" where
  "disk_opt_ok G d \<longleftrightarrow>
     dk_type d = dtype_file G \<and> dtype_value G (dtype_nick G (dk_type d)) = Some (dk_type d) \<and>
     CHR '':'' \<notin> set (dtype_nick G (dk_type d)) \<and> CHR ''='' \<notin> set (dk_tag d) \<and>
     CHR '','' \<notin> set (dk_source d) \<and> fmt_value G (fmt_nick G (dk_format d)) = Some (dk_format d)"

lemma split_at:
  "c \<notin> set a \<Longrightarrow> strchr_split c (a @ [c] @ b) = Some (a, b)"
  by (simp add: strchr_split_app)

lemma strip_prefix_app: "strip_prefix p (p @ r) = Some r"
  by (simp add: strip_prefix_Some)

lemma ram_size_small:
  assumes "unat u < 2 ^ 31"
  shows "ram_size (dec (unat u)) = u"
proof -
  have u: "0 \<le> uint u" "uint u < 2 ^ 31" using assms by (simp_all add: nat_less_iff flip: nat_uint_eq)
  then have "min LONG_MAX (uint u) = uint u" by (simp add: LONG_MAX_def)
  then have "ram_size (dec (unat u)) = scast (word_of_int (uint u) :: 32 word)"
    by (simp add: ram_size_def strtol_dec)
  also have "sint (word_of_int (uint u) :: 32 word) = uint u"
    using signed_take_bit_int_eq_self [of 31 "uint u", OF order_trans [OF _ u(1)] u(2)]
    by (subst signed_of_int) simp
  then have "scast (word_of_int (uint u) :: 32 word) = u" by (simp add: scast_eq)
  finally show ?thesis .
qed

lemma mount_type_prefixes:
  "mount_type_prefix ''host-bind'' = Some T_host_bind" "mount_type_prefix ''host-image'' = Some T_host_image"
  "mount_type_prefix ''guest-bind'' = Some T_guest_bind" "mount_type_prefix ''ram'' = Some T_ram"
  by (simp_all add: mount_type_prefix_def strncmp_eq_def)

lemma add_mount_opts_parts:
  assumes "CHR '':'' \<notin> set p" "mount_type_prefix p = Some t" "CHR ''='' \<notin> set target"
  shows "add_mount_opts G (p @ '':'' @ target @ ''='' @ src) c =
    (case t of
       T_ram \<Rightarrow> Inr (add_mount c (mount_new target (Ram (ram_size src))))
     | T_host_image \<Rightarrow>
         (case strchr_split CHR '','' src of
            None \<Rightarrow> Inr (add_mount c (mount_new target (Host_image src
              (case guess_image_format G src of None \<Rightarrow> fmt_raw G | Some f \<Rightarrow> f))))
          | Some (src', fs) \<Rightarrow>
              (case strip_prefix ''format='' fs of
                 None \<Rightarrow> Inr (add_mount c (mount_new target (Host_image src' (fmt_raw G))))
               | Some nick \<Rightarrow> (case fmt_value G nick of
                   None \<Rightarrow> Inl (Unknown_format nick)
                 | Some f \<Rightarrow> Inr (add_mount c (mount_new target (Host_image src' f))))))
     | T_host_bind \<Rightarrow> Inr (add_mount c (mount_new target (Host_bind src)))
     | T_guest_bind \<Rightarrow> Inr (add_mount c (mount_new target (Guest_bind src))))"
  using split_at [OF assms(1), of "target @ ''='' @ src"] split_at [OF assms(3), of src] assms(2)
  by (simp add: add_mount_opts_def)

lemma add_mount_opt:
  assumes "mount_opt_ok G m"
  shows "add_mount_opts G (mount_opt G m) c = Inr (add_mount c m)"
proof -
  have m: "CHR ''='' \<notin> set (mt_target m)" "mount_new (mt_target m) (mt_kind m) = m"
    using assms by (simp_all add: mount_opt_ok_def mount_new_def)
  show ?thesis
  proof (cases "mt_kind m")
    case (Host_bind s)
    then show ?thesis
      using add_mount_opts_parts [of "''host-bind''" T_host_bind "mt_target m" G s c] m
      by (simp add: mount_opt_def mount_type_prefixes)
  next
    case (Guest_bind s)
    then show ?thesis
      using add_mount_opts_parts [of "''guest-bind''" T_guest_bind "mt_target m" G s c] m
      by (simp add: mount_opt_def mount_type_prefixes)
  next
    case (Ram u)
    then have "unat u < 2 ^ 31" using assms by (simp add: mount_opt_ok_def)
    then show ?thesis
      using add_mount_opts_parts [of "''ram''" T_ram "mt_target m" G "dec (unat u)" c] m Ram
      by (simp add: mount_opt_def mount_type_prefixes ram_size_small)
  next
    case (Host_image s f)
    then have f: "CHR '','' \<notin> set s" "fmt_value G (fmt_nick G f) = Some f"
      using assms by (simp_all add: mount_opt_ok_def)
    note s = split_at [OF f(1), of "''format='' @ fmt_nick G f"] strip_prefix_app [of "''format=''" "fmt_nick G f"]
    show ?thesis
      using add_mount_opts_parts [of "''host-image''" T_host_image "mt_target m" G
          "s @ '',format='' @ fmt_nick G f" c] m Host_image f s
      by (simp add: mount_opt_def mount_type_prefixes)
  qed
qed

lemma add_disk_opt:
  assumes "disk_opt_ok G d"
  shows "add_disk_opts G (disk_opt G d) c = Inr (add_disk c d)"
proof -
  have d: "CHR '':'' \<notin> set (dtype_nick G (dk_type d))" "CHR ''='' \<notin> set (dk_tag d)"
    "CHR '','' \<notin> set (dk_source d)" using assms unfolding disk_opt_ok_def by blast+
  note s = split_at [OF d(1), of "dk_tag d @ ''='' @ dk_source d @ '',format='' @ fmt_nick G (dk_format d)"]
    split_at [OF d(2), of "dk_source d @ '',format='' @ fmt_nick G (dk_format d)"]
    split_at [OF d(3), of "''format='' @ fmt_nick G (dk_format d)"]
    strip_prefix_app [of "''format=''" "fmt_nick G (dk_format d)"]
  have eta: "\<lparr>dk_type = dtype_file G, dk_tag = dk_tag d, dk_source = dk_source d, dk_format = dk_format d\<rparr> = d"
    using assms by (cases d) (simp add: disk_opt_ok_def)
  show ?thesis
    using assms s d by (auto simp: eta add_disk_opts_def disk_opt_def disk_opt_ok_def disk_format_from_str_def)
qed

text \<open>A list of options: all are added, or all before the first one that fails.\<close>

lemma add_strv_all:
  "(\<And>x c. x \<in> set xs \<Longrightarrow> f (pr x) c = Inr (ad c x)) \<Longrightarrow> add_strv f (map pr xs) c = (fold (\<lambda>x c. ad c x) xs c, None)"
  by (induction xs arbitrary: c) simp_all

lemma add_strv_append:
  "add_strv f (ss @ ts) c = (case add_strv f ss c of (c', None) \<Rightarrow> add_strv f ts c' | r \<Rightarrow> r)"
  by (induction f ss c rule: add_strv.induct) (auto split: sum.splits option.splits prod.splits)

lemma add_strv_error:
  "add_strv f ss c = (c', Some e) \<Longrightarrow>
   \<exists>pre s post. ss = pre @ s # post \<and> add_strv f pre c = (c', None) \<and> f s c' = Inl e"
proof (induction f ss c rule: add_strv.induct)
  case (2 f s ss c)
  show ?case
  proof (cases "f s c")
    case (Inl e')
    with 2(2) show ?thesis by (intro exI [of _ "[]"] exI [of _ s] exI [of _ ss]) simp
  next
    case (Inr c'')
    with 2 obtain pre t post where "ss = pre @ t # post" "add_strv f pre c'' = (c', None)" "f t c' = Inl e"
      by auto
    with Inr show ?thesis by (intro exI [of _ "s # pre"] exI [of _ t] exI [of _ post]) simp
  qed
qed simp

lemma fold_add_mount: "fold (\<lambda>m c. add_mount c m) ms c = c\<lparr>cf_mounts := cf_mounts c @ ms\<rparr>"
  by (induction ms arbitrary: c) (simp_all add: add_mount_def)

lemma fold_add_disk: "fold (\<lambda>d c. add_disk c d) ds c = c\<lparr>cf_disks := cf_disks c @ ds\<rparr>"
  by (induction ds arbitrary: c) (simp_all add: add_disk_def)

section \<open>Includes\<close>

lemma include_in_iff:
  "include_in ms host guest = Some ms' \<longleftrightarrow>
   (\<exists>i < length ms. \<exists>rel. guest = mt_target (ms ! i) @ rel \<and>
      (\<forall>j < i. \<not> prefix (mt_target (ms ! j)) guest) \<and> ms' = ms[i := mount_add_include (ms ! i) host rel])"
proof (induction ms arbitrary: ms')
  case (Cons m ms)
  show ?case
  proof (cases "strip_prefix (mt_target m) guest")
    case None
    then have np: "\<not> prefix (mt_target m) guest" by (simp add: strip_prefix_None)
    have "include_in (m # ms) host guest = Some ms' \<longleftrightarrow>
        (\<exists>t. ms' = m # t \<and> include_in ms host guest = Some t)"
      using None by (auto split: option.splits)
    also have "\<dots> \<longleftrightarrow> (\<exists>i < length (m # ms). \<exists>rel. guest = mt_target ((m # ms) ! i) @ rel \<and>
        (\<forall>j < i. \<not> prefix (mt_target ((m # ms) ! j)) guest) \<and>
        ms' = (m # ms)[i := mount_add_include ((m # ms) ! i) host rel])"
      unfolding Cons.IH length_Cons Ex_less_Suc2 All_less_Suc2 using np by auto
    finally show ?thesis .
  next
    case (Some rel)
    then have rel: "guest = mt_target m @ rel" by (simp add: strip_prefix_Some)
    then have "prefix (mt_target m) guest" by simp
    with Some rel show ?thesis unfolding length_Cons Ex_less_Suc2 All_less_Suc2 by auto
  qed
qed simp

section \<open>RAM sizes\<close>

definition unit_bytes :: "string \<Rightarrow> nat" where
  "unit_bytes u =
     (if u = ''KiB'' \<or> u = ''K'' then 1024 else if u = ''MiB'' \<or> u = ''M'' then 1024 * 1024
      else if u = ''GiB'' \<or> u = ''G'' then 1024 * 1024 * 1024 else 1)"

definition ram_units :: "string list" where
  "ram_units = [[], ''KiB'', ''K'', ''MiB'', ''M'', ''GiB'', ''G'']"

lemma unit_no_digit: "u \<in> set ram_units \<Longrightarrow> u = [] \<or> \<not> is_digit (hd u)"
  by (auto simp: ram_units_def is_digit_def)

lemma int_less_pow: "n < 2 ^ k \<Longrightarrow> int n < 2 ^ k"
  by simp

lemma ram_size_value:
  assumes "u \<in> set ram_units" "v * unit_bytes u < 2 ^ 63"
  shows "ram_size (dec v @ u) = word_of_int (signed_take_bit 31 (int (v * unit_bytes u)))"
proof -
  have "v * 1 \<le> v * unit_bytes u" by (rule mult_le_mono2) (simp add: unit_bytes_def)
  from int_less_pow [OF le_less_trans [OF this assms(2)]]
  have "int v < 2 ^ 63" by (simp only: mult_1_right)
  then have "int v \<le> LONG_MAX" by (simp add: LONG_MAX_def)
  then have st: "strtol (dec v @ u) = (int v, u)"
    by (simp add: strtol_dec_unit [OF unit_no_digit [OF assms(1)]])
  have "ram_size (dec v @ u) = scast (word_of_int (int v) * word_of_int (int (unit_bytes u)) :: 32 word)"
    unfolding ram_size_def st unit_bytes_def Let_def prod.case of_int_numeral by simp
  also have "\<dots> = word_of_int (sint (word_of_int (int (v * unit_bytes u)) :: 32 word))"
    by (simp only: scast_eq wi_hom_mult of_nat_mult)
  also have "sint (word_of_int (int (v * unit_bytes u)) :: 32 word) = signed_take_bit 31 (int (v * unit_bytes u))"
    by (subst signed_of_int) simp
  finally show ?thesis .
qed

lemma len64: "LENGTH(64) = 64"
  by simp

lemma ram_size_exact_iff:
  assumes "u \<in> set ram_units" "v * unit_bytes u < 2 ^ 63"
  shows "unat (ram_size (dec v @ u)) = v * unit_bytes u \<longleftrightarrow> v * unit_bytes u < 2 ^ 31"
proof -
  define n where "n = int (v * unit_bytes u)"
  define s where "s = signed_take_bit 31 n"
  have n: "0 \<le> n" "n < 2 ^ 63"
    unfolding n_def by (rule of_nat_0_le_iff, rule int_less_pow [OF assms(2)])
  have range: "- (2 ^ 31) \<le> s" "s < 2 ^ 31"
    unfolding s_def by (rule signed_take_bit_int_greater_eq_minus_exp signed_take_bit_int_less_exp)+
  have "unat (ram_size (dec v @ u)) = v * unit_bytes u \<longleftrightarrow> uint (ram_size (dec v @ u)) = n"
    by (simp only: n_def uint_nat of_nat_eq_iff)
  also have "uint (ram_size (dec v @ u)) = s mod 2 ^ 64"
    by (simp only: ram_size_value [OF assms] uint_word_of_int s_def n_def len64)
  also have "s mod 2 ^ 64 = n \<longleftrightarrow> n < 2 ^ 31"
  proof
    assume eq: "s mod 2 ^ 64 = n"
    show "n < 2 ^ 31"
    proof (cases "0 \<le> s")
      case True
      with range have "s mod 2 ^ 64 = s" by (simp add: mod_pos_pos_trivial)
      with eq range show ?thesis by simp
    next
      case False
      have "s mod 2 ^ 64 = (s + 2 ^ 64) mod 2 ^ 64" by simp
      also have "\<dots> = s + 2 ^ 64" using False range by (intro mod_pos_pos_trivial) auto
      finally show ?thesis using eq n(2) range(1) by simp
    qed
  next
    assume "n < 2 ^ 31"
    then have "s = n"
      unfolding s_def using n(1) by (intro signed_take_bit_int_eq_self order_trans [OF _ n(1)]) auto
    with n show "s mod 2 ^ 64 = n" by (simp add: mod_pos_pos_trivial)
  qed
  also have "n < 2 ^ 31 \<longleftrightarrow> v * unit_bytes u < 2 ^ 31"
    unfolding n_def by (rule of_nat_less_numeral_power_cancel_iff)
  finally show ?thesis .
qed

section \<open>The properties\<close>

definition opt_cfg :: "nat config" where
  "opt_cfg = config_init \<lparr>he_machine = ''x86_64'', he_euid = 0, he_egid = 0, he_user = ''root'',
     he_home = ''/root''\<rparr> (Interactive True [''/bin/sh''])"

lemma ref_nicks:
  "fmt_nick glib_ref 8 = ''qcow2''" "fmt_nick glib_ref 0 = ''raw''" "fmt_nick glib_ref 9 = ''qed''"
  "dtype_nick glib_ref 0 = ''file''" "dtype_file glib_ref = 0"
  "fmt_value glib_ref ''qcow2'' = Some 8" "fmt_value glib_ref ''raw'' = Some 0"
  "fmt_value glib_ref ''qed'' = Some 9" "dtype_value glib_ref ''file'' = Some 0"
  by (simp_all add: glib_ref_def nick_in_def format_table_def dtype_table_def)

lemma dec_values: "dec 2 = ''2''" "dec 500 = ''500''" "dec 4096 = ''4096''"
  by code_simp+

lemma opt_cfg_empty: "cf_mounts opt_cfg = []" "cf_disks opt_cfg = []"
  by (simp_all add: opt_cfg_def config_init_def)

lemma opt_network_evaluated:
  "case add_network_opts glib_ref ''source=default,address=7/24%9,route=8%7'' opt_cfg of
     Inl _ \<Rightarrow> False | Inr c \<Rightarrow> nw_routes (last (cf_networks c)) \<noteq> []"
  by code_simp

text \<open>
  C15. A network option that is accepted adds exactly one network, and it makes sense: with DHCP
  there are no static addresses or routes, routes come with at least one address, every address
  has its primary and every route its target and gateway.
\<close>

theorem network_opts_consistent:
  assumes "add_network_opts G opt c = Inr c'"
  shows "\<exists>n. c' = add_network c n \<and>
    (nw_dhcp n \<longrightarrow> nw_addrs n = [] \<and> nw_routes n = []) \<and> (nw_routes n \<noteq> [] \<longrightarrow> nw_addrs n \<noteq> []) \<and>
    list_all (\<lambda>a. na_primary a \<noteq> None) (nw_addrs n) \<and>
    list_all (\<lambda>r. nr_target r \<noteq> None \<and> nr_gateway r \<noteq> None) (nw_routes n)"
proof -
  obtain p where p: "parse_network_params G (g_strsplit opt CHR '','' 50) net_parse_init = Inr p"
    and routes: "\<not> (np_gotroute p \<and> \<not> np_gotaddr p)"
    and c': "c' = add_network c
      (if np_attached p then network_set_filterref (np_filter p) (np_net p) else np_net p)"
    using assms by (auto simp: add_network_opts_def split: sum.splits if_splits)
  have "net_inv p" by (rule parse_network_params_inv [OF p net_parse_init_inv])
  with routes c' show ?thesis by (auto simp: net_inv_def network_setters)
qed

theorem network_opts_consistent_witness:
  "\<exists>c' n. add_network_opts glib_ref ''source=default,address=7/24%9,route=8%7'' opt_cfg = Inr c' \<and>
     c' = add_network opt_cfg n \<and> nw_addrs n \<noteq> []"
proof -
  obtain c' where c': "add_network_opts glib_ref ''source=default,address=7/24%9,route=8%7'' opt_cfg = Inr c'"
    "nw_routes (last (cf_networks c')) \<noteq> []"
    using opt_network_evaluated by (auto split: sum.splits)
  from network_opts_consistent [OF c'(1)] obtain n where "c' = add_network opt_cfg n"
    "nw_routes n \<noteq> [] \<longrightarrow> nw_addrs n \<noteq> []" by blast
  with c' show ?thesis by (auto simp: add_network_def)
qed

text \<open>
  C16. Every mount can be given on the command line: the options \<open>TYPE:TARGET=SOURCE\<close> that describe
  a list of mounts, handed to \<open>add_mount_strv\<close>, add exactly these mounts in their order.
\<close>

theorem mount_options_roundtrip:
  assumes "list_all (mount_opt_ok G) ms"
  shows "add_strv (add_mount_opts G) (map (mount_opt G) ms) c = (c\<lparr>cf_mounts := cf_mounts c @ ms\<rparr>, None)"
  using assms add_strv_all [of ms "add_mount_opts G" "mount_opt G" add_mount c]
  by (simp add: list_all_iff add_mount_opt fold_add_mount)

theorem mount_options_roundtrip_witness:
  "add_strv (add_mount_opts glib_ref)
     [''host-image:/=/img,format=qcow2'', ''ram:/tmp=4096'', ''guest-bind:/home=/tmp/home'', ''host-bind:/a=/b''] opt_cfg =
   (opt_cfg\<lparr>cf_mounts :=
     [mount_new ''/'' (Host_image ''/img'' 8), mount_new ''/tmp'' (Ram 4096),
      mount_new ''/home'' (Guest_bind ''/tmp/home''), mount_new ''/a'' (Host_bind ''/b'')]\<rparr>, None)"
proof -
  let ?ms = "[mount_new ''/'' (Host_image ''/img'' 8), mount_new ''/tmp'' (Ram 4096),
      mount_new ''/home'' (Guest_bind ''/tmp/home''), mount_new ''/a'' (Host_bind ''/b'')]"
  have "list_all (mount_opt_ok glib_ref) ?ms"
    by (simp add: mount_opt_ok_def mount_new_def ref_nicks)
  from mount_options_roundtrip [OF this, of opt_cfg]
  show ?thesis
    by (simp add: mount_opt_def mount_new_def ref_nicks dec_values opt_cfg_empty)
qed

text \<open>
  Likewise for disks: the options \<open>TYPE:TAG=SOURCE,format=FORMAT\<close> of a list of file disks add
  exactly these disks.
\<close>

theorem disk_options_roundtrip:
  assumes "list_all (disk_opt_ok G) ds"
  shows "add_strv (add_disk_opts G) (map (disk_opt G) ds) c = (c\<lparr>cf_disks := cf_disks c @ ds\<rparr>, None)"
  using assms add_strv_all [of ds "add_disk_opts G" "disk_opt G" add_disk c]
  by (simp add: list_all_iff add_disk_opt fold_add_disk)

theorem disk_options_roundtrip_witness:
  "add_strv (add_disk_opts glib_ref) [''file:db=/srv/db.img,format=raw'', ''file:x=/x,format=qed''] opt_cfg =
   (opt_cfg\<lparr>cf_disks := [\<lparr>dk_type = 0, dk_tag = ''db'', dk_source = ''/srv/db.img'', dk_format = 0\<rparr>,
     \<lparr>dk_type = 0, dk_tag = ''x'', dk_source = ''/x'', dk_format = 9\<rparr>]\<rparr>, None)"
proof -
  let ?ds = "[\<lparr>dk_type = 0, dk_tag = ''db'', dk_source = ''/srv/db.img'', dk_format = 0\<rparr>,
     \<lparr>dk_type = 0, dk_tag = ''x'', dk_source = ''/x'', dk_format = 9\<rparr>] :: disk list"
  have "list_all (disk_opt_ok glib_ref) ?ds" by (simp add: disk_opt_ok_def ref_nicks)
  from disk_options_roundtrip [OF this, of opt_cfg]
  show ?thesis by (simp add: disk_opt_def ref_nicks opt_cfg_empty)
qed

text \<open>
  C17. A RAM mount of \<open>v\<close> units gets exactly \<open>v\<close> times the unit, if and only if that is less than
  2 GiB: the size is computed in a \<open>gint\<close>.
\<close>

theorem ram_option_size:
  assumes "CHR ''='' \<notin> set target" "u \<in> set ram_units" "v * unit_bytes u < 2 ^ 63"
  shows "\<exists>size. add_mount_opts G (''ram:'' @ target @ ''='' @ dec v @ u) c =
      Inr (add_mount c (mount_new target (Ram size))) \<and>
    (unat size = v * unit_bytes u \<longleftrightarrow> v * unit_bytes u < 2 ^ 31)"
  using ram_size_exact_iff [OF assms(2,3)]
    add_mount_opts_parts [of "''ram''" T_ram target G "dec v @ u" c, OF _ mount_type_prefixes(4) assms(1)]
  by (intro exI [of _ "ram_size (dec v @ u)"]) simp

theorem ram_option_size_witness:
  "(\<exists>size. add_mount_opts glib_ref ''ram:/tmp=500M'' opt_cfg =
      Inr (add_mount opt_cfg (mount_new ''/tmp'' (Ram size))) \<and> unat size = 524288000) \<and>
   (\<exists>size. add_mount_opts glib_ref ''ram:/tmp=2G'' opt_cfg =
      Inr (add_mount opt_cfg (mount_new ''/tmp'' (Ram size))) \<and> unat size \<noteq> 2147483648)"
  using ram_option_size [of "''/tmp''" "''M''" 500 glib_ref opt_cfg]
    ram_option_size [of "''/tmp''" "''G''" 2 glib_ref opt_cfg]
  by (simp add: ram_units_def unit_bytes_def dec_values)

text \<open>
  Any beginning of \<open>host-bind\<close> is taken as that type, even the empty one: \<open>strncmp\<close> compares
  no more characters than stand before the colon.
\<close>

theorem mount_type_abbreviated:
  assumes "prefix p ''host-bind''" "CHR ''='' \<notin> set target"
  shows "add_mount_opts G (p @ '':'' @ target @ ''='' @ src) c =
    Inr (add_mount c (mount_new target (Host_bind src)))"
proof -
  have "set p \<subseteq> set ''host-bind''" by (rule set_mono_prefix [OF assms(1)])
  then have "CHR '':'' \<notin> set p" by auto
  moreover have "mount_type_prefix p = Some T_host_bind"
    using assms(1) by (simp only: mount_type_prefix_def strncmp_eq_prefix if_True)
  ultimately show ?thesis by (simp add: add_mount_opts_parts [OF _ _ assms(2)] del: append_Cons)
qed

theorem mount_type_abbreviated_witness:
  "add_mount_opts glib_ref '':/tmp=/x'' opt_cfg = Inr (add_mount opt_cfg (mount_new ''/tmp'' (Host_bind ''/x'')))"
  using mount_type_abbreviated [of "[]" "''/tmp''" glib_ref "''/x''" opt_cfg] by simp

text \<open>
  C18. An included file goes to the first mount whose target is a prefix of the guest path, under
  the rest of the path, and the include fails exactly if there is no such mount. The comparison
  ignores path components, and a more specific later mount is not considered.
\<close>

theorem include_first_mount:
  assumes "CHR ''='' \<notin> set guest"
  shows "add_include (guest @ ''='' @ host) c = Inr c' \<longleftrightarrow>
    (\<exists>i < length (cf_mounts c). \<exists>rel. guest = mt_target (cf_mounts c ! i) @ rel \<and>
       (\<forall>j < i. \<not> prefix (mt_target (cf_mounts c ! j)) guest) \<and>
       c' = c\<lparr>cf_mounts := (cf_mounts c)[i := mount_add_include (cf_mounts c ! i) host rel]\<rparr>)"
proof -
  have "add_include (guest @ ''='' @ host) c = Inr c' \<longleftrightarrow>
      (\<exists>ms. include_in (cf_mounts c) host guest = Some ms \<and> c' = c\<lparr>cf_mounts := ms\<rparr>)"
    using split_at [OF assms, of host] by (auto simp: add_include_def split: option.splits)
  then show ?thesis unfolding include_in_iff by blast
qed

theorem include_first_mount_witness:
  "\<exists>c'. add_include ''/etcetera/f=/src''
     (opt_cfg\<lparr>cf_mounts := [mount_new ''/etc'' (Host_bind ''/a''), mount_new ''/etcetera'' (Host_bind ''/b'')]\<rparr>) = Inr c' \<and>
     mt_includes (cf_mounts c' ! 0) = [(''etera/f'', ''/src'')]"
proof -
  let ?c = "opt_cfg\<lparr>cf_mounts := [mount_new ''/etc'' (Host_bind ''/a''), mount_new ''/etcetera'' (Host_bind ''/b'')]\<rparr>"
  let ?c' = "?c\<lparr>cf_mounts := [mount_add_include (mount_new ''/etc'' (Host_bind ''/a'')) ''/src'' ''etera/f'',
     mount_new ''/etcetera'' (Host_bind ''/b'')]\<rparr>"
  have "add_include (''/etcetera/f'' @ ''='' @ ''/src'') ?c = Inr ?c'"
    by (subst include_first_mount) (simp, rule exI [of _ 0], simp add: mount_new_def)
  then show ?thesis by (intro exI [of _ ?c']) (simp add: mount_add_include_def mount_new_def)
qed

text \<open>
  A list of includes that fails has applied everything before the entry that failed and
  nothing after it.
\<close>

theorem includes_stop_at_error:
  assumes "add_host_include_strv includes c = (c', Some e)"
  shows "\<exists>pre s post. includes = pre @ s # post \<and> add_host_include_strv pre c = (c', None) \<and>
    add_include s c' = Inl e"
  using add_strv_error [OF assms [unfolded add_host_include_strv_def]]
  by (simp add: add_host_include_strv_def)

theorem includes_stop_at_error_witness:
  "\<exists>pre s post. [''/etc/a=/x'', ''/usr/b'', ''/etc/c''] = pre @ s # post \<and>
     snd (add_host_include_strv pre (opt_cfg\<lparr>cf_mounts := [mount_new ''/etc'' (Host_bind ''/a'')]\<rparr>)) = None"
proof -
  let ?c = "opt_cfg\<lparr>cf_mounts := [mount_new ''/etc'' (Host_bind ''/a'')]\<rparr>"
  have "snd (add_host_include_strv [''/etc/a=/x'', ''/usr/b'', ''/etc/c''] ?c) = Some (No_mount_for ''/usr/b'')"
    by (simp add: add_host_include_strv_def add_include_def mount_new_def mount_add_include_def)
  then obtain c' where "add_host_include_strv [''/etc/a=/x'', ''/usr/b'', ''/etc/c''] ?c =
      (c', Some (No_mount_for ''/usr/b''))" by (metis prod.collapse)
  from includes_stop_at_error [OF this] show ?thesis by (metis snd_conv)
qed

end
