(* ===== verification/Domain.thy ===== *)
theory Domain
  imports Config_Types
begin

text \<open>
  The libvirt domain the builders construct: what they set on the libvirt-gconfig objects, with the
  devices in the order in which they are added.
\<close>

section \<open>The domain\<close>

datatype fs_type = Fs_mount | Fs_file | Fs_bind | Fs_ram "64 word"
datatype fs_access = Squash | Passthrough
datatype fs_driver = Drv_loop | Drv_nbd

record filesys =
  fs_type :: fs_type
  fs_access :: fs_access
  fs_source :: "string option"
  fs_target :: string
  fs_readonly :: bool
  fs_driver :: "(fs_driver \<times> int) option"

record block_device =
  bd_type :: int
  bd_format :: int
  bd_source :: string
  bd_target :: string
  bd_virtio_bus :: bool

text \<open>The filter of an interface, as libvirt-gconfig has it.\<close>

record iface_filterref =
  iff_name :: "string option"
  iff_parameters :: "(string option \<times> string option) list"

record interface =
  if_network :: "string option"
  if_mac :: "string option"
  if_virtio :: bool
  if_filterref :: "iface_filterref option"

datatype console_target = Con_default | Con_serial | Con_virtio

datatype device =
    Filesys filesys
  | Block block_device
  | Interface interface
  | No_memballoon
  | Console console_target
  | Serial

datatype virt_type = Virt_lxc | Virt_qemu | Virt_kvm

record seclabel =
  sl_model :: string
  sl_dynamic :: bool
  sl_baselabel :: "string option"
  sl_label :: "string option"

record domain_os =
  do_hvm :: bool
  do_arch :: string
  do_kernel :: "string option"
  do_ramdisk :: "string option"
  do_init :: "string option"
  do_cmdline :: string

record domain =
  dm_name :: "string option"
  dm_memory :: nat
  dm_virt :: "virt_type option"
  dm_destroy_always :: bool
  dm_features :: "string list"
  dm_os :: "domain_os option"
  dm_devices :: "device list"
  dm_seclabel :: "seclabel option"

definition domain_new :: domain where
  "domain_new = \<lparr>dm_name = None, dm_memory = 0, dm_virt = None, dm_destroy_always = False,
     dm_features = [], dm_os = None, dm_devices = [], dm_seclabel = None\<rparr>"

definition add_devices :: "device list \<Rightarrow> domain \<Rightarrow> domain" where
  "add_devices ds d = d\<lparr>dm_devices := dm_devices d @ ds\<rparr>"

end
