(* ===== verification/Sys.thy ===== *)
theory Sys
  imports Domain
begin

text \<open>
  Programs that call the operating system: the two init programs of the guest the host code
  that writes files, and the sandbox contexts, which also ask libvirt to define, start, stop and
  delete domains. A program maps the trace of the calls made so far to a result with the longer
  trace, or halts. What a call answers, what a file contains and what kind of file a path is may
  depend on everything that was called before. A small Hoare logic over traces serves the proofs.
\<close>

section \<open>Calls\<close>

datatype mount_flag = Ms_rdonly | Ms_bind | Ms_nosuid | Ms_nodev

datatype call =
    Mkdir string nat
  | Create string nat
  | Mount string string "string option" "mount_flag list" string
  | Umount string
  | Chmod string nat
  | Umask nat
  | Umask_restore
  | Symlink string string
  | Chroot string
  | Chdir string
  | Setenv string string
  | Unsetenv string
  | Init_module string nat
  | Spawn "string list"
  | Spawn_line string
  | Fork
  | Access string
  | Open_dev string
  | Setsid
  | Dup2 int nat
  | Close_fd int
  | Pipe
  | Raw_mode string
  | Block_sighup
  | Restore_sigmask
  | Execv "string list"
  | Change_id u32 u32
  | Setgroups
  | Setregid u32
  | Setreuid u32
  | Sync
  | Fsync string
  | Reboot
  | Open_replace string
  | Open_new string
  | Write string string
  | Close string
  | Copy_file string string
  | Delete_file string
  | Unlink string
  | Mkdirs string nat
  | Mkdtemp string
  | Rmdir string
  | Fetch_domains
  | Start_domain domain
  | Define_domain domain
  | Start_defined string
  | Stop_domain string
  | Delete_domain string

datatype answer = Done | Eexist | Enoent | Failed

text \<open>The answers of successive \<open>gzread\<close> or \<open>lzma_code\<close> calls on a file: bytes produced, and whether this ends the stream.\<close>

datatype inflate = Produced nat | Finished nat | Corrupt

record os =
  os_call :: "call list \<Rightarrow> call \<Rightarrow> answer"
  os_file :: "call list \<Rightarrow> string \<Rightarrow> string option"
  os_isdir :: "call list \<Rightarrow> string \<Rightarrow> bool option"
  os_environ :: "string \<Rightarrow> string option"
  os_output :: "call list \<Rightarrow> string list \<Rightarrow> string"
  os_tempdir :: "call list \<Rightarrow> string \<Rightarrow> string"
  os_listdir :: "call list \<Rightarrow> string \<Rightarrow> answer \<times> string list"
  os_mounts :: "call list \<Rightarrow> string list option"
  os_uid :: u32
  os_release :: string
  os_kvm :: bool
  os_pid :: nat
  os_euid :: u32
  os_gzread :: "string \<Rightarrow> inflate list"
  os_lzma :: "string \<Rightarrow> inflate list"

section \<open>Programs\<close>

text \<open>How a program ends: the machine is off, the process has exited, or become another program.\<close>

datatype ending = Powered_off | Aborted | Exited nat | Became "string list" | Undefined

datatype 'a run = Ret 'a "call list" | Halt ending "call list"

type_synonym 'a prog = "call list \<Rightarrow> 'a run"

definition ret :: "'a \<Rightarrow> 'a prog" where
  "ret x tr = Ret x tr"

definition halt :: "ending \<Rightarrow> 'a prog" where
  "halt e tr = Halt e tr"

definition sys :: "os \<Rightarrow> call \<Rightarrow> answer prog" where
  "sys W c tr = Ret (os_call W tr c) (tr @ [c])"

definition andthen :: "'a prog \<Rightarrow> ('a \<Rightarrow> 'b prog) \<Rightarrow> 'b prog" where
  "andthen p f tr = (case p tr of Ret x tr' \<Rightarrow> f x tr' | Halt e tr' \<Rightarrow> Halt e tr')"

definition seq :: "unit prog \<Rightarrow> 'b prog \<Rightarrow> 'b prog" where
  "seq p q = andthen p (\<lambda>_. q)"

definition ok :: "os \<Rightarrow> call \<Rightarrow> bool prog" where
  "ok W c = andthen (sys W c) (\<lambda>r. ret (r = Done))"

text \<open>A call whose result is not looked at.\<close>

definition quietly :: "os \<Rightarrow> call \<Rightarrow> unit prog" where
  "quietly W c = andthen (sys W c) (\<lambda>_. ret ())"

fun each :: "('x \<Rightarrow> unit prog) \<Rightarrow> 'x list \<Rightarrow> unit prog" where
  "each f [] = ret ()"
| "each f (x # xs) = seq (f x) (each f xs)"

text \<open>A list of steps, one after the other; and the \<open>FALSE\<close>-returning style of the GLib code.\<close>

fun steps :: "unit prog list \<Rightarrow> unit prog" where
  "steps [] = ret ()"
| "steps (p # ps) = seq p (steps ps)"

fun while_ok :: "('x \<Rightarrow> bool prog) \<Rightarrow> 'x list \<Rightarrow> bool prog" where
  "while_ok f [] = ret True"
| "while_ok f (x # xs) = andthen (f x) (\<lambda>ok. if ok then while_ok f xs else ret False)"

section \<open>Reading lines\<close>

definition tab :: char where "tab = CHR 0x09"
definition nl :: char where "nl = CHR 0x0A"

text \<open>\<open>fgets\<close> into a buffer of \<open>n + 1\<close> bytes, called until the end of the file.\<close>

fun take_line :: "nat \<Rightarrow> string \<Rightarrow> string \<times> string" where
  "take_line 0 s = ([], s)"
| "take_line (Suc n) [] = ([], [])"
| "take_line (Suc n) (c # cs) =
     (if c = nl then ([c], cs) else let (a, b) = take_line n cs in (c # a, b))"

lemma take_line_shorter: "take_line n s = (a, b) \<Longrightarrow> length b + length a = length s"
  by (induction n s arbitrary: a b rule: take_line.induct) (auto split: if_splits prod.splits)

function fgets_lines :: "nat \<Rightarrow> string \<Rightarrow> string list" where
  "fgets_lines n s =
     (let (l, r) = take_line n s in if l = [] then [] else l # fgets_lines n r)"
  by pat_completeness auto

termination
proof (relation "measure (length \<circ> snd)")
  fix n s l r x
  assume "x = take_line n s" "(l, r) = x" "l \<noteq> []"
  then have "length r + length l = length s" "l \<noteq> []" by (auto intro: take_line_shorter)
  then have "length r < length s" by (cases l) auto
  then show "((n, r), n, s) \<in> measure (length \<circ> snd)" by simp
qed simp

declare fgets_lines.simps [simp del]

lemma take_line_newline:
  "nl \<notin> set l \<Longrightarrow> length l < n \<Longrightarrow> take_line n (l @ nl # r) = (l @ [nl], r)"
proof (induction l arbitrary: n)
  case Nil
  then show ?case by (cases n) auto
next
  case (Cons c l)
  then show ?case by (cases n) auto
qed

lemma fgets_lines_written:
  "list_all (\<lambda>l. nl \<notin> set l \<and> length l < n) ls \<Longrightarrow>
   fgets_lines n (concat (map (\<lambda>l. l @ [nl]) ls)) = map (\<lambda>l. l @ [nl]) ls"
proof (induction ls)
  case Nil
  then show ?case by (cases n) (simp_all add: fgets_lines.simps)
next
  case (Cons l ls)
  then have "take_line n (l @ nl # concat (map (\<lambda>l. l @ [nl]) ls)) =
      (l @ [nl], concat (map (\<lambda>l. l @ [nl]) ls))"
    by (simp add: take_line_newline)
  with Cons show ?case by (subst fgets_lines.simps) simp
qed

section \<open>What holds of a program\<close>

text \<open>
  From a trace with \<open>P\<close> the program either returns with \<open>Q\<close> of the value and the trace, or halts
  with \<open>E\<close>.
\<close>

definition valid :: "(call list \<Rightarrow> bool) \<Rightarrow> 'a prog \<Rightarrow> ('a \<Rightarrow> call list \<Rightarrow> bool) \<Rightarrow> (ending \<Rightarrow> call list \<Rightarrow> bool) \<Rightarrow> bool" where
  "valid P p Q E \<longleftrightarrow> (\<forall>tr. P tr \<longrightarrow> (case p tr of Ret x tr' \<Rightarrow> Q x tr' | Halt e tr' \<Rightarrow> E e tr'))"

named_theorems valid_rules "rules of the Hoare logic"

lemma validI:
  "(\<And>tr. P tr \<Longrightarrow> case p tr of Ret x tr' \<Rightarrow> Q x tr' | Halt e tr' \<Rightarrow> E e tr') \<Longrightarrow> valid P p Q E"
  by (simp add: valid_def)

lemma validD: "valid P p Q E \<Longrightarrow> P tr \<Longrightarrow> case p tr of Ret x tr' \<Rightarrow> Q x tr' | Halt e tr' \<Rightarrow> E e tr'"
  by (simp add: valid_def)

lemma valid_ret: "(\<And>tr. P tr \<Longrightarrow> Q x tr) \<Longrightarrow> valid P (ret x) Q E"
  by (simp add: valid_def ret_def)

lemma valid_halt: "(\<And>tr. P tr \<Longrightarrow> E e tr) \<Longrightarrow> valid P (halt e) Q E"
  by (simp add: valid_def halt_def)

lemma valid_sys: "(\<And>tr. P tr \<Longrightarrow> Q (os_call W tr c) (tr @ [c])) \<Longrightarrow> valid P (sys W c) Q E"
  by (simp add: valid_def sys_def)

lemma valid_andthen:
  "valid P p R E \<Longrightarrow> (\<And>x. valid (R x) (f x) Q E) \<Longrightarrow> valid P (andthen p f) Q E"
  by (fastforce simp: valid_def andthen_def split: run.splits)

lemma valid_seq:
  "valid P p (\<lambda>_. R) E \<Longrightarrow> valid R q Q E \<Longrightarrow> valid P (seq p q) Q E"
  by (auto simp: seq_def intro: valid_andthen)

lemma valid_each:
  "(\<And>x. x \<in> set xs \<Longrightarrow> valid P (f x) (\<lambda>_. P) E) \<Longrightarrow> valid P (each f xs) (\<lambda>_. P) E"
  by (induction xs) (auto intro: valid_ret valid_seq)

lemma valid_steps:
  "(\<And>p. p \<in> set ps \<Longrightarrow> valid P p (\<lambda>_. P) E) \<Longrightarrow> valid P (steps ps) (\<lambda>_. P) E"
  by (induction ps) (auto intro: valid_ret valid_seq)

lemma valid_weaken:
  "valid P p Q E \<Longrightarrow> (\<And>tr. P' tr \<Longrightarrow> P tr) \<Longrightarrow> (\<And>x tr. Q x tr \<Longrightarrow> Q' x tr) \<Longrightarrow>
   (\<And>e tr. E e tr \<Longrightarrow> E' e tr) \<Longrightarrow> valid P' p Q' E'"
  by (fastforce simp: valid_def split: run.splits)

text \<open>A system in which every call succeeds.\<close>

definition all_done :: "os \<Rightarrow> bool" where
  "all_done W \<longleftrightarrow> (\<forall>tr c. os_call W tr c = Done)"

lemma all_doneD [simp]: "all_done W \<Longrightarrow> os_call W tr c = Done"
  by (simp add: all_done_def)

lemma run_simps:
  "ret x tr = Ret x tr" "halt e tr = Halt e tr" "sys W c tr = Ret (os_call W tr c) (tr @ [c])"
  "andthen p f tr = (case p tr of Ret x tr' \<Rightarrow> f x tr' | Halt e tr' \<Rightarrow> Halt e tr')"
  "seq q f' tr = (case q tr of Ret x tr' \<Rightarrow> f' tr' | Halt e tr' \<Rightarrow> Halt e tr')"
  by (simp_all add: ret_def halt_def sys_def andthen_def seq_def)

lemma each_runs:
  "(\<And>x tr. x \<in> set xs \<Longrightarrow> f x tr = Ret () (tr @ g x)) \<Longrightarrow> each f xs tr = Ret () (tr @ concat (map g xs))"
  by (induction xs arbitrary: tr) (simp_all add: run_simps)

lemma each_quietly: "each (quietly W) cs tr = Ret () (tr @ cs)"
  by (induction cs arbitrary: tr) (simp_all add: run_simps quietly_def)

text \<open>All calls of \<open>cs\<close>, made one after the other behind \<open>tr\<close>, succeed.\<close>

fun all_succeed :: "os \<Rightarrow> call list \<Rightarrow> call list \<Rightarrow> bool" where
  "all_succeed W tr [] = True"
| "all_succeed W tr (c # cs) = (os_call W tr c = Done \<and> all_succeed W (tr @ [c]) cs)"

end
