(* ===== verification/Builder.thy ===== *)
theory Builder
  imports Sys
begin

text \<open>
  The builders that turn a configuration into a libvirt domain: libvirt-sandbox-builder.c,
  libvirt-sandbox-builder-machine.c and libvirt-sandbox-builder-container.c. The domain is the list
  of what the code sets on the libvirt-gconfig objects, in the order the devices are added. Beside
  the domain the builders leave files in the state directory, among them disks.cfg and mounts.cfg,
  which the guest reads.
\<close>

section \<open>Choosing a builder\<close>

datatype builder = Container | Machine

definition builder_for_connection :: "string \<Rightarrow> builder option" where
  "builder_for_connection uri =
     (if uri = ''lxc:///'' then Some Container
      else if uri = ''qemu:///session'' \<or> uri = ''qemu:///system'' then Some Machine
      else None)"

section \<open>Programs copied for the guest\<close>

definition LIBEXECDIR :: string where
  "LIBEXECDIR = ''/usr/libexec''"

definition LDD_PATH :: string where
  "LDD_PATH = ''/usr/bin/ldd''"

text \<open>\<open>g_path_get_basename\<close>\<close>

definition path_basename :: "string \<Rightarrow> string" where
  "path_basename p =
     (if p = [] then ''.''
      else let q = rev (dropWhile (\<lambda>c. c = CHR ''/'') (rev p)) in
           if q = [] then ''/''
           else (case strrchr_split CHR ''/'' q of None \<Rightarrow> q | Some (_, b) \<Rightarrow> b))"

definition copy_file :: "os \<Rightarrow> string \<Rightarrow> string \<Rightarrow> string option \<Rightarrow> bool prog" where
  "copy_file W path libsdir newname =
     (let target = libsdir @ ''/'' @ (case newname of None \<Rightarrow> path_basename path | Some n \<Rightarrow> n) in
      (\<lambda>tr. (if os_file W tr target \<noteq> None then ret True else ok W (Copy_file path target)) tr))"

text \<open>
  A line printed by ldd: the library's path runs from the first slash to the first opening
  parenthesis. A library without an arrow whose path has a component starting with \<open>ld\<close> is the
  dynamic loader, copied under the name ld.so.
\<close>

definition ldd_entry :: "string \<Rightarrow> (string \<times> string option) option" where
  "ldd_entry line =
     (case (strstr_split ''/'' line, strstr_split '' ('' line) of
        (Some (before, _), Some (shown, _)) \<Rightarrow>
          let start = (if length before < length shown then drop (length before) shown
                       else drop (length before) line)
          in Some (start, if strstr_split '' => '' shown = None \<and> strstr_split ''/ld'' start \<noteq> None
                          then Some ''ld.so'' else None)
      | _ \<Rightarrow> None)"

function ldd_lines :: "string \<Rightarrow> string list" where
  "ldd_lines out = (case strchr_split nl out of None \<Rightarrow> [] | Some (l, r) \<Rightarrow> l # ldd_lines r)"
  by pat_completeness auto

termination
  by (relation "measure length") (auto simp: strchr_split_Some)

declare ldd_lines.simps [simp del]

definition copy_program :: "os \<Rightarrow> string \<Rightarrow> string \<Rightarrow> bool prog" where
  "copy_program W program dest =
     andthen (copy_file W program dest None) (\<lambda>copied. if \<not> copied then ret False else
     andthen (ok W (Spawn [LDD_PATH, program])) (\<lambda>ran. if \<not> ran then ret False else
       (\<lambda>tr. while_ok (\<lambda>l. case ldd_entry l of
            None \<Rightarrow> ret True
          | Some (start, newname) \<Rightarrow> copy_file W start dest newname)
        (ldd_lines (os_output W tr [LDD_PATH, program])) tr)))"

definition files_to_copy :: "builder \<Rightarrow> string list" where
  "files_to_copy b = (case b of
       Machine \<Rightarrow> [LIBEXECDIR @ ''/libvirt-sandbox-init-common'']
     | Container \<Rightarrow> [LIBEXECDIR @ ''/libvirt-sandbox-init-common'', LIBEXECDIR @ ''/libvirt-sandbox-init-lxc''])"

definition copy_init :: "os \<Rightarrow> builder \<Rightarrow> string \<Rightarrow> bool prog" where
  "copy_init W b statedir =
     (let libsdir = statedir @ ''/config/.libs'' in
      andthen (sys W (Mkdirs libsdir 493)) (\<lambda>_.
        while_ok (\<lambda>f. copy_program W f libsdir) (files_to_copy b)))"

section \<open>The files of the state directory\<close>

text \<open>A file replaced line by line; if anything fails it is deleted.\<close>

definition write_lines :: "os \<Rightarrow> string \<Rightarrow> string list \<Rightarrow> bool prog" where
  "write_lines W path ls =
     andthen
       (andthen (ok W (Open_replace path)) (\<lambda>opened. if \<not> opened then ret False else
        andthen (while_ok (\<lambda>l. ok W (Write path l)) ls) (\<lambda>written. if \<not> written then ret False else
          ok W (Close path))))
       (\<lambda>written. if written then ret True
          else andthen (sys W (Delete_file path)) (\<lambda>_. ret False))"

text \<open>\<open>(char)('a' + n)\<close>\<close>

definition drive_letter :: "nat \<Rightarrow> char" where
  "drive_letter n = char_of ((97 + n) mod 256)"

definition disk_prefix :: "builder \<Rightarrow> string" where
  "disk_prefix b = (case b of Machine \<Rightarrow> ''vd'' | Container \<Rightarrow> ''sd'')"

fun disk_cfg_lines :: "builder \<Rightarrow> nat \<Rightarrow> disk list \<Rightarrow> string list" where
  "disk_cfg_lines b n [] = []"
| "disk_cfg_lines b n (d # ds) =
     (dk_tag d @ [tab] @ ''/dev/'' @ disk_prefix b @ [drive_letter n] @ [nl]) # disk_cfg_lines b (Suc n) ds"

definition construct_disk_cfg :: "os \<Rightarrow> builder \<Rightarrow> 'ip config \<Rightarrow> string \<Rightarrow> bool prog" where
  "construct_disk_cfg W b c statedir =
     write_lines W (statedir @ ''/config/disks.cfg'') (disk_cfg_lines b 0 (cf_disks c))"

text \<open>\<open>hb\<close> counts the host binds so far, \<open>vd\<close> the virtio disks.\<close>

definition mount_fields :: "nat \<Rightarrow> nat \<Rightarrow> mount_kind \<Rightarrow> string \<times> string \<times> string" where
  "mount_fields hb vd k = (case k of
       Host_bind _ \<Rightarrow> (''sandbox:mount'' @ dec hb, ''9p'', ''trans=virtio,version=9p2000.u'')
     | Host_image _ _ \<Rightarrow> (''/dev/vd'' @ [drive_letter vd], ''ext4'', [])
     | Guest_bind src \<Rightarrow> (src, [], [])
     | Ram usage \<Rightarrow> (''tmpfs'', ''tmpfs'', ''size='' @ dec (unat usage div 1024) @ ''k''))"

definition next_hb :: "nat \<Rightarrow> mount_kind \<Rightarrow> nat" where
  "next_hb hb k = (case k of Host_bind _ \<Rightarrow> Suc hb | _ \<Rightarrow> hb)"

definition next_vd :: "nat \<Rightarrow> mount_kind \<Rightarrow> nat" where
  "next_vd vd k = (case k of Host_image _ _ \<Rightarrow> Suc vd | _ \<Rightarrow> vd)"

fun mount_cfg_lines :: "nat \<Rightarrow> nat \<Rightarrow> mount list \<Rightarrow> string list" where
  "mount_cfg_lines hb vd [] = []"
| "mount_cfg_lines hb vd (m # ms) =
     (let (source, ty, opts) = mount_fields hb vd (mt_kind m) in
      source @ [tab] @ mt_target m @ [tab] @ ty @ [tab] @ opts @ [nl]) #
     mount_cfg_lines (next_hb hb (mt_kind m)) (next_vd vd (mt_kind m)) ms"

definition write_mount_cfg :: "os \<Rightarrow> 'ip config \<Rightarrow> string \<Rightarrow> bool prog" where
  "write_mount_cfg W c statedir =
     write_lines W (statedir @ ''/config/mounts.cfg'')
       (mount_cfg_lines 0 (length (cf_disks c)) (cf_mounts c))"

section \<open>Devices\<close>

fun disk_devices :: "builder \<Rightarrow> nat \<Rightarrow> disk list \<Rightarrow> device list" where
  "disk_devices b n [] = []"
| "disk_devices b n (d # ds) =
     Block \<lparr>bd_type = dk_type d, bd_format = dk_format d, bd_source = dk_source d,
       bd_target = disk_prefix b @ [drive_letter n], bd_virtio_bus = (b = Machine)\<rparr> #
     disk_devices b (Suc n) ds"

definition root_device :: "builder \<Rightarrow> 'ip config \<Rightarrow> device list" where
  "root_device b c =
     (if has_root_mount (cf_mounts c) then []
      else [Filesys \<lparr>fs_type = Fs_mount, fs_access = (case b of Machine \<Rightarrow> Squash | Container \<Rightarrow> Passthrough),
              fs_source = Some (cf_root c), fs_target = (case b of Machine \<Rightarrow> ''sandbox:root'' | Container \<Rightarrow> ''/''),
              fs_readonly = True, fs_driver = None\<rparr>])"

definition config_device :: "builder \<Rightarrow> string \<Rightarrow> string \<Rightarrow> device" where
  "config_device b sandboxconfigdir statedir =
     Filesys \<lparr>fs_type = Fs_mount, fs_access = (case b of Machine \<Rightarrow> Squash | Container \<Rightarrow> Passthrough),
       fs_source = Some (statedir @ ''/config''),
       fs_target = (case b of Machine \<Rightarrow> ''sandbox:config'' | Container \<Rightarrow> sandboxconfigdir),
       fs_readonly = True, fs_driver = None\<rparr>"

text \<open>In a machine only the mounts of host files are devices; \<open>root\<close> says whether the caller is root.\<close>

fun machine_mounts :: "('f, 'd, 'ip) glib \<Rightarrow> bool \<Rightarrow> int \<Rightarrow> nat \<Rightarrow> nat \<Rightarrow> mount list \<Rightarrow> device list" where
  "machine_mounts G root file hb vd [] = []"
| "machine_mounts G root file hb vd (m # ms) =
     (case mt_kind m of
        Host_bind src \<Rightarrow>
          [Filesys \<lparr>fs_type = Fs_mount, fs_access = (if root then Passthrough else Squash),
             fs_source = Some src, fs_target = ''sandbox:mount'' @ dec hb, fs_readonly = False, fs_driver = None\<rparr>]
      | Host_image src fmt \<Rightarrow>
          [Block \<lparr>bd_type = file, bd_format = fmt, bd_source = src, bd_target = ''vd'' @ [drive_letter vd],
             bd_virtio_bus = False\<rparr>]
      | _ \<Rightarrow> []) @
     machine_mounts G root file (next_hb hb (mt_kind m)) (next_vd vd (mt_kind m)) ms"

definition container_mount :: "('f, 'd, 'ip) glib \<Rightarrow> mount \<Rightarrow> device" where
  "container_mount G m =
     (let fs = \<lparr>fs_type = Fs_mount, fs_access = Passthrough, fs_source = None, fs_target = mt_target m,
                fs_readonly = False, fs_driver = None\<rparr>
      in Filesys (case mt_kind m of
           Host_bind src \<Rightarrow> fs\<lparr>fs_source := Some src\<rparr>
         | Host_image src fmt \<Rightarrow> fs\<lparr>fs_type := Fs_file, fs_source := Some src,
             fs_driver := Some (if fmt \<noteq> fmt_raw G then Drv_nbd else Drv_loop, fmt)\<rparr>
         | Guest_bind src \<Rightarrow> fs\<lparr>fs_type := Fs_bind, fs_source := Some src\<rparr>
         | Ram usage \<Rightarrow> fs\<lparr>fs_type := Fs_ram usage\<rparr>))"

definition set_filterref :: "filterref \<Rightarrow> iface_filterref" where
  "set_filterref f = \<lparr>iff_name = fr_name f,
     iff_parameters = map (\<lambda>q. (fp_name q, fp_value q)) (fr_parameters f)\<rparr>"

definition network_device :: "builder \<Rightarrow> 'ip network \<Rightarrow> device" where
  "network_device b n =
     Interface \<lparr>if_network = (case (b, nw_source n) of
                    (_, Some s) \<Rightarrow> Some s | (Machine, None) \<Rightarrow> None | (Container, None) \<Rightarrow> Some ''default''),
       if_mac = nw_mac n, if_virtio = (b = Machine), if_filterref = map_option set_filterref (nw_filterref n)\<rparr>"

definition is_interactive :: "'ip config \<Rightarrow> bool" where
  "is_interactive c = (case cf_class c of Interactive _ _ \<Rightarrow> True | _ \<Rightarrow> False)"

definition machine_devices :: "('f, 'd, 'ip) glib \<Rightarrow> bool \<Rightarrow> string \<Rightarrow> 'ip config \<Rightarrow> string \<Rightarrow> device list" where
  "machine_devices G root cfgdir c statedir =
     root_device Machine c @ [config_device Machine cfgdir statedir] @
     disk_devices Machine 0 (cf_disks c) @
     machine_mounts G root (dtype_file G) 0 (length (cf_disks c)) (cf_mounts c) @
     map (network_device Machine) (cf_networks c) @
     [No_memballoon, Console Con_serial, Serial] @
     (if cf_shell c then [Serial] else []) @
     (if is_interactive c then [Console Con_virtio] else [])"

definition container_devices :: "('f, 'd, 'ip) glib \<Rightarrow> string \<Rightarrow> 'ip config \<Rightarrow> string \<Rightarrow> device list" where
  "container_devices G cfgdir c statedir =
     disk_devices Container 0 (cf_disks c) @
     root_device Container c @ [config_device Container cfgdir statedir] @
     map (container_mount G) (cf_mounts c) @
     map (network_device Container) (cf_networks c) @
     [Console Con_default] @
     (if cf_shell c then [Console Con_default] else []) @
     (if is_interactive c then [Console Con_default] else [])"

section \<open>Constructing the domain\<close>

definition machine_cmdline :: "os \<Rightarrow> string" where
  "machine_cmdline W =
     '' console=ttyS0'' @
     (if os_environ W ''LIBVIRT_SANDBOX_INIT_DEBUG'' \<noteq> None
      then '' debug loglevel=10 earlyprintk=ttyS0'' else '' quiet loglevel=0'') @
     (case os_environ W ''LIBVIRT_SANDBOX_STRACE'' of None \<Rightarrow> [] | Some s \<Rightarrow> '' strace='' @ s) @
     '' edd=off printk.time=1 noreplace-smp cgroup_disable=memory pci=noearly noapic panic=-1 selinux=0''"

definition container_cmdline :: "os \<Rightarrow> string" where
  "container_cmdline W =
     (if os_environ W ''LIBVIRT_SANDBOX_INIT_DEBUG'' \<noteq> None then ''debug'' else []) @
     (case os_environ W ''LIBVIRT_SANDBOX_STRACE'' of None \<Rightarrow> [] | Some s \<Rightarrow> '' strace='' @ s)"

definition construct_basic :: "'ip config \<Rightarrow> domain \<Rightarrow> domain" where
  "construct_basic c d = d\<lparr>dm_name := cf_name c, dm_memory := 1024 * 512\<rparr>"

definition machine_construct_basic :: "bool \<Rightarrow> 'ip config \<Rightarrow> domain \<Rightarrow> domain" where
  "machine_construct_basic kvm c d =
     (construct_basic c d)\<lparr>dm_virt := Some (if kvm then Virt_kvm else Virt_qemu), dm_destroy_always := True\<rparr>"

definition container_construct_basic :: "'ip config \<Rightarrow> domain \<Rightarrow> domain" where
  "container_construct_basic c d =
     (construct_basic c d)\<lparr>dm_virt := Some Virt_lxc, dm_features := [''privnet'']\<rparr>"

definition machine_construct_features :: "domain \<Rightarrow> domain" where
  "machine_construct_features d = d\<lparr>dm_features := [''acpi'']\<rparr>"

definition container_construct_os :: "os \<Rightarrow> string \<Rightarrow> 'ip config \<Rightarrow> domain \<Rightarrow> domain" where
  "container_construct_os W cfgdir c d =
     d\<lparr>dm_os := Some \<lparr>do_hvm = False, do_arch = cf_arch c, do_kernel = None, do_ramdisk = None,
        do_init = Some (cfgdir @ ''/.libs/libvirt-sandbox-init-lxc''), do_cmdline = container_cmdline W\<rparr>\<rparr>"

definition security_selinux :: "'ip config \<Rightarrow> domain \<Rightarrow> seclabel" where
  "security_selinux c d =
     (if cf_secDynamic c then
        \<lparr>sl_model = ''selinux'', sl_dynamic = True,
         sl_baselabel = (case cf_secLabel c of Some l \<Rightarrow> Some l
           | None \<Rightarrow> (case dm_virt d of
               Some Virt_lxc \<Rightarrow> Some ''system_u:system_r:svirt_lxc_net_t:s0''
             | Some Virt_qemu \<Rightarrow> Some ''system_u:system_r:svirt_tcg_t:s0''
             | Some Virt_kvm \<Rightarrow> Some ''system_u:system_r:svirt_t:s0''
             | None \<Rightarrow> None)),
         sl_label = None\<rparr>
      else \<lparr>sl_model = ''selinux'', sl_dynamic = False, sl_baselabel = None, sl_label = cf_secLabel c\<rparr>)"

definition security_apparmor :: "'ip config \<Rightarrow> seclabel" where
  "security_apparmor c =
     (if cf_secDynamic c
      then \<lparr>sl_model = ''apparmor'', sl_dynamic = True, sl_baselabel = None, sl_label = None\<rparr>
      else \<lparr>sl_model = ''apparmor'', sl_dynamic = False, sl_baselabel = None, sl_label = cf_secLabel c\<rparr>)"

text \<open>\<open>secmodels\<close> is what the capabilities of the connection list, NULL if they cannot be read.\<close>

definition construct_security :: "string list option \<Rightarrow> 'ip config \<Rightarrow> domain \<Rightarrow> domain option" where
  "construct_security secmodels c d =
     (case secmodels of
        None \<Rightarrow> None
      | Some models \<Rightarrow>
          Some (if ''selinux'' \<in> set models then d\<lparr>dm_seclabel := Some (security_selinux c d)\<rparr>
                else if ''apparmor'' \<in> set models then d\<lparr>dm_seclabel := Some (security_apparmor c)\<rparr>
                else d))"

section \<open>Cleaning up\<close>

definition unlink_ok :: "os \<Rightarrow> string \<Rightarrow> bool prog" where
  "unlink_ok W path = andthen (sys W (Unlink path)) (\<lambda>r. ret (r = Done \<or> r = Enoent))"

definition both :: "bool prog \<Rightarrow> bool prog \<Rightarrow> bool prog" where
  "both p q = andthen p (\<lambda>a. andthen q (\<lambda>b. ret (a \<and> b)))"

definition class_clean_post_start :: "os \<Rightarrow> builder \<Rightarrow> string \<Rightarrow> bool prog" where
  "class_clean_post_start W b statedir = (case b of
       Container \<Rightarrow> ret True
     | Machine \<Rightarrow> both (unlink_ok W (statedir @ ''/initrd.img'')) (unlink_ok W (statedir @ ''/vmlinuz'')))"

definition class_clean_post_stop :: "os \<Rightarrow> builder \<Rightarrow> string \<Rightarrow> bool prog" where
  "class_clean_post_stop W b statedir = (case b of
       Container \<Rightarrow> ret True
     | Machine \<Rightarrow> unlink_ok W (statedir @ ''/config/mounts.cfg''))"

fun all_of :: "('x \<Rightarrow> bool prog) \<Rightarrow> 'x list \<Rightarrow> bool prog" where
  "all_of f [] = ret True"
| "all_of f (x # xs) = both (f x) (all_of f xs)"

text \<open>
  The library directory may be missing; if it cannot be read otherwise, it is left as it is. The
  error location is taken to be given, as its callers do.
\<close>

definition clean_post_stop :: "os \<Rightarrow> builder \<Rightarrow> string \<Rightarrow> bool prog" where
  "clean_post_stop W b statedir =
     (let libsdir = statedir @ ''/config/.libs'';
          remove = andthen (sys W (Delete_file libsdir)) (\<lambda>r. ret (r = Done \<or> r = Enoent))
      in both (both (class_clean_post_stop W b statedir) (unlink_ok W (statedir @ ''/config/disks.cfg'')))
        (\<lambda>tr. (case os_listdir W tr libsdir of
           (Done, names) \<Rightarrow> both (all_of (\<lambda>n. ok W (Delete_file (libsdir @ ''/'' @ n))) names) remove
         | (Enoent, _) \<Rightarrow> remove
         | _ \<Rightarrow> ret False) tr))"

end
