(* ===== verification/Builder_Initrd.thy ===== *)
theory Builder_Initrd
  imports Builder
begin

text \<open>
  The initrd of a machine: libvirt-sandbox-builder-initrd.c with its configuration object
  libvirt-sandbox-config-initrd.c, the kernel of libvirt-sandbox-builder-machine.c, and with them
  the whole construction of a domain.
\<close>

section \<open>Finding the modules\<close>

record initrd =
  ir_kver :: string
  ir_kmoddir :: string
  ir_init :: string
  ir_modules :: "string list"

text \<open>The configuration object; version and directory are NULL until they are set.\<close>

definition initrd_new :: initrd where
  "initrd_new = \<lparr>ir_kver = [], ir_kmoddir = [], ir_init = LIBEXECDIR @ ''/libvirt-sandbox-init-qemu'', ir_modules = []\<rparr>"

definition initrd_set_kver :: "string \<Rightarrow> initrd \<Rightarrow> initrd" where
  "initrd_set_kver v ir = ir\<lparr>ir_kver := v\<rparr>"

definition initrd_set_kmoddir :: "string \<Rightarrow> initrd \<Rightarrow> initrd" where
  "initrd_set_kmoddir dir ir = ir\<lparr>ir_kmoddir := dir\<rparr>"

definition initrd_set_init :: "string \<Rightarrow> initrd \<Rightarrow> initrd" where
  "initrd_set_init path ir = ir\<lparr>ir_init := path\<rparr>"

definition initrd_add_module :: "string \<Rightarrow> initrd \<Rightarrow> initrd" where
  "initrd_add_module name ir = ir\<lparr>ir_modules := ir_modules ir @ [name]\<rparr>"

lemma fold_add_module: "fold initrd_add_module names ir = ir\<lparr>ir_modules := ir_modules ir @ names\<rparr>"
  by (induction names arbitrary: ir) (simp_all add: initrd_add_module_def)

text \<open>A directory tree, its entries in the order they are enumerated.\<close>

datatype node = N_file | N_dir "(string \<times> node) list" | N_unreadable

text \<open>
  A file is appended once for every module name its name begins with; after the first time the
  pointer is NULL.
\<close>

definition module_matches :: "string list \<Rightarrow> string \<Rightarrow> string \<Rightarrow> string option list" where
  "module_matches names name path =
     (case filter (\<lambda>n. strip_prefix n name \<noteq> None) names of
        [] \<Rightarrow> []
      | _ # others \<Rightarrow> Some path # map (\<lambda>_. None) others)"

fun find_files :: "string list \<Rightarrow> string \<Rightarrow> (string \<times> node) list \<Rightarrow> string option list option" where
  "find_files names dir [] = Some []"
| "find_files names dir ((name, node) # rest) =
     (if strstr_split ''.ko'' name \<noteq> None then
        map_option (append (module_matches names name (dir @ ''/'' @ name))) (find_files names dir rest)
      else (case node of
          N_dir children \<Rightarrow>
            (case find_files names (dir @ ''/'' @ name) children of
               None \<Rightarrow> None
             | Some fs \<Rightarrow> map_option (append fs) (find_files names dir rest))
        | N_unreadable \<Rightarrow> None
        | N_file \<Rightarrow> find_files names dir rest))"

definition find_modules :: "initrd \<Rightarrow> node option \<Rightarrow> string option list option" where
  "find_modules ir moddir =
     (case moddir of
        Some (N_dir children) \<Rightarrow> find_files (ir_modules ir) (ir_kmoddir ir) children
      | _ \<Rightarrow> None)"

section \<open>The image\<close>

text \<open>
  The list the guest loads its modules from: for every name, in the order of the names, the first
  file that begins with it.
\<close>

fun module_list :: "string list \<Rightarrow> string list \<Rightarrow> string list" where
  "module_list [] files = []"
| "module_list (n # ns) files =
     (case find (\<lambda>f. strip_prefix n (path_basename f) \<noteq> None) files of
        None \<Rightarrow> module_list ns files
      | Some f \<Rightarrow> path_basename f # module_list ns files)"

definition write_modules :: "os \<Rightarrow> string \<Rightarrow> string list \<Rightarrow> bool prog" where
  "write_modules W path ls =
     andthen (ok W (Open_new path)) (\<lambda>opened. if \<not> opened then ret False else
     andthen (while_ok (\<lambda>l. while_ok (\<lambda>s. ok W (Write path s)) [l, [nl]]) ls) (\<lambda>written.
       if \<not> written then ret False else ok W (Close path)))"

definition populate_tmpdir :: "os \<Rightarrow> node option \<Rightarrow> string \<Rightarrow> initrd \<Rightarrow> bool prog" where
  "populate_tmpdir W moddir tmpdir ir =
     andthen (ok W (Copy_file (ir_init ir) (tmpdir @ ''/init''))) (\<lambda>copied. if \<not> copied then ret False else
       (case find_modules ir moddir of
          None \<Rightarrow> ret False
        | Some files \<Rightarrow>
            andthen
              (while_ok (\<lambda>f. case f of None \<Rightarrow> halt Undefined
                 | Some p \<Rightarrow> ok W (Copy_file p (tmpdir @ ''/'' @ path_basename p))) files)
              (\<lambda>copied. if \<not> copied then ret False
                 else write_modules W (tmpdir @ ''/modules'') (module_list (ir_modules ir) (map the files)))))"

text \<open>\<open>g_shell_quote\<close>\<close>

definition shell_quote :: "string \<Rightarrow> string" where
  "shell_quote s = [CHR 0x27] @ concat (map (\<lambda>c. if c = CHR 0x27 then [c, CHR 0x5C, c, c] else [c]) s) @ [CHR 0x27]"

definition initrd_command :: "string \<Rightarrow> string \<Rightarrow> string" where
  "initrd_command tmpdir outputfile =
     ''/bin/sh -c '' @ [CHR 0x22] @ ''(cd '' @ shell_quote tmpdir @
       '' && ( find | cpio --quiet -o -H newc | gzip -9 ) ) > '' @ shell_quote outputfile @ [CHR 0x22]"

definition create_initrd :: "os \<Rightarrow> string \<Rightarrow> string \<Rightarrow> bool prog" where
  "create_initrd W tmpdir outputfile = ok W (Spawn_line (initrd_command tmpdir outputfile))"

text \<open>
  The result of removing the directory, and whether an error was reported; \<open>report\<close> says whether there is
  an error location. With one, a file that cannot be deleted makes the function fail; a directory
  that cannot be deleted is only reported.
\<close>

definition remove_tmpdir :: "os \<Rightarrow> string \<Rightarrow> bool \<Rightarrow> (bool \<times> bool) prog" where
  "remove_tmpdir W tmpdir report =
     (\<lambda>tr. (case os_listdir W tr tmpdir of
        (Done, names) \<Rightarrow>
          andthen (all_of (\<lambda>n. ok W (Delete_file (tmpdir @ ''/'' @ n))) names) (\<lambda>deleted.
          andthen (ok W (Delete_file tmpdir)) (\<lambda>gone.
            ret (deleted \<or> \<not> report, report \<and> \<not> (deleted \<and> gone))))
      | _ \<Rightarrow> andthen (sys W (Delete_file tmpdir)) (\<lambda>_. ret (False, report))) tr)"

definition tempdir_template :: "os \<Rightarrow> string" where
  "tempdir_template W = (case os_environ W ''TEMPDIR'' of None \<Rightarrow> ''/tmp'' | Some d \<Rightarrow> d) @ ''/libvirt-sandbox-XXXXXX''"

definition create_tempdir :: "os \<Rightarrow> string option prog" where
  "create_tempdir W =
     (\<lambda>tr. andthen (ok W (Mkdtemp (tempdir_template W)))
        (\<lambda>made. ret (if made then Some (os_tempdir W tr (tempdir_template W)) else None)) tr)"

text \<open>The result, and whether an error was reported.\<close>

definition initrd_construct :: "os \<Rightarrow> node option \<Rightarrow> initrd \<Rightarrow> string \<Rightarrow> (bool \<times> bool) prog" where
  "initrd_construct W moddir ir outputfile =
     andthen (sys W (Umask 63)) (\<lambda>_.
     andthen (create_tempdir W) (\<lambda>tmpdir.
     andthen (case tmpdir of
         None \<Rightarrow> ret (False, True)
       | Some dir \<Rightarrow>
           andthen (andthen (populate_tmpdir W moddir dir ir) (\<lambda>populated.
                      if populated then create_initrd W dir outputfile else ret False)) (\<lambda>built.
           andthen (remove_tmpdir W dir built) (\<lambda>(removed, reported).
             ret (built \<and> removed, \<not> built \<or> reported))))
       (\<lambda>(result, reported).
     andthen (if result then ret () else andthen (sys W (Delete_file outputfile)) (\<lambda>_. ret ())) (\<lambda>_.
     andthen (sys W Umask_restore) (\<lambda>_. ret (result, reported))))))"

section \<open>The kernel\<close>

definition get_kernrelease :: "os \<Rightarrow> 'ip config \<Rightarrow> string" where
  "get_kernrelease W c = (case cf_kernrelease c of Some v \<Rightarrow> v | None \<Rightarrow> os_release W)"

definition get_kernpath :: "os \<Rightarrow> 'ip config \<Rightarrow> string" where
  "get_kernpath W c = (case cf_kernpath c of Some p \<Rightarrow> p | None \<Rightarrow> ''/boot/vmlinuz-'' @ get_kernrelease W c)"

definition initrd_modules :: "'ip config \<Rightarrow> string list" where
  "initrd_modules c =
     [''fscache.ko'', ''virtio.ko'', ''virtio_ring.ko'', ''virtio_pci.ko'', ''9pnet.ko'', ''9p.ko'',
      ''9pnet_virtio.ko''] @
     (if cf_networks c \<noteq> [] then [''virtio_net.ko''] else []) @
     (if has_mounts_with_type (cf_mounts c) T_host_image \<or> cf_disks c \<noteq> [] then [''virtio_blk.ko''] else []) @
     [''virtio_console.ko'', ''af_packet.ko'', ''fscrypto.ko'', ''mbcache.ko'', ''jbd2.ko'', ''crc16.ko'', ''ext4.ko'']"

definition mkinitrd_config :: "os \<Rightarrow> 'ip config \<Rightarrow> initrd" where
  "mkinitrd_config W c =
     (let kver = get_kernrelease W c;
          kmodpath = (case cf_kmodpath c of Some p \<Rightarrow> p | None \<Rightarrow> ''/lib/modules'');
          ir = initrd_set_kver kver initrd_new;
          ir = initrd_set_kmoddir (kmodpath @ ''/'' @ kver @ ''/kernel'') ir;
          ir = initrd_set_init (LIBEXECDIR @ ''/libvirt-sandbox-init-qemu'') ir
      in fold initrd_add_module (initrd_modules c) ir)"

lemma mkinitrd_config_eq:
  "mkinitrd_config W c =
     \<lparr>ir_kver = get_kernrelease W c,
      ir_kmoddir = (case cf_kmodpath c of Some p \<Rightarrow> p | None \<Rightarrow> ''/lib/modules'') @ ''/'' @
        get_kernrelease W c @ ''/kernel'',
      ir_init = LIBEXECDIR @ ''/libvirt-sandbox-init-qemu'',
      ir_modules = initrd_modules c\<rparr>"
  by (simp add: mkinitrd_config_def Let_def initrd_new_def initrd_set_kver_def initrd_set_kmoddir_def
      initrd_set_init_def fold_add_module)

text \<open>The caller looks at the reported error, not at the result.\<close>

definition mkinitrd :: "os \<Rightarrow> node option \<Rightarrow> 'ip config \<Rightarrow> string \<Rightarrow> bool prog" where
  "mkinitrd W moddir c statedir =
     andthen (initrd_construct W moddir (mkinitrd_config W c) (statedir @ ''/initrd.img''))
       (\<lambda>(_, reported). ret (\<not> reported))"

definition copykern :: "os \<Rightarrow> 'ip config \<Rightarrow> string \<Rightarrow> bool prog" where
  "copykern W c statedir = ok W (Copy_file (get_kernpath W c) (statedir @ ''/vmlinuz''))"

definition machine_construct_os :: "os \<Rightarrow> node option \<Rightarrow> 'ip config \<Rightarrow> string \<Rightarrow> domain \<Rightarrow> domain option prog" where
  "machine_construct_os W moddir c statedir d =
     andthen (mkinitrd W moddir c statedir) (\<lambda>made. if \<not> made then ret None else
     andthen (copykern W c statedir) (\<lambda>copied. if \<not> copied then ret None else
       (\<lambda>tr. (if os_file W tr (statedir @ ''/vmlinuz'') = None then ret None
         else ret (Some (d\<lparr>dm_os := Some \<lparr>do_hvm = True, do_arch = cf_arch c,
           do_kernel = Some (statedir @ ''/vmlinuz''), do_ramdisk = Some (statedir @ ''/initrd.img''),
           do_init = None, do_cmdline = machine_cmdline W\<rparr>\<rparr>))) tr)))"

section \<open>The whole domain\<close>

text \<open>
  \<open>secmodels\<close> are the security models of the connection, \<open>moddir\<close> the tree under the directory of the
  kernel modules.
\<close>

definition builder_construct ::
  "('f, 'd, 'ip) glib \<Rightarrow> os \<Rightarrow> string list option \<Rightarrow> node option \<Rightarrow> string \<Rightarrow> builder \<Rightarrow> 'ip config \<Rightarrow>
   string \<Rightarrow> domain option prog" where
  "builder_construct G W secmodels moddir cfgdir b c statedir =
     andthen (if b = Machine then write_mount_cfg W c statedir else ret True) (\<lambda>written.
       if \<not> written then ret None else
     andthen (copy_init W b statedir) (\<lambda>copied. if \<not> copied then ret None else
     andthen (case b of
         Machine \<Rightarrow> machine_construct_os W moddir c statedir (machine_construct_basic (os_kvm W) c domain_new)
       | Container \<Rightarrow> ret (Some (container_construct_os W cfgdir c (container_construct_basic c domain_new))))
       (\<lambda>r. case r of None \<Rightarrow> ret None | Some d \<Rightarrow>
     andthen (construct_disk_cfg W b c statedir) (\<lambda>written. if \<not> written then ret None else
       ret (construct_security secmodels c
         (case b of
            Machine \<Rightarrow> add_devices (machine_devices G (os_uid W = 0) cfgdir c statedir) (machine_construct_features d)
          | Container \<Rightarrow> add_devices (container_devices G cfgdir c statedir) d))))))"

end
