(* ===== verification/Config_Object.thy ===== *)
theory Config_Object
  imports Gobject Config_Types Builder_Initrd
begin

text \<open>
  The configuration objects as GObject classes: for each class the properties that its \<open>class_init\<close>
  installs, \<open>get_property\<close> and \<open>set_property\<close> (without a result for a value of another type than the
  accessor of the \<open>GValue\<close> wants, and for an unknown property), and an interpretation of
  \<open>property_class\<close>. Here are libvirt-sandbox-config.c with its interactive and systemd subclasses, the
  network with its parts, disks, the five mounts and the initrd.
\<close>

section \<open>The configuration\<close>

datatype config_prop = PROP_NAME | PROP_UUID | PROP_ROOT | PROP_ARCH | PROP_SHELL | PROP_KERNRELEASE
  | PROP_KERNPATH | PROP_KMODPATH | PROP_UID | PROP_GID | PROP_USERNAME | PROP_HOMEDIR
  | PROP_SECURITY_LABEL | PROP_SECURITY_DYNAMIC

text \<open>\<open>shell\<close> is installed with \<open>g_param_spec_string\<close>, its default FALSE being the null pointer.\<close>

definition config_specs :: "host_env \<Rightarrow> (config_prop \<times> 'o param_spec) list" where [class_specs]:
  "config_specs E =
     [(PROP_NAME, prop_spec ''name'' (V_string None) True),
      (PROP_UUID, prop_spec ''uuid'' (V_string None) True),
      (PROP_ROOT, prop_spec ''root'' (V_string None) False),
      (PROP_ARCH, prop_spec ''arch'' (V_string None) False),
      (PROP_KERNRELEASE, prop_spec ''kernrelease'' (V_string None) False),
      (PROP_KERNPATH, prop_spec ''kernpath'' (V_string None) False),
      (PROP_KMODPATH, prop_spec ''kmodpath'' (V_string None) False),
      (PROP_SHELL, prop_spec ''shell'' (V_string None) False),
      (PROP_UID, prop_spec ''uid'' (V_uint (he_euid E)) False),
      (PROP_GID, prop_spec ''gid'' (V_uint (he_egid E)) False),
      (PROP_USERNAME, prop_spec ''username'' (V_string (Some (he_user E))) False),
      (PROP_HOMEDIR, prop_spec ''homedir'' (V_string (Some (he_home E))) False),
      (PROP_SECURITY_LABEL, prop_spec ''security-label'' (V_string None) False),
      (PROP_SECURITY_DYNAMIC, prop_spec ''security-dynamic'' (V_boolean True) False)]"

fun config_get_property :: "config_prop \<Rightarrow> 'ip config \<Rightarrow> 'o gvalue option" where
  "config_get_property PROP_NAME c = Some (V_string (cf_name c))"
| "config_get_property PROP_UUID c = Some (V_string (cf_uuid c))"
| "config_get_property PROP_ROOT c = Some (V_string (Some (cf_root c)))"
| "config_get_property PROP_ARCH c = Some (V_string (Some (cf_arch c)))"
| "config_get_property PROP_KERNRELEASE c = Some (V_string (cf_kernrelease c))"
| "config_get_property PROP_KERNPATH c = Some (V_string (cf_kernpath c))"
| "config_get_property PROP_KMODPATH c = Some (V_string (cf_kmodpath c))"
| "config_get_property PROP_SHELL c = Some (V_boolean (cf_shell c))"
| "config_get_property PROP_UID c = Some (V_uint (cf_uid c))"
| "config_get_property PROP_GID c = Some (V_uint (cf_gid c))"
| "config_get_property PROP_USERNAME c = Some (V_string (Some (cf_username c)))"
| "config_get_property PROP_HOMEDIR c = Some (V_string (Some (cf_homedir c)))"
| "config_get_property PROP_SECURITY_LABEL c = Some (V_string (cf_secLabel c))"
| "config_get_property PROP_SECURITY_DYNAMIC c = Some (V_boolean (cf_secDynamic c))"

fun config_set_property :: "config_prop \<Rightarrow> 'o gvalue \<Rightarrow> 'ip config \<Rightarrow> 'ip config option" where
  "config_set_property PROP_NAME (V_string x) c = Some (c\<lparr>cf_name := x\<rparr>)"
| "config_set_property PROP_UUID (V_string x) c = Some (c\<lparr>cf_uuid := x\<rparr>)"
| "config_set_property PROP_ROOT (V_string (Some x)) c = Some (c\<lparr>cf_root := x\<rparr>)"
| "config_set_property PROP_ARCH (V_string (Some x)) c = Some (c\<lparr>cf_arch := x\<rparr>)"
| "config_set_property PROP_KERNRELEASE (V_string x) c = Some (c\<lparr>cf_kernrelease := x\<rparr>)"
| "config_set_property PROP_KERNPATH (V_string x) c = Some (c\<lparr>cf_kernpath := x\<rparr>)"
| "config_set_property PROP_KMODPATH (V_string x) c = Some (c\<lparr>cf_kmodpath := x\<rparr>)"
| "config_set_property PROP_SHELL (V_boolean x) c = Some (c\<lparr>cf_shell := x\<rparr>)"
| "config_set_property PROP_UID (V_uint x) c = Some (c\<lparr>cf_uid := x\<rparr>)"
| "config_set_property PROP_GID (V_uint x) c = Some (c\<lparr>cf_gid := x\<rparr>)"
| "config_set_property PROP_USERNAME (V_string (Some x)) c = Some (c\<lparr>cf_username := x\<rparr>)"
| "config_set_property PROP_HOMEDIR (V_string (Some x)) c = Some (c\<lparr>cf_homedir := x\<rparr>)"
| "config_set_property PROP_SECURITY_LABEL (V_string x) c = Some (c\<lparr>cf_secLabel := x\<rparr>)"
| "config_set_property PROP_SECURITY_DYNAMIC (V_boolean x) c = Some (c\<lparr>cf_secDynamic := x\<rparr>)"
| "config_set_property _ _ c = None"

lemma config_set_get:
  assumes "config_set_property p v c = Some d"
  shows "config_get_property q d = (if q = p then Some v else config_get_property q c)"
  using assms by (cases "(p, v, c)" rule: config_set_property.cases) (cases q; auto)+

lemma config_set_strings:
  "config_set_property PROP_ROOT (V_string x) c = map_option (\<lambda>r. c\<lparr>cf_root := r\<rparr>) x"
  "config_set_property PROP_ARCH (V_string x) c = map_option (\<lambda>r. c\<lparr>cf_arch := r\<rparr>) x"
  "config_set_property PROP_USERNAME (V_string x) c = map_option (\<lambda>r. c\<lparr>cf_username := r\<rparr>) x"
  "config_set_property PROP_HOMEDIR (V_string x) c = map_option (\<lambda>r. c\<lparr>cf_homedir := r\<rparr>) x"
  by (cases x; simp)+

text \<open>All the laws hold for the class without the property \<open>shell\<close>.\<close>

interpretation config_class: property_class "filter (\<lambda>ps. fst ps \<noteq> PROP_SHELL) (config_specs E)"
  config_get_property config_set_property "\<lambda>_. True" for E
  by (unfold_locales; (erule config_set_get | auto simp: class_specs gtype_of_eq config_set_strings))

section \<open>The interactive and the systemd configuration\<close>

text \<open>\<open>tty\<close> is installed as a string as well.\<close>

datatype interactive_prop = PROP_TTY

definition interactive_specs :: "(interactive_prop \<times> 'o param_spec) list" where [class_specs]:
  "interactive_specs = [(PROP_TTY, prop_spec ''tty'' (V_string None) False)]"

fun interactive_get_property :: "interactive_prop \<Rightarrow> 'ip config \<Rightarrow> 'o gvalue option" where
  "interactive_get_property PROP_TTY c =
     (case cf_class c of Interactive tty _ \<Rightarrow> Some (V_boolean tty) | _ \<Rightarrow> None)"

fun interactive_set_property :: "interactive_prop \<Rightarrow> 'o gvalue \<Rightarrow> 'ip config \<Rightarrow> 'ip config option" where
  "interactive_set_property PROP_TTY (V_boolean tty) c =
     (case cf_class c of Interactive _ argv \<Rightarrow> Some (c\<lparr>cf_class := Interactive tty argv\<rparr>) | _ \<Rightarrow> None)"
| "interactive_set_property PROP_TTY _ c = None"

text \<open>The systemd class has the two methods, but its \<open>class_init\<close> installs no property.\<close>

datatype systemd_prop = PROP_BOOT_TARGET

definition systemd_specs :: "(systemd_prop \<times> 'o param_spec) list" where [class_specs]:
  "systemd_specs = []"

fun systemd_get_property :: "systemd_prop \<Rightarrow> 'ip config \<Rightarrow> 'o gvalue option" where
  "systemd_get_property PROP_BOOT_TARGET c =
     (case cf_class c of Service_systemd target \<Rightarrow> Some (V_string target) | _ \<Rightarrow> None)"

fun systemd_set_property :: "systemd_prop \<Rightarrow> 'o gvalue \<Rightarrow> 'ip config \<Rightarrow> 'ip config option" where
  "systemd_set_property PROP_BOOT_TARGET (V_string target) c =
     (case cf_class c of Service_systemd _ \<Rightarrow> Some (c\<lparr>cf_class := Service_systemd target\<rparr>) | _ \<Rightarrow> None)"
| "systemd_set_property PROP_BOOT_TARGET _ c = None"

end
