(* ===== verification/Config_Parts.thy ===== *)
theory Config_Parts
  imports Gobject Config_Types Builder_Initrd
begin

text \<open>
  The objects a configuration is made of as GObject classes: networks with their addresses, routes
  and filters, disks, the mounts and the configuration of the initrd. A string pointer that the
  model keeps as a plain string is not NULL here.
\<close>

section \<open>Networks\<close>

datatype network_prop = NETWORK_DHCP | NETWORK_SOURCE | NETWORK_MAC

definition network_specs :: "(network_prop \<times> 'o param_spec) list" where [class_specs]:
  "network_specs =
     [(NETWORK_DHCP, prop_spec ''dhcp'' (V_boolean True) False),
      (NETWORK_SOURCE, prop_spec ''source'' (V_string None) False),
      (NETWORK_MAC, prop_spec ''mac'' (V_string None) False)]"

fun network_get_property :: "network_prop \<Rightarrow> 'ip network \<Rightarrow> 'o gvalue option" where
  "network_get_property NETWORK_DHCP n = Some (V_boolean (nw_dhcp n))"
| "network_get_property NETWORK_SOURCE n = Some (V_string (nw_source n))"
| "network_get_property NETWORK_MAC n = Some (V_string (nw_mac n))"

fun network_set_property :: "network_prop \<Rightarrow> 'o gvalue \<Rightarrow> 'ip network \<Rightarrow> 'ip network option" where
  "network_set_property NETWORK_DHCP (V_boolean x) n = Some (n\<lparr>nw_dhcp := x\<rparr>)"
| "network_set_property NETWORK_SOURCE (V_string x) n = Some (n\<lparr>nw_source := x\<rparr>)"
| "network_set_property NETWORK_MAC (V_string x) n = Some (n\<lparr>nw_mac := x\<rparr>)"
| "network_set_property _ _ n = None"

lemma network_get_put:
  "network_set_property p v x = Some d \<Longrightarrow> network_get_property q d = (if q = p then Some v else network_get_property q x)"
  by (cases p; cases v; cases q) auto

interpretation network_class: property_class network_specs network_get_property network_set_property "\<lambda>_. True"
  by (unfold_locales; (erule network_get_put | auto simp: class_specs gtype_of_eq))

section \<open>Addresses and routes\<close>

text \<open>Here an object is an internet address.\<close>

datatype address_prop = ADDRESS_PRIMARY | ADDRESS_BROADCAST | ADDRESS_PREFIX

definition address_specs :: "(address_prop \<times> 'ip param_spec) list" where [class_specs]:
  "address_specs =
     [(ADDRESS_PRIMARY, prop_spec ''primary'' (V_object None) True),
      (ADDRESS_BROADCAST, prop_spec ''broadcast'' (V_object None) True),
      (ADDRESS_PREFIX, prop_spec ''prefix'' (V_uint 24) True)]"

fun address_get_property :: "address_prop \<Rightarrow> 'ip net_address \<Rightarrow> 'ip gvalue option" where
  "address_get_property ADDRESS_PRIMARY a = Some (V_object (na_primary a))"
| "address_get_property ADDRESS_BROADCAST a = Some (V_object (na_broadcast a))"
| "address_get_property ADDRESS_PREFIX a = Some (V_uint (na_prefix a))"

fun address_set_property :: "address_prop \<Rightarrow> 'ip gvalue \<Rightarrow> 'ip net_address \<Rightarrow> 'ip net_address option" where
  "address_set_property ADDRESS_PRIMARY (V_object x) a = Some (a\<lparr>na_primary := x\<rparr>)"
| "address_set_property ADDRESS_BROADCAST (V_object x) a = Some (a\<lparr>na_broadcast := x\<rparr>)"
| "address_set_property ADDRESS_PREFIX (V_uint x) a = Some (a\<lparr>na_prefix := x\<rparr>)"
| "address_set_property _ _ a = None"

lemma address_get_put:
  "address_set_property p v x = Some d \<Longrightarrow> address_get_property q d = (if q = p then Some v else address_get_property q x)"
  by (cases p; cases v; cases q) auto

interpretation address_class: property_class address_specs address_get_property address_set_property "\<lambda>_. True"
  by (unfold_locales; (erule address_get_put | auto simp: class_specs gtype_of_eq))

definition address_set_primary :: "'ip \<Rightarrow> 'ip net_address \<Rightarrow> 'ip net_address" where
  "address_set_primary x a = a\<lparr>na_primary := Some x\<rparr>"

definition address_set_broadcast :: "'ip \<Rightarrow> 'ip net_address \<Rightarrow> 'ip net_address" where
  "address_set_broadcast x a = a\<lparr>na_broadcast := Some x\<rparr>"

text \<open>The setter does not check the range that the property has.\<close>

definition address_set_prefix :: "u32 \<Rightarrow> 'ip net_address \<Rightarrow> 'ip net_address" where
  "address_set_prefix x a = a\<lparr>na_prefix := x\<rparr>"

datatype route_prop = ROUTE_PREFIX | ROUTE_GATEWAY | ROUTE_TARGET

definition route_specs :: "(route_prop \<times> 'ip param_spec) list" where [class_specs]:
  "route_specs =
     [(ROUTE_PREFIX, prop_spec ''prefix'' (V_uint 24) True),
      (ROUTE_GATEWAY, prop_spec ''gateway'' (V_object None) True),
      (ROUTE_TARGET, prop_spec ''target'' (V_object None) True)]"

fun route_get_property :: "route_prop \<Rightarrow> 'ip net_route \<Rightarrow> 'ip gvalue option" where
  "route_get_property ROUTE_PREFIX r = Some (V_uint (nr_prefix r))"
| "route_get_property ROUTE_GATEWAY r = Some (V_object (nr_gateway r))"
| "route_get_property ROUTE_TARGET r = Some (V_object (nr_target r))"

fun route_set_property :: "route_prop \<Rightarrow> 'ip gvalue \<Rightarrow> 'ip net_route \<Rightarrow> 'ip net_route option" where
  "route_set_property ROUTE_PREFIX (V_uint x) r = Some (r\<lparr>nr_prefix := x\<rparr>)"
| "route_set_property ROUTE_GATEWAY (V_object x) r = Some (r\<lparr>nr_gateway := x\<rparr>)"
| "route_set_property ROUTE_TARGET (V_object x) r = Some (r\<lparr>nr_target := x\<rparr>)"
| "route_set_property _ _ r = None"

lemma route_get_put:
  "route_set_property p v x = Some d \<Longrightarrow> route_get_property q d = (if q = p then Some v else route_get_property q x)"
  by (cases p; cases v; cases q) auto

interpretation route_class: property_class route_specs route_get_property route_set_property "\<lambda>_. True"
  by (unfold_locales; (erule route_get_put | auto simp: class_specs gtype_of_eq))

definition route_set_prefix :: "u32 \<Rightarrow> 'ip net_route \<Rightarrow> 'ip net_route" where
  "route_set_prefix x r = r\<lparr>nr_prefix := x\<rparr>"

definition route_set_gateway :: "'ip \<Rightarrow> 'ip net_route \<Rightarrow> 'ip net_route" where
  "route_set_gateway x r = r\<lparr>nr_gateway := Some x\<rparr>"

definition route_set_target :: "'ip \<Rightarrow> 'ip net_route \<Rightarrow> 'ip net_route" where
  "route_set_target x r = r\<lparr>nr_target := Some x\<rparr>"

section \<open>Filters\<close>

datatype filterref_prop = FILTERREF_NAME

definition filterref_specs :: "(filterref_prop \<times> 'o param_spec) list" where [class_specs]:
  "filterref_specs = [(FILTERREF_NAME, prop_spec ''name'' (V_string None) False)]"

fun filterref_get_property :: "filterref_prop \<Rightarrow> filterref \<Rightarrow> 'o gvalue option" where
  "filterref_get_property FILTERREF_NAME f = Some (V_string (fr_name f))"

fun filterref_set_property :: "filterref_prop \<Rightarrow> 'o gvalue \<Rightarrow> filterref \<Rightarrow> filterref option" where
  "filterref_set_property FILTERREF_NAME (V_string x) f = Some (filterref_set_name x f)"
| "filterref_set_property FILTERREF_NAME _ f = None"

lemma filterref_get_put:
  "filterref_set_property p v x = Some d \<Longrightarrow> filterref_get_property q d = (if q = p then Some v else filterref_get_property q x)"
  by (cases p; cases v; cases q) (auto simp: filterref_set_name_def)

interpretation filterref_class:
  property_class filterref_specs filterref_get_property filterref_set_property "\<lambda>_. True"
  by (unfold_locales; (erule filterref_get_put | auto simp: class_specs gtype_of_eq))

text \<open>
  A parameter: its \<open>set_property\<close> goes through \<open>set_value\<close> with its misdirected notification, so that the
  class does not obey the laws. NULL is not modelled as a value.
\<close>

datatype parameter_prop = PARAMETER_NAME | PARAMETER_VALUE

definition parameter_specs :: "(parameter_prop \<times> 'o param_spec) list" where [class_specs]:
  "parameter_specs =
     [(PARAMETER_NAME, prop_spec ''name'' (V_string None) False),
      (PARAMETER_VALUE, prop_spec ''value'' (V_string None) False)]"

fun parameter_get_property :: "parameter_prop \<Rightarrow> filter_parameter \<Rightarrow> 'o gvalue option" where
  "parameter_get_property PARAMETER_NAME q = Some (V_string (fp_name q))"
| "parameter_get_property PARAMETER_VALUE q = Some (V_string (fp_value q))"

fun parameter_set_property ::
  "('f, 'd, 'ip) glib \<Rightarrow> parameter_prop \<Rightarrow> 'o gvalue \<Rightarrow> filter_parameter \<Rightarrow> filter_parameter option" where
  "parameter_set_property G PARAMETER_NAME (V_string x) q = Some (parameter_set_name x q)"
| "parameter_set_property G PARAMETER_VALUE (V_string (Some x)) q = parameter_set_value G x q"
| "parameter_set_property G _ _ q = None"

section \<open>Disks\<close>

datatype disk_prop = DISK_TAG | DISK_SOURCE | DISK_TYPE | DISK_FORMAT

definition disk_specs :: "('f, 'd, 'ip) glib \<Rightarrow> (disk_prop \<times> 'o param_spec) list" where [class_specs]:
  "disk_specs G =
     [(DISK_TAG, prop_spec ''tag'' (V_string None) True),
      (DISK_SOURCE, prop_spec ''source'' (V_string None) True),
      (DISK_TYPE, prop_spec ''type'' (V_enum (dtype_file G)) True),
      (DISK_FORMAT, prop_spec ''format'' (V_enum (fmt_raw G)) True)]"

fun disk_get_property :: "disk_prop \<Rightarrow> disk \<Rightarrow> 'o gvalue option" where
  "disk_get_property DISK_TAG d = Some (V_string (Some (dk_tag d)))"
| "disk_get_property DISK_SOURCE d = Some (V_string (Some (dk_source d)))"
| "disk_get_property DISK_TYPE d = Some (V_enum (dk_type d))"
| "disk_get_property DISK_FORMAT d = Some (V_enum (dk_format d))"

fun disk_set_property :: "disk_prop \<Rightarrow> 'o gvalue \<Rightarrow> disk \<Rightarrow> disk option" where
  "disk_set_property DISK_TAG (V_string x) d = map_option (\<lambda>t. d\<lparr>dk_tag := t\<rparr>) x"
| "disk_set_property DISK_SOURCE (V_string x) d = map_option (\<lambda>s. d\<lparr>dk_source := s\<rparr>) x"
| "disk_set_property DISK_TYPE (V_enum x) d = Some (d\<lparr>dk_type := x\<rparr>)"
| "disk_set_property DISK_FORMAT (V_enum x) d = Some (d\<lparr>dk_format := x\<rparr>)"
| "disk_set_property _ _ d = None"

lemma disk_get_put:
  "disk_set_property p v x = Some d \<Longrightarrow> disk_get_property q d = (if q = p then Some v else disk_get_property q x)"
  by (cases p; cases v; cases q) auto

interpretation disk_class: property_class "disk_specs G" disk_get_property disk_set_property "\<lambda>_. True" for G
  by (unfold_locales; (erule disk_get_put | auto simp: class_specs gtype_of_eq))

section \<open>Mounts\<close>

text \<open>
  A property belongs to the class that installs it: the target to the abstract mount, the source to
  the mounts with a file, the format to images and the usage to RAM disks. An object has those of all
  its ancestors.
\<close>

datatype mount_prop = MOUNT_TARGET | MOUNT_SOURCE | MOUNT_FORMAT | MOUNT_USAGE

definition mount_base_specs :: "(mount_prop \<times> 'o param_spec) list" where [class_specs]:
  "mount_base_specs = [(MOUNT_TARGET, prop_spec ''target'' (V_string None) True)]"

definition mount_file_specs :: "(mount_prop \<times> 'o param_spec) list" where [class_specs]:
  "mount_file_specs = mount_base_specs @ [(MOUNT_SOURCE, prop_spec ''source'' (V_string None) False)]"

definition mount_image_specs :: "('f, 'd, 'ip) glib \<Rightarrow> (mount_prop \<times> 'o param_spec) list" where [class_specs]:
  "mount_image_specs G = mount_file_specs @ [(MOUNT_FORMAT, prop_spec ''format'' (V_enum (fmt_raw G)) True)]"

definition mount_ram_specs :: "(mount_prop \<times> 'o param_spec) list" where [class_specs]:
  "mount_ram_specs = mount_base_specs @ [(MOUNT_USAGE, prop_spec ''usage'' (V_uint64 (1024 * 10)) True)]"

definition mount_specs :: "('f, 'd, 'ip) glib \<Rightarrow> mount_type \<Rightarrow> (mount_prop \<times> 'o param_spec) list" where
  "mount_specs G t = (case t of T_host_bind \<Rightarrow> mount_file_specs | T_guest_bind \<Rightarrow> mount_file_specs
     | T_host_image \<Rightarrow> mount_image_specs G | T_ram \<Rightarrow> mount_ram_specs)"

definition mount_base_get :: "mount \<Rightarrow> 'o gvalue option" where
  "mount_base_get m = Some (V_string (Some (mt_target m)))"

definition mount_file_get :: "mount \<Rightarrow> 'o gvalue option" where
  "mount_file_get m = (case mt_kind m of Host_bind s \<Rightarrow> Some (V_string (Some s))
     | Host_image s _ \<Rightarrow> Some (V_string (Some s)) | Guest_bind s \<Rightarrow> Some (V_string (Some s)) | Ram _ \<Rightarrow> None)"

definition mount_image_get :: "mount \<Rightarrow> 'o gvalue option" where
  "mount_image_get m = (case mt_kind m of Host_image _ f \<Rightarrow> Some (V_enum f) | _ \<Rightarrow> None)"

definition mount_ram_get :: "mount \<Rightarrow> 'o gvalue option" where
  "mount_ram_get m = (case mt_kind m of Ram u \<Rightarrow> Some (V_uint64 u) | _ \<Rightarrow> None)"

fun mount_get_property :: "mount_prop \<Rightarrow> mount \<Rightarrow> 'o gvalue option" where
  "mount_get_property MOUNT_TARGET m = mount_base_get m"
| "mount_get_property MOUNT_SOURCE m = mount_file_get m"
| "mount_get_property MOUNT_FORMAT m = mount_image_get m"
| "mount_get_property MOUNT_USAGE m = mount_ram_get m"

definition mount_base_set :: "'o gvalue \<Rightarrow> mount \<Rightarrow> mount option" where
  "mount_base_set v m = (case v of V_string (Some t) \<Rightarrow> Some (m\<lparr>mt_target := t\<rparr>) | _ \<Rightarrow> None)"

definition mount_file_set :: "'o gvalue \<Rightarrow> mount \<Rightarrow> mount option" where
  "mount_file_set v m = (case v of V_string (Some s) \<Rightarrow>
       (case mt_kind m of Host_bind _ \<Rightarrow> Some (m\<lparr>mt_kind := Host_bind s\<rparr>)
        | Host_image _ f \<Rightarrow> Some (m\<lparr>mt_kind := Host_image s f\<rparr>)
        | Guest_bind _ \<Rightarrow> Some (m\<lparr>mt_kind := Guest_bind s\<rparr>) | Ram _ \<Rightarrow> None)
     | _ \<Rightarrow> None)"

definition mount_image_set :: "'o gvalue \<Rightarrow> mount \<Rightarrow> mount option" where
  "mount_image_set v m = (case v of V_enum f \<Rightarrow>
       (case mt_kind m of Host_image s _ \<Rightarrow> Some (m\<lparr>mt_kind := Host_image s f\<rparr>) | _ \<Rightarrow> None)
     | _ \<Rightarrow> None)"

definition mount_ram_set :: "'o gvalue \<Rightarrow> mount \<Rightarrow> mount option" where
  "mount_ram_set v m = (case v of V_uint64 u \<Rightarrow>
       (case mt_kind m of Ram _ \<Rightarrow> Some (m\<lparr>mt_kind := Ram u\<rparr>) | _ \<Rightarrow> None)
     | _ \<Rightarrow> None)"

fun mount_set_property :: "mount_prop \<Rightarrow> 'o gvalue \<Rightarrow> mount \<Rightarrow> mount option" where
  "mount_set_property MOUNT_TARGET v m = mount_base_set v m"
| "mount_set_property MOUNT_SOURCE v m = mount_file_set v m"
| "mount_set_property MOUNT_FORMAT v m = mount_image_set v m"
| "mount_set_property MOUNT_USAGE v m = mount_ram_set v m"

lemmas mount_accessors = mount_base_get_def mount_file_get_def mount_image_get_def mount_ram_get_def
  mount_base_set_def mount_file_set_def mount_image_set_def mount_ram_set_def

lemma mount_get_put:
  "mount_set_property p v x = Some d \<Longrightarrow> mount_get_property q d = (if q = p then Some v else mount_get_property q x)"
  by (cases p; cases q) (auto simp: mount_accessors split: gvalue.splits option.splits mount_kind.splits)

lemma mount_set_type: "mount_set_property p v x = Some d \<Longrightarrow> mount_type_of d = mount_type_of x"
  by (cases p) (auto simp: mount_accessors mount_type_of_def split: gvalue.splits option.splits mount_kind.splits)

interpretation mount_class:
  property_class "mount_specs G t" mount_get_property mount_set_property "\<lambda>m. mount_type_of m = t" for G t
  by (unfold_locales; (erule mount_get_put | (drule mount_set_type, simp) |
      (cases t; auto simp: mount_specs_def class_specs gtype_of_eq mount_accessors mount_type_of_def split: mount_kind.splits option.splits)))

definition ram_set_usage :: "64 word \<Rightarrow> mount \<Rightarrow> mount" where
  "ram_set_usage u m = (case mt_kind m of Ram _ \<Rightarrow> m\<lparr>mt_kind := Ram u\<rparr> | _ \<Rightarrow> m)"

definition mount_set_source :: "string \<Rightarrow> mount \<Rightarrow> mount" where
  "mount_set_source s m = (case mt_kind m of Host_bind _ \<Rightarrow> m\<lparr>mt_kind := Host_bind s\<rparr>
     | Host_image _ f \<Rightarrow> m\<lparr>mt_kind := Host_image s f\<rparr> | Guest_bind _ \<Rightarrow> m\<lparr>mt_kind := Guest_bind s\<rparr> | Ram _ \<Rightarrow> m)"

section \<open>The initrd\<close>

datatype initrd_prop = INITRD_KVER | INITRD_KMODDIR | INITRD_INIT

definition initrd_specs :: "(initrd_prop \<times> 'o param_spec) list" where [class_specs]:
  "initrd_specs =
     [(INITRD_KVER, prop_spec ''kver'' (V_string None) False),
      (INITRD_KMODDIR, prop_spec ''kmoddir'' (V_string None) False),
      (INITRD_INIT, prop_spec ''init'' (V_string None) False)]"

fun initrd_get_property :: "initrd_prop \<Rightarrow> initrd \<Rightarrow> 'o gvalue option" where
  "initrd_get_property INITRD_KVER ir = Some (V_string (Some (ir_kver ir)))"
| "initrd_get_property INITRD_KMODDIR ir = Some (V_string (Some (ir_kmoddir ir)))"
| "initrd_get_property INITRD_INIT ir = Some (V_string (Some (ir_init ir)))"

fun initrd_set_property :: "initrd_prop \<Rightarrow> 'o gvalue \<Rightarrow> initrd \<Rightarrow> initrd option" where
  "initrd_set_property INITRD_KVER (V_string x) ir = map_option (\<lambda>v. ir\<lparr>ir_kver := v\<rparr>) x"
| "initrd_set_property INITRD_KMODDIR (V_string x) ir = map_option (\<lambda>v. ir\<lparr>ir_kmoddir := v\<rparr>) x"
| "initrd_set_property INITRD_INIT (V_string x) ir = map_option (\<lambda>v. ir\<lparr>ir_init := v\<rparr>) x"
| "initrd_set_property _ _ ir = None"

lemma initrd_get_put:
  "initrd_set_property p v x = Some d \<Longrightarrow> initrd_get_property q d = (if q = p then Some v else initrd_get_property q x)"
  by (cases p; cases v; cases q) auto

interpretation initrd_class: property_class initrd_specs initrd_get_property initrd_set_property "\<lambda>_. True"
  by (unfold_locales; (erule initrd_get_put | auto simp: class_specs gtype_of_eq))

end
