(* ===== verification/Config_Object_Claims.thy ===== *)
theory Config_Object_Claims
  imports Config_Object Config_Parts
begin

text \<open>
  What the properties of the configuration objects give their users, that the functions \<open>_new\<close> are the
  construction of the classes, and that the setters are the properties by another name.
\<close>

section \<open>Reading and writing\<close>

lemma config_shell_spec: "(PROP_SHELL, s) \<in> set (config_specs E) \<Longrightarrow> ps_type s = G_STRING"
  by (simp add: class_specs)

lemma config_shell_refused: "gtype_of v = G_STRING \<Longrightarrow> config_set_property PROP_SHELL v c = None"
  by (cases v) simp_all

lemma interactive_tty_refused:
  "(p, s) \<in> set interactive_specs \<Longrightarrow> gtype_of v = ps_type s \<Longrightarrow> interactive_set_property p v c = None"
  by (cases v; cases p) (simp_all add: class_specs)

lemma config_prop_kept:
  fixes s :: "'o param_spec" and v :: "'o gvalue"
  assumes "(p, s) \<in> set (config_specs E)" "p \<noteq> PROP_SHELL"
  shows "\<exists>v :: 'o gvalue. config_get_property p c = Some v \<and> gtype_of v = ps_type s"
    and "gtype_of v = ps_type s \<Longrightarrow> v \<noteq> V_string None \<Longrightarrow> \<exists>d. config_set_property p v c = Some d"
  using config_class.get_type [where p = p and s = s and E = E and c = c]
    config_class.put_defined [where p = p and s = s and E = E and c = c and v = v] assms by auto

text \<open>
  C29. Every property of a configuration but \<open>shell\<close> stores a value of the type it is declared with, takes
  every value of that type (strings that are not NULL), and then reads it back with all other
  properties as they were. The declared type of \<open>shell\<close>, and of \<open>tty\<close> in the interactive class, is not
  the type of the value the methods handle: reading stores a boolean where a string is expected, and
  nothing that can be written is accepted.
\<close>

theorem config_properties:
  fixes s :: "'o param_spec" and v :: "'o gvalue"
  assumes "(p, s) \<in> set (config_specs E)" "gtype_of v = ps_type s" "v \<noteq> V_string None"
  shows "(\<exists>x :: 'o gvalue. config_get_property p c = Some x \<and> (gtype_of x = ps_type s \<longleftrightarrow> p \<noteq> PROP_SHELL)) \<and>
    (if p = PROP_SHELL then config_set_property p v c = None
     else \<exists>d. config_set_property p v c = Some d \<and>
       (\<forall>q. config_get_property q d = (if q = p then Some v else config_get_property q c))) \<and>
    (\<forall>(t, u :: 'o param_spec) \<in> set interactive_specs.
       \<forall>w :: 'o gvalue. gtype_of w = ps_type u \<longrightarrow> interactive_set_property t w c = None)"
proof (intro conjI)
  show "\<exists>x :: 'o gvalue. config_get_property p c = Some x \<and> (gtype_of x = ps_type s \<longleftrightarrow> p \<noteq> PROP_SHELL)"
    using assms(1) config_prop_kept(1) [OF assms(1), of c] config_shell_spec [of s E] by (cases "p = PROP_SHELL") auto
  show "if p = PROP_SHELL then config_set_property p v c = None
     else \<exists>d. config_set_property p v c = Some d \<and>
       (\<forall>q. config_get_property q d = (if q = p then Some v else config_get_property q c))"
  proof (cases "p = PROP_SHELL")
    case True
    with assms show ?thesis using config_shell_spec [of s E] config_shell_refused [of v c] by simp
  next
    case False
    then obtain d where "config_set_property p v c = Some d"
      using config_prop_kept(2) [OF assms(1) _ assms(2,3)] by blast
    with False show ?thesis using config_set_get [of p v c d] by simp
  qed
  show "\<forall>(t, u :: 'o param_spec) \<in> set interactive_specs.
       \<forall>w :: 'o gvalue. gtype_of w = ps_type u \<longrightarrow> interactive_set_property t w c = None"
    using interactive_tty_refused by blast
qed

section \<open>Construction\<close>

lemmas construction_simps = object_new_def class_specs given_or_default_def assign_def

lemma config_new_constructs:
  "object_new (config_specs E) config_set_property (config_init E cls) [PROP_NAME \<mapsto> V_string name] =
     config_new E cls name"
  by (simp add: construction_simps config_new_def)

lemma network_new_constructs: "object_new network_specs network_set_property network_new Map.empty = network_new"
  by (simp add: construction_simps)

text \<open>A prefix beyond 128 is refused before the class sees it.\<close>

context inet
begin

lemma address_new_constructs:
  "len \<le> 128 \<Longrightarrow> object_new address_specs address_set_property a
     [ADDRESS_PRIMARY \<mapsto> V_object primary, ADDRESS_PREFIX \<mapsto> V_uint len, ADDRESS_BROADCAST \<mapsto> V_object bcast] =
     network_address_new G primary len bcast"
  by (cases a) (simp add: construction_simps network_address_new_def prefix_prop_ok)

lemma route_new_constructs:
  "len \<le> 128 \<Longrightarrow> object_new route_specs route_set_property r
     [ROUTE_TARGET \<mapsto> V_object target, ROUTE_PREFIX \<mapsto> V_uint len, ROUTE_GATEWAY \<mapsto> V_object gateway] =
     network_route_new G target len gateway"
  by (cases r) (simp add: construction_simps network_route_new_def prefix_prop_ok)

end

lemma disk_constructs:
  "object_new (disk_specs G) disk_set_property d
     [DISK_TYPE \<mapsto> V_enum t, DISK_TAG \<mapsto> V_string (Some tag), DISK_SOURCE \<mapsto> V_string (Some src),
      DISK_FORMAT \<mapsto> V_enum f] = \<lparr>dk_type = t, dk_tag = tag, dk_source = src, dk_format = f\<rparr>"
  by (cases d) (simp add: construction_simps)

lemma mounts_construct:
  "object_new (mount_specs G T_host_bind) mount_set_property (mount_new [] (Host_bind []))
     [MOUNT_SOURCE \<mapsto> V_string (Some src), MOUNT_TARGET \<mapsto> V_string (Some dst)] = mount_new dst (Host_bind src)"
  "object_new (mount_specs G T_guest_bind) mount_set_property (mount_new [] (Guest_bind []))
     [MOUNT_SOURCE \<mapsto> V_string (Some src), MOUNT_TARGET \<mapsto> V_string (Some dst)] = mount_new dst (Guest_bind src)"
  "object_new (mount_specs G T_host_image) mount_set_property (mount_new [] (Host_image [] (fmt_raw G)))
     [MOUNT_SOURCE \<mapsto> V_string (Some src), MOUNT_TARGET \<mapsto> V_string (Some dst), MOUNT_FORMAT \<mapsto> V_enum f] =
     mount_new dst (Host_image src f)"
  "object_new (mount_specs G T_ram) mount_set_property (mount_new [] (Ram (1024 * 10)))
     [MOUNT_TARGET \<mapsto> V_string (Some dst), MOUNT_USAGE \<mapsto> V_uint64 u] = mount_new dst (Ram u)"
  by (simp_all add: construction_simps mount_specs_def mount_accessors mount_new_def)

section \<open>Setters\<close>

lemma config_setters_agree:
  "config_set_property PROP_UUID (V_string x) c = Some (set_uuid x c)"
  "config_set_property PROP_ROOT (V_string (Some r)) c = Some (set_root r c)"
  "config_set_property PROP_ARCH (V_string (Some r)) c = Some (set_arch r c)"
  "config_set_property PROP_KERNRELEASE (V_string x) c = Some (set_kernrelease x c)"
  "config_set_property PROP_KERNPATH (V_string x) c = Some (set_kernpath x c)"
  "config_set_property PROP_KMODPATH (V_string x) c = Some (set_kmodpath x c)"
  "config_set_property PROP_UID (V_uint n) c = Some (set_userid n c)"
  "config_set_property PROP_GID (V_uint n) c = Some (set_groupid n c)"
  "config_set_property PROP_USERNAME (V_string (Some r)) c = Some (set_username r c)"
  "config_set_property PROP_HOMEDIR (V_string (Some r)) c = Some (set_homedir r c)"
  "config_set_property PROP_SECURITY_LABEL (V_string x) c = Some (set_security_label x c)"
  "config_set_property PROP_SECURITY_DYNAMIC (V_boolean b) c = Some (set_security_dynamic b c)"
  by (simp_all add: config_setters)

lemma part_setters_agree:
  "network_set_property NETWORK_DHCP (V_boolean b) n = Some (network_set_dhcp b n)"
  "network_set_property NETWORK_SOURCE (V_string x) n = Some (network_set_source x n)"
  "network_set_property NETWORK_MAC (V_string x) n = Some (network_set_mac x n)"
  "address_set_property ADDRESS_PRIMARY (V_object (Some i)) a = Some (address_set_primary i a)"
  "address_set_property ADDRESS_BROADCAST (V_object (Some i)) a = Some (address_set_broadcast i a)"
  "address_set_property ADDRESS_PREFIX (V_uint l) a = Some (address_set_prefix l a)"
  "route_set_property ROUTE_TARGET (V_object (Some i)) r = Some (route_set_target i r)"
  "route_set_property ROUTE_GATEWAY (V_object (Some i)) r = Some (route_set_gateway i r)"
  "route_set_property ROUTE_PREFIX (V_uint l) r = Some (route_set_prefix l r)"
  "initrd_set_property INITRD_KVER (V_string (Some s)) ir = Some (initrd_set_kver s ir)"
  "initrd_set_property INITRD_KMODDIR (V_string (Some s)) ir = Some (initrd_set_kmoddir s ir)"
  "initrd_set_property INITRD_INIT (V_string (Some s)) ir = Some (initrd_set_init s ir)"
  by (simp_all add: network_setters address_set_primary_def address_set_broadcast_def address_set_prefix_def
      route_set_target_def route_set_gateway_def route_set_prefix_def initrd_set_kver_def initrd_set_kmoddir_def
      initrd_set_init_def)

section \<open>A configuration\<close>

definition demo_host_env :: host_env where
  "demo_host_env = \<lparr>he_machine = ''x86_64'', he_euid = 7, he_egid = 8, he_user = ''ann'', he_home = ''/home/ann''\<rparr>"

theorem config_properties_witness:
  "(PROP_ROOT, prop_spec ''root'' (V_string None :: nat gvalue) False) \<in> set (config_specs demo_host_env) \<and>
   (\<exists>d. config_set_property PROP_ROOT (V_string (Some ''/x'') :: nat gvalue)
          (config_new demo_host_env interactive_init (Some ''s'') :: nat config) = Some d \<and>
      cf_root d = ''/x'' \<and> cf_name d = Some ''s'')"
proof -
  let ?c = "config_new demo_host_env interactive_init (Some ''s'') :: nat config"
  have s: "(PROP_ROOT, prop_spec ''root'' (V_string None :: nat gvalue) False) \<in> set (config_specs demo_host_env)"
    by (simp add: class_specs)
  obtain d where d: "config_set_property PROP_ROOT (V_string (Some ''/x'') :: nat gvalue) ?c = Some d"
    "\<forall>q. config_get_property q d =
      (if q = PROP_ROOT then Some (V_string (Some ''/x'') :: nat gvalue) else config_get_property q ?c)"
    using config_properties [OF s, of "V_string (Some ''/x'') :: nat gvalue" ?c] by (auto simp: prop_spec_def)
  from d(2) have "config_get_property PROP_ROOT d = Some (V_string (Some ''/x'') :: nat gvalue)"
    "config_get_property PROP_NAME d = (config_get_property PROP_NAME ?c :: nat gvalue option)" by simp_all
  with s d(1) show ?thesis by (simp add: config_new_def)
qed

end
