(* ===== verification/Context_Object.thy ===== *)
theory Context_Object
  imports Gobject
begin

text \<open>
  The private data of the contexts (libvirt-sandbox-context.c) and of the builders
  (libvirt-sandbox-builder.c) as GObject classes. Connections, domains and configurations are named
  by \<open>'o\<close>; \<open>None\<close> is NULL. The record \<open>ctx\<close> of the theory Context is the one field of a context that
  its operations change.
\<close>

section \<open>Contexts\<close>

record 'o context_obj =
  co_connection :: "'o option"
  co_domain :: "'o option"
  co_config :: "'o option"

datatype context_prop = CONTEXT_CONFIG | CONTEXT_DOMAIN | CONTEXT_CONNECTION

text \<open>The domain is not construct-only: whoever has the context can replace it.\<close>

definition context_specs :: "(context_prop \<times> 'o param_spec) list" where [class_specs]:
  "context_specs =
     [(CONTEXT_CONFIG, prop_spec ''config'' (V_object None) True),
      (CONTEXT_DOMAIN, prop_spec ''domain'' (V_object None) False),
      (CONTEXT_CONNECTION, prop_spec ''connection'' (V_object None) True)]"

fun context_get_property :: "context_prop \<Rightarrow> 'o context_obj \<Rightarrow> 'o gvalue option" where
  "context_get_property CONTEXT_CONFIG x = Some (V_object (co_config x))"
| "context_get_property CONTEXT_DOMAIN x = Some (V_object (co_domain x))"
| "context_get_property CONTEXT_CONNECTION x = Some (V_object (co_connection x))"

fun context_set_property :: "context_prop \<Rightarrow> 'o gvalue \<Rightarrow> 'o context_obj \<Rightarrow> 'o context_obj option" where
  "context_set_property CONTEXT_CONFIG (V_object v) x = Some (x\<lparr>co_config := v\<rparr>)"
| "context_set_property CONTEXT_DOMAIN (V_object v) x = Some (x\<lparr>co_domain := v\<rparr>)"
| "context_set_property CONTEXT_CONNECTION (V_object v) x = Some (x\<lparr>co_connection := v\<rparr>)"
| "context_set_property _ _ x = None"

lemma context_get_put:
  "context_set_property p v x = Some d \<Longrightarrow> context_get_property q d = (if q = p then Some v else context_get_property q x)"
  by (cases p; cases v; cases q) auto

interpretation context_class: property_class context_specs context_get_property context_set_property "\<lambda>_. True"
  by (unfold_locales; (erule context_get_put | auto simp: class_specs gtype_of_eq))

definition context_new :: "'o option \<Rightarrow> 'o option \<Rightarrow> 'o context_obj" where
  "context_new conn config = object_new context_specs context_set_property
     \<lparr>co_connection = None, co_domain = None, co_config = None\<rparr>
     [CONTEXT_CONNECTION \<mapsto> V_object conn, CONTEXT_CONFIG \<mapsto> V_object config]"

text \<open>\<open>get_domain\<close> fails while no domain is running.\<close>

definition context_get_domain :: "'o context_obj \<Rightarrow> 'o option" where
  "context_get_domain x = co_domain x"

definition context_get_connection :: "'o context_obj \<Rightarrow> 'o option" where
  "context_get_connection x = co_connection x"

definition context_get_config :: "'o context_obj \<Rightarrow> 'o option" where
  "context_get_config x = co_config x"

lemma context_new_domain: "context_get_domain (context_new conn config) = None"
  by (simp add: context_new_def context_get_domain_def object_new_def class_specs given_or_default_def assign_def)

section \<open>Builders\<close>

record 'o builder_obj =
  bo_connection :: "'o option"

datatype builder_prop = BUILDER_CONNECTION

definition builder_specs :: "(builder_prop \<times> 'o param_spec) list" where [class_specs]:
  "builder_specs = [(BUILDER_CONNECTION, prop_spec ''connection'' (V_object None) True)]"

fun builder_get_property :: "builder_prop \<Rightarrow> 'o builder_obj \<Rightarrow> 'o gvalue option" where
  "builder_get_property BUILDER_CONNECTION b = Some (V_object (bo_connection b))"

fun builder_set_property :: "builder_prop \<Rightarrow> 'o gvalue \<Rightarrow> 'o builder_obj \<Rightarrow> 'o builder_obj option" where
  "builder_set_property BUILDER_CONNECTION (V_object v) b = Some (b\<lparr>bo_connection := v\<rparr>)"
| "builder_set_property BUILDER_CONNECTION _ b = None"

lemma builder_get_put:
  "builder_set_property p v x = Some d \<Longrightarrow> builder_get_property q d = (if q = p then Some v else builder_get_property q x)"
  by (cases p; cases v; cases q) auto

interpretation builder_class: property_class builder_specs builder_get_property builder_set_property "\<lambda>_. True"
  by (unfold_locales; (erule builder_get_put | auto simp: class_specs gtype_of_eq))

end
