(* ===== verification/Guest_Init.thy ===== *)
theory Guest_Init
  imports Sys Config_File Guest_Loop
begin

text \<open>
  libvirt-sandbox-init-common.c outside its packet loop: the program that prepares the running
  guest (shell, disk tags, environment, network), runs the command or service as the configured
  user, and syncs, unmounts and powers off at the end. Messages and the close of read files are
  left out; a fork is a call, and what the child does is a program of its own.
\<close>

section \<open>Disk tags\<close>

definition parse_disk_line :: "string \<Rightarrow> (string \<times> string) option" where
  "parse_disk_line line =
     (case strchr_split tab line of None \<Rightarrow> None
      | Some (tag, r) \<Rightarrow> (case strchr_split nl r of None \<Rightarrow> None | Some (device, _) \<Rightarrow> Some (tag, device)))"

definition tag_line :: "os \<Rightarrow> string \<Rightarrow> bool prog" where
  "tag_line W l =
     (case parse_disk_line l of
        None \<Rightarrow> halt Undefined
      | Some (tag, device) \<Rightarrow> ok W (Symlink device (''/dev/disk/by-tag/'' @ tag)))"

definition setup_disk_tags :: "os \<Rightarrow> string \<Rightarrow> bool prog" where
  "setup_disk_tags W confdir =
     (\<lambda>tr. (case os_file W tr (confdir @ ''/disks.cfg'') of
        None \<Rightarrow> ret False
      | Some contents \<Rightarrow>
          andthen (ok W (Mkdirs ''/dev/disk/by-tag'' 493)) (\<lambda>made.
            if made then while_ok (tag_line W) (fgets_lines 1023 contents) else ret False)) tr)"

section \<open>The shell\<close>

definition start_shell :: "os \<Rightarrow> bool prog" where
  "start_shell W = andthen (sys W (Access ''/dev/ttyS1'')) (\<lambda>_. ok W Fork)"

text \<open>\<open>access\<close> decides which terminal the child opens.\<close>

definition shell_child :: "os \<Rightarrow> bool \<Rightarrow> unit prog" where
  "shell_child W serial =
     (let devname = (if serial then ''/dev/ttyS1'' else ''/dev/tty2'') in
      seq (quietly W Setsid)
        (andthen (ok W (Open_dev devname)) (\<lambda>opened.
           if \<not> opened then halt (Exited 1)
           else andthen (ok W (Execv [''/bin/sh''])) (\<lambda>run.
             if run then halt (Became [''/bin/sh'']) else halt (Exited 1)))))"

section \<open>The network\<close>

definition start_dhcp :: "os \<Rightarrow> bool \<Rightarrow> string \<Rightarrow> bool prog" where
  "start_dhcp W debug devname =
     andthen (sys W Block_sighup) (\<lambda>_.
     andthen (ok W (Spawn ([''/sbin/dhclient''] @ (if debug then [''-v''] else []) @ [''--no-pid'', devname]))) (\<lambda>spawned.
     andthen (sys W Restore_sigmask) (\<lambda>_. ret spawned)))"

text \<open>A missing address prints as \<open>(null)\<close>; as an argument it ends the vector.\<close>

definition inet_text :: "('f, 'd, 'ip) glib \<Rightarrow> 'ip option \<Rightarrow> string" where
  "inet_text G a = (case a of None \<Rightarrow> ''(null)'' | Some a \<Rightarrow> inet_print G a)"

definition slash_prefix :: "string \<Rightarrow> u32 \<Rightarrow> string" where
  "slash_prefix s n = s @ ''/'' @ dec (unat n)"

definition add_address :: "('f, 'd, 'ip) glib \<Rightarrow> os \<Rightarrow> string \<Rightarrow> 'ip net_address \<Rightarrow> bool prog" where
  "add_address G W devname a =
     andthen (ok W (Spawn ([''/sbin/ip'', ''addr'', ''add'', slash_prefix (inet_text G (na_primary a)) (na_prefix a)] @
         (case na_broadcast a of None \<Rightarrow> [] | Some b \<Rightarrow> [''broadcast'', inet_print G b]) @ [''dev'', devname])))
       (\<lambda>added. if \<not> added then ret False
          else ok W (Spawn [''/sbin/ip'', ''link'', ''set'', devname, ''up'']))"

definition add_route :: "('f, 'd, 'ip) glib \<Rightarrow> os \<Rightarrow> string \<Rightarrow> 'ip net_route \<Rightarrow> bool prog" where
  "add_route G W devname r =
     ok W (Spawn ([''/sbin/ip'', ''route'', ''add'', slash_prefix (inet_text G (nr_target r)) (nr_prefix r), ''via''] @
       (case nr_gateway r of None \<Rightarrow> [] | Some g \<Rightarrow> [inet_print G g, ''dev'', devname])))"

definition setup_network_device ::
  "('f, 'd, 'ip) glib \<Rightarrow> os \<Rightarrow> bool \<Rightarrow> 'ip network \<Rightarrow> string \<Rightarrow> bool prog" where
  "setup_network_device G W debug net devname =
     (if nw_dhcp net then start_dhcp W debug devname
      else andthen (while_ok (add_address G W devname) (nw_addrs net)) (\<lambda>added.
        if \<not> added then ret False else while_ok (add_route G W devname) (nw_routes net)))"

definition setup_network :: "('f, 'd, 'ip) glib \<Rightarrow> os \<Rightarrow> bool \<Rightarrow> 'ip config \<Rightarrow> bool prog" where
  "setup_network G W debug c =
     while_ok (\<lambda>(i, net). setup_network_device G W debug net (''eth'' @ dec i))
       (zip [0..<length (cf_networks c)] (cf_networks c))"

definition setup_custom_env :: "('f, 'd, 'ip) glib \<Rightarrow> os \<Rightarrow> 'ip config \<Rightarrow> bool prog" where
  "setup_custom_env G W c = while_ok (\<lambda>(key, v). ok W (Setenv key v)) (hash_order G (cf_envs c))"

section \<open>Changing the user\<close>

text \<open>\<open>capng\<close> says whether the program was built with libcap-ng. The results of \<open>setenv\<close> are not looked at.\<close>

definition set_ids :: "os \<Rightarrow> bool \<Rightarrow> u32 \<Rightarrow> u32 \<Rightarrow> bool prog" where
  "set_ids W capng uid gid =
     (if capng then ok W (Change_id uid gid) else while_ok (ok W) [Setgroups, Setregid gid, Setreuid uid])"

definition change_user :: "os \<Rightarrow> bool \<Rightarrow> string \<Rightarrow> u32 \<Rightarrow> u32 \<Rightarrow> string \<Rightarrow> bool prog" where
  "change_user W capng user uid gid home =
     (if user = ''root'' then ret True
      else
        seq (each (quietly W)
               [Setenv ''HOME'' home, Setenv ''USER'' user, Setenv ''USERNAME'' user, Setenv ''LOGNAME'' user])
          (andthen (set_ids W capng uid gid) (\<lambda>changed.
             if \<not> changed then ret False
             else andthen (ok W (Chdir home)) (\<lambda>there.
               if there then ret True else ok W (Chdir ''/'')))))"

text \<open>
  The child of \<open>run_command\<close>: \<open>pty\<close> are master and slave, \<open>pin\<close>, \<open>pout\<close> and \<open>perr\<close> the read and write
  ends of the pipes. \<open>dup2\<close> answering another descriptor than the wanted one counts as failed.
\<close>

definition must :: "os \<Rightarrow> call \<Rightarrow> unit prog" where
  "must W c = andthen (ok W c) (\<lambda>did. if did then ret () else halt Aborted)"

definition exec_command :: "os \<Rightarrow> string list \<Rightarrow> unit prog \<Rightarrow> unit prog" where
  "exec_command W argv failed = andthen (ok W (Execv argv)) (\<lambda>run. if run then halt (Became argv) else failed)"

definition child_closes :: "bool \<Rightarrow> int \<times> int \<Rightarrow> int \<times> int \<Rightarrow> int \<times> int \<Rightarrow> int \<times> int \<Rightarrow> call list" where
  "child_closes wanttty pty pin pout perr =
     map Close_fd ((if wanttty then [fst pty] else [snd pin, fst pout, fst perr]) @ [0, 1, 2])"

definition child_dups :: "bool \<Rightarrow> int \<times> int \<Rightarrow> int \<times> int \<Rightarrow> int \<times> int \<Rightarrow> int \<times> int \<Rightarrow> call list" where
  "child_dups wanttty pty pin pout perr =
     (if wanttty then [Dup2 (snd pty) 0, Dup2 (snd pty) 1, Dup2 (snd pty) 2, Setsid]
      else [Dup2 (fst pin) 0, Dup2 (snd pout) 1, Dup2 (snd perr) 2])"

definition run_command_child ::
  "os \<Rightarrow> bool \<Rightarrow> 'ip config \<Rightarrow> bool \<Rightarrow> int \<times> int \<Rightarrow> int \<times> int \<Rightarrow> int \<times> int \<Rightarrow> int \<times> int \<Rightarrow> unit prog" where
  "run_command_child W capng c wanttty pty pin pout perr =
     andthen (change_user W capng (cf_username c) (cf_uid c) (cf_gid c) (cf_homedir c)) (\<lambda>changed.
       if \<not> changed then halt (Exited 1)
       else seq (each (quietly W) (child_closes wanttty pty pin pout perr))
         (seq (each (must W) (child_dups wanttty pty pin pout perr))
           (exec_command W (get_command c) (halt (Exited 1)))))"

definition run_service :: "os \<Rightarrow> bool \<Rightarrow> 'ip config \<Rightarrow> bool prog" where
  "run_service W capng c =
     andthen (change_user W capng (cf_username c) (cf_uid c) (cf_gid c) (cf_homedir c)) (\<lambda>changed.
       if \<not> changed then ret False
       else andthen (ok W (Execv (get_command c))) (\<lambda>run.
         if run then halt (Became (get_command c)) else ret False))"

section \<open>Interactive sandboxes\<close>

text \<open>
  \<open>result\<close> is what the packet loop returned; -1, its answer when \<open>poll\<close> failed, counts as true. A
  NULL descriptor -1 is not closed.
\<close>

definition host_device :: "os \<Rightarrow> 'ip config \<Rightarrow> string" where
  "host_device W c =
     (if os_environ W ''LIBVIRT_LXC_NAME'' \<noteq> None
      then (if cf_shell c then ''/dev/tty3'' else ''/dev/tty2'') else ''/dev/hvc0'')"

definition run_interactive :: "os \<Rightarrow> 'ip config \<Rightarrow> loop_result \<Rightarrow> bool prog" where
  "run_interactive W c result =
     andthen (ok W Pipe) (\<lambda>piped. if \<not> piped then ret False else
     andthen (ok W (Open_dev (host_device W c))) (\<lambda>opened. if \<not> opened then ret False else
     andthen (sys W (Raw_mode ''stdin'')) (\<lambda>_.
     andthen (sys W (Raw_mode (host_device W c))) (\<lambda>_.
       ret (result \<noteq> Loop_false)))))"

section \<open>Leaving no data behind\<close>

definition is_disk_name :: "string \<Rightarrow> bool" where
  "is_disk_name n = list_ex (\<lambda>p. strip_prefix p n \<noteq> None) [''sd'', ''hd'', ''ubd'', ''vd'', ''sr'']"

definition sync_device :: "os \<Rightarrow> string \<Rightarrow> unit prog" where
  "sync_device W n =
     (let path = ''/dev/'' @ n in
      andthen (ok W (Open_dev path)) (\<lambda>opened.
        if opened then quietly W (Fsync path) else ret ()))"

definition sync_data :: "os \<Rightarrow> unit prog" where
  "sync_data W =
     andthen (sys W Sync) (\<lambda>_ tr.
       (case os_listdir W tr ''/dev'' of
          (Done, names) \<Rightarrow> each (sync_device W) (filter is_disk_name names)
        | _ \<Rightarrow> ret ()) tr)"

text \<open>\<open>g_list_sort\<close> is stable, and \<open>compare_longest_first\<close> compares lengths.\<close>

definition compare_longest_first :: "string \<Rightarrow> string \<Rightarrow> int" where
  "compare_longest_first a b = int (length b) - int (length a)"

fun insert_longest :: "string \<Rightarrow> string list \<Rightarrow> string list" where
  "insert_longest d [] = [d]"
| "insert_longest d (e # es) = (if compare_longest_first d e \<le> 0 then d # e # es else e # insert_longest d es)"

definition longest_first :: "string list \<Rightarrow> string list" where
  "longest_first ds = foldr insert_longest ds []"

definition umount_fs :: "os \<Rightarrow> unit prog" where
  "umount_fs W =
     (\<lambda>tr. (case os_mounts W tr of
        None \<Rightarrow> ret ()
      | Some dirs \<Rightarrow> each (quietly W) (map Umount (longest_first dirs))) tr)"

section \<open>main\<close>

text \<open>
  \<open>args\<close> is what the option parser found, the configuration file and whether to power off, or nothing
  for a bad command line; \<open>load\<close> what reading the configuration gave. Both error paths release the
  error and then reach a second release at the end.
\<close>

definition leave :: "os \<Rightarrow> bool \<Rightarrow> nat \<Rightarrow> unit prog" where
  "leave W poweroff status =
     seq (sync_data W)
       (if \<not> poweroff then halt (Exited status)
        else seq (umount_fs W)
          (andthen (ok W Reboot) (\<lambda>off. if off then halt Powered_off else halt (Exited status))))"

definition init_common ::
  "('f, 'd, 'ip) glib \<Rightarrow> os \<Rightarrow> bool \<Rightarrow> string \<Rightarrow> (string option \<times> bool) option \<Rightarrow>
   (string \<Rightarrow> config_error + 'ip config) \<Rightarrow> loop_result \<Rightarrow> unit prog" where
  "init_common G W capng confdir args load result =
     (if os_euid W \<noteq> 0 then halt (Exited 1)
      else (case args of None \<Rightarrow> halt Undefined
      | Some (configfile, poweroff) \<Rightarrow>
     (case load (case configfile of Some f \<Rightarrow> f | None \<Rightarrow> confdir @ ''/sandbox.cfg'') of
        Inl _ \<Rightarrow> halt Undefined
      | Inr c \<Rightarrow>
          seq (each (quietly W)
                 [Setenv ''PATH'' ''/bin:/usr/bin:/usr/local/bin:/sbin/:/usr/sbin'', Unsetenv ''LD_LIBRARY_PATH''])
            (andthen (if cf_shell c then start_shell W else ret True) (\<lambda>shell.
               if \<not> shell then halt (Exited 1) else
             andthen (setup_disk_tags W confdir) (\<lambda>tagged.
               if \<not> tagged then halt (Exited 1) else
             andthen (setup_custom_env G W c) (\<lambda>env_set.
               if \<not> env_set then leave W poweroff 1 else
             andthen (setup_network G W (cf_debug c) c) (\<lambda>net_up.
               if \<not> net_up then leave W poweroff 1 else
             andthen (case cf_class c of Interactive _ _ \<Rightarrow> run_interactive W c result | _ \<Rightarrow> run_service W capng c)
               (\<lambda>run. leave W poweroff (if run then 0 else 1))))))))))"

end
