(* ===== verification/Init_Qemu.thy ===== *)
theory Init_Qemu
  imports Sys
begin

text \<open>
  libvirt-sandbox-init-qemu.c, the first process of a virtual machine: it loads the kernel modules,
  mounts the root file system and everything listed in mounts.cfg, and becomes the common init.
  Any failure switches the machine off. libvirt-sandbox-init-lxc.c does the last step only.
  Messages on stderr are left out; modes are written in decimal (493 is 0755).
\<close>

definition SANDBOXCONFIGDIR :: string where
  "SANDBOXCONFIGDIR = ''/etc/libvirt-sandbox''"

definition LINE_MAX :: nat where
  "LINE_MAX = 1023"

section \<open>Mounting\<close>

definition exit_poweroff :: "os \<Rightarrow> 'a prog" where
  "exit_poweroff W =
     andthen (sys W Sync) (\<lambda>_. andthen (sys W Reboot) (\<lambda>r. halt (if r = Done then Powered_off else Aborted)))"

definition check :: "os \<Rightarrow> call \<Rightarrow> unit prog" where
  "check W c = andthen (sys W c) (\<lambda>r. if r = Done then ret () else exit_poweroff W)"

function mount_mkdir :: "os \<Rightarrow> string \<Rightarrow> nat \<Rightarrow> unit prog" where
  "mount_mkdir W dir mode =
     seq (case strrchr_split CHR ''/'' dir of
            None \<Rightarrow> ret ()
          | Some (parent, _) \<Rightarrow> if parent = [] then ret () else mount_mkdir W parent 493)
         (andthen (sys W (Mkdir dir mode))
           (\<lambda>r. if r = Done \<or> r = Eexist then ret () else exit_poweroff W))"
  by pat_completeness auto

termination
  by (relation "measure (\<lambda>(W, dir, mode). length dir)") (auto simp: strrchr_split_Some)

declare mount_mkdir.simps [simp del]

definition mount_mkparent :: "os \<Rightarrow> string \<Rightarrow> unit prog" where
  "mount_mkparent W dir =
     (case strrchr_split CHR ''/'' dir of
        None \<Rightarrow> ret ()
      | Some (parent, _) \<Rightarrow> if parent = [] then ret () else mount_mkdir W parent 493)"

definition mount_mkfile :: "os \<Rightarrow> string \<Rightarrow> nat \<Rightarrow> unit prog" where
  "mount_mkfile W file mode =
     seq (mount_mkparent W file)
       (andthen (sys W (Create file mode))
         (\<lambda>r. if r = Done \<or> r = Eexist then ret () else exit_poweroff W))"

definition mount_other_opts :: "os \<Rightarrow> string \<Rightarrow> string \<Rightarrow> string \<Rightarrow> nat \<Rightarrow> unit prog" where
  "mount_other_opts W dst ty opts mode =
     steps [mount_mkdir W dst mode, check W (Mount ''none'' dst (Some ty) [] opts), check W (Chmod dst mode)]"

definition mount_other :: "os \<Rightarrow> string \<Rightarrow> string \<Rightarrow> nat \<Rightarrow> unit prog" where
  "mount_other W dst ty mode = mount_other_opts W dst ty [] mode"

definition mount_9pfs :: "os \<Rightarrow> string \<Rightarrow> string \<Rightarrow> nat \<Rightarrow> bool \<Rightarrow> unit prog" where
  "mount_9pfs W src dst mode readonly =
     seq (mount_mkdir W dst mode)
       (check W (Mount src dst (Some ''9p'') (if readonly then [Ms_rdonly] else [])
          ''trans=virtio,version=9p2000.u''))"

text \<open>The mount point of a bind mount is made with the decimal modes 755 and 644.\<close>

definition mount_entry :: "os \<Rightarrow> string \<Rightarrow> string \<Rightarrow> string \<Rightarrow> string \<Rightarrow> unit prog" where
  "mount_entry W source target ty opts =
     (if ty = [] then
        (\<lambda>tr. (case os_isdir W tr source of
           None \<Rightarrow> exit_poweroff W
         | Some dir \<Rightarrow>
             seq (if dir then mount_mkdir W target 755 else mount_mkfile W target 644)
               (check W (Mount source target None [Ms_bind] opts))) tr)
      else
        seq (mount_mkdir W target 493)
          (check W (Mount source target (Some ty)
             (if ty = ''tmpfs'' then [Ms_nosuid, Ms_nodev] else []) opts)))"

text \<open>A line of mounts.cfg is cut in place at tabs and at the newline; without them the code follows NULL.\<close>

definition parse_mount_line :: "string \<Rightarrow> (string \<times> string \<times> string \<times> string) option" where
  "parse_mount_line line =
     (case strchr_split tab line of None \<Rightarrow> None
      | Some (source, r) \<Rightarrow>
     (case strchr_split tab r of None \<Rightarrow> None
      | Some (target, r) \<Rightarrow>
     (case strchr_split tab r of None \<Rightarrow> None
      | Some (ty, r) \<Rightarrow>
     (case strchr_split nl r of None \<Rightarrow> None
      | Some (opts, _) \<Rightarrow> Some (source, target, ty, opts)))))"

text \<open>The root file system: the first line whose target is \<open>/\<close>, with /dev made available for its device.\<close>

definition mount_root_entry :: "os \<Rightarrow> string \<Rightarrow> string \<Rightarrow> string \<Rightarrow> string \<Rightarrow> unit prog" where
  "mount_root_entry W path source ty opts =
     (let needs_dev = strip_prefix ''/dev/'' source \<noteq> None in
      steps ((if needs_dev then [mount_other W ''/proc'' ''proc'' 493, mount_other W ''/dev'' ''devtmpfs'' 493] else []) @
             [mount_entry W source path ty opts] @
             (if needs_dev then [check W (Umount ''/dev''), check W (Umount ''/proc'')] else [])))"

fun find_root :: "os \<Rightarrow> string \<Rightarrow> string list \<Rightarrow> bool prog" where
  "find_root W path [] = ret False"
| "find_root W path (l # ls) =
     (case parse_mount_line l of
        None \<Rightarrow> halt Undefined
      | Some (source, target, ty, opts) \<Rightarrow>
          if target = ''/'' then seq (mount_root_entry W path source ty opts) (ret True)
          else find_root W path ls)"

definition with_lines :: "os \<Rightarrow> string \<Rightarrow> (string list \<Rightarrow> 'a prog) \<Rightarrow> 'a prog" where
  "with_lines W path f =
     (\<lambda>tr. (case os_file W tr path of
        None \<Rightarrow> exit_poweroff W
      | Some contents \<Rightarrow> f (fgets_lines LINE_MAX contents)) tr)"

definition MOUNTS_CONFIG_FILE :: string where
  "MOUNTS_CONFIG_FILE = SANDBOXCONFIGDIR @ ''/mounts.cfg''"

definition mount_root :: "os \<Rightarrow> string \<Rightarrow> unit prog" where
  "mount_root W path =
     seq (steps [mount_mkdir W SANDBOXCONFIGDIR 493, mount_9pfs W ''sandbox:config'' SANDBOXCONFIGDIR 493 True])
       (andthen (with_lines W MOUNTS_CONFIG_FILE (find_root W path)) (\<lambda>found.
          seq (check W (Umount SANDBOXCONFIGDIR))
            (if found then ret () else mount_9pfs W ''sandbox:root'' path 493 True)))"

definition mount_line :: "os \<Rightarrow> string \<Rightarrow> unit prog" where
  "mount_line W l =
     (case parse_mount_line l of
        None \<Rightarrow> halt Undefined
      | Some (source, target, ty, opts) \<Rightarrow>
          if target \<noteq> ''/'' then mount_entry W source target ty opts else ret ())"

section \<open>Kernel modules\<close>

definition CHUNK :: nat where
  "CHUNK = 32 * 1024"

definition has_suffix :: "string \<Rightarrow> string \<Rightarrow> bool" where
  "has_suffix filename ext = (case strstr_split ext filename of None \<Rightarrow> False | Some (_, r) \<Rightarrow> r = [])"

text \<open>
  The decompression loops. The buffer has \<open>len\<close> bytes of which \<open>used\<close> are filled. The length they
  report is the size of the buffer. The answers of the library end the loop; without further
  answers the loop is still running.
\<close>

fun inflate_loop :: "nat \<Rightarrow> nat \<Rightarrow> inflate list \<Rightarrow> (bool \<times> nat \<times> nat) option" where
  "inflate_loop len used [] = None"
| "inflate_loop len used (Corrupt # _) = Some (False, len, used)"
| "inflate_loop len used (Produced n # rs) =
     (let used = used + n in inflate_loop (if used \<ge> len then len + CHUNK else len) used rs)"
| "inflate_loop len used (Finished n # _) =
     (let used = used + n in Some (True, if used \<ge> len then len + CHUNK else len, used))"

definition load_compressed :: "os \<Rightarrow> inflate list \<Rightarrow> nat prog" where
  "load_compressed W rs =
     (case inflate_loop CHUNK 0 rs of
        Some (True, len, _) \<Rightarrow> ret len
      | _ \<Rightarrow> exit_poweroff W)"

definition load_module_file :: "os \<Rightarrow> string \<Rightarrow> nat prog" where
  "load_module_file W filename =
     (\<lambda>tr. (case os_file W tr filename of
        None \<Rightarrow> exit_poweroff W
      | Some contents \<Rightarrow>
          if has_suffix filename ''.ko.xz'' then load_compressed W (os_lzma W contents)
          else if has_suffix filename ''.ko.gz'' then load_compressed W (os_gzread W contents)
          else ret (length contents)) tr)"

definition insmod :: "os \<Rightarrow> string \<Rightarrow> unit prog" where
  "insmod W filename = andthen (load_module_file W filename) (\<lambda>len. check W (Init_module filename len))"

section \<open>The command line\<close>

text \<open>\<open>has_command_arg\<close>: -1, or 0 with a value that may be NULL.\<close>

definition command_arg :: "string \<Rightarrow> string \<Rightarrow> string option option" where
  "command_arg name line =
     (case strstr_split name line of
        None \<Rightarrow> None
      | Some (_, start) \<Rightarrow>
          if start \<noteq> [] \<and> (hd start = nl \<or> hd start = CHR '' '') then Some None
          else (case strchr_split CHR '' '' start of
                  Some (v, _) \<Rightarrow> Some (Some v)
                | None \<Rightarrow> (case strchr_split nl start of
                    Some (v, _) \<Rightarrow> Some (Some v)
                  | None \<Rightarrow> Some (Some start))))"

definition strace_args :: "string option option \<Rightarrow> string list" where
  "strace_args arg = (case arg of
       None \<Rightarrow> []
     | Some v \<Rightarrow>
         [''/usr/bin/strace'', ''-q'', ''-o'', ''/tmp/sandbox.log'', ''-f'', ''-ff''] @
         (case v of Some s \<Rightarrow> if s \<noteq> ''1'' then [''-e'', s] else [] | None \<Rightarrow> []) @
         [''-s'', ''1000''])"

definition common_init :: "string list" where
  "common_init = [SANDBOXCONFIGDIR @ ''/.libs/ld.so'', SANDBOXCONFIGDIR @ ''/.libs/libvirt-sandbox-init-common'']"

definition first_line :: "string \<Rightarrow> string option" where
  "first_line contents = (case fgets_lines LINE_MAX contents of [] \<Rightarrow> None | l # _ \<Rightarrow> Some l)"

definition set_debug :: "os \<Rightarrow> bool prog" where
  "set_debug W =
     seq (steps [check W (Mkdir ''/proc'' 493), check W (Mount ''none'' ''/proc'' (Some ''proc'') [] [])])
       (\<lambda>tr. andthen (check W (Umount ''/proc'')) (\<lambda>_. ret
          (case os_file W tr ''/proc/cmdline'' of
             None \<Rightarrow> False
           | Some contents \<Rightarrow> (case first_line contents of None \<Rightarrow> False
               | Some l \<Rightarrow> strstr_split ''debug'' l \<noteq> None))) tr)"

definition has_command_arg :: "os \<Rightarrow> string \<Rightarrow> string option option prog" where
  "has_command_arg W name =
     (\<lambda>tr. (case os_file W tr ''/proc/cmdline'' of
        None \<Rightarrow> exit_poweroff W
      | Some contents \<Rightarrow> (case first_line contents of
          None \<Rightarrow> exit_poweroff W
        | Some l \<Rightarrow> ret (command_arg name l))) tr)"

definition print_uptime :: "os \<Rightarrow> bool \<Rightarrow> unit prog" where
  "print_uptime W debug =
     (if \<not> debug then ret ()
      else (\<lambda>tr. (case os_file W tr ''/proc/uptime'' of
        None \<Rightarrow> exit_poweroff W
      | Some contents \<Rightarrow> if contents = [] then exit_poweroff W else ret ()) tr))"

section \<open>main\<close>

definition load_modules :: "os \<Rightarrow> unit prog" where
  "load_modules W =
     steps [mount_other W ''/sys'' ''sysfs'' 493,
            with_lines W ''/modules'' (each (\<lambda>l. insmod W (if last l = nl then butlast l else l))),
            check W (Umount ''/sys'')]"

definition setup_mounts :: "os \<Rightarrow> unit prog" where
  "setup_mounts W =
     steps [mount_root W ''/tmproot'',
            check W (Chroot ''/tmproot''),
            check W (Chdir ''/''),
            mount_other W ''/dev'' ''devtmpfs'' 493,
            check W (Symlink ''/proc/self/fd'' ''/dev/fd''),
            mount_other_opts W ''/dev/pts'' ''devpts'' ''gid=5,mode=620,ptmxmode=000'' 493,
            mount_other W ''/sys'' ''sysfs'' 493,
            mount_other W ''/proc'' ''proc'' 493,
            mount_other W ''/dev/shm'' ''tmpfs'' 1023,
            andthen (sys W (Umask 18)) (\<lambda>_. ret ()),
            mount_9pfs W ''sandbox:config'' SANDBOXCONFIGDIR 493 True,
            with_lines W MOUNTS_CONFIG_FILE (each (mount_line W))]"

text \<open>\<open>execv\<close> only returns when it fails.\<close>

definition exec_or :: "os \<Rightarrow> string list \<Rightarrow> unit prog \<Rightarrow> unit prog" where
  "exec_or W args failed =
     andthen (sys W (Execv args)) (\<lambda>r. if r = Done then halt (Became args) else failed)"

definition init_qemu :: "os \<Rightarrow> unit prog" where
  "init_qemu W =
     (if os_pid W \<noteq> 1 then halt (Exited 1)
      else andthen (set_debug W) (\<lambda>debug.
        seq (steps [load_modules W, setup_mounts W, print_uptime W debug])
          (andthen (has_command_arg W ''strace='') (\<lambda>arg.
             seq (check W (Setenv ''LD_LIBRARY_PATH'' (SANDBOXCONFIGDIR @ ''/.libs'')))
               (exec_or W (strace_args arg @ common_init @ [''--poweroff''] @ (if debug then [''-d''] else []))
                  (exit_poweroff W))))))"

text \<open>libvirt-sandbox-init-lxc.c\<close>

definition init_lxc :: "os \<Rightarrow> unit prog" where
  "init_lxc W =
     (if os_environ W ''LIBVIRT_LXC_UUID'' = None then halt (Exited 1)
      else
        let cmdline = os_environ W ''LIBVIRT_LXC_CMDLINE'';
            debug = (case cmdline of None \<Rightarrow> False | Some l \<Rightarrow> strstr_split ''debug'' l \<noteq> None);
            arg = (case cmdline of None \<Rightarrow> None | Some l \<Rightarrow> command_arg ''strace='' l)
        in andthen (sys W (Setenv ''LD_LIBRARY_PATH'' (SANDBOXCONFIGDIR @ ''/.libs''))) (\<lambda>r.
             if r \<noteq> Done then halt (Exited 1)
             else exec_or W (strace_args arg @ common_init @ (if debug then [''-d''] else []))
                    (halt (Exited 1))))"

end
