(* ===== verification/Builder_Devices.thy ===== *)
theory Builder_Devices
  imports Builder_Initrd Init_Qemu
begin

text \<open>
  The names by which host and guest agree on devices: what the builder calls the disks and shared
  directories of a domain, what it writes to mounts.cfg and disks.cfg, and how the guest takes
  these lines apart.
\<close>

section \<open>The devices of a domain\<close>

fun blocks :: "device list \<Rightarrow> block_device list" where
  "blocks [] = []"
| "blocks (Block b # ds) = b # blocks ds"
| "blocks (_ # ds) = blocks ds"

fun shares :: "device list \<Rightarrow> filesys list" where
  "shares [] = []"
| "shares (Filesys f # ds) = f # shares ds"
| "shares (_ # ds) = shares ds"

lemma blocks_append [simp]: "blocks (xs @ ys) = blocks xs @ blocks ys"
  by (induction xs rule: blocks.induct) auto

lemma shares_append [simp]: "shares (xs @ ys) = shares xs @ shares ys"
  by (induction xs rule: shares.induct) auto

fun images :: "mount list \<Rightarrow> mount list" where
  "images [] = []"
| "images (m # ms) = (case mt_kind m of Host_image _ _ \<Rightarrow> m # images ms | _ \<Rightarrow> images ms)"

fun binds :: "mount list \<Rightarrow> mount list" where
  "binds [] = []"
| "binds (m # ms) = (case mt_kind m of Host_bind _ \<Rightarrow> m # binds ms | _ \<Rightarrow> binds ms)"

lemma filter_distinct_key:
  assumes "distinct (map f xs)" "k < length xs"
  shows "filter (\<lambda>x. f x = f (xs ! k)) xs = [xs ! k]"
proof -
  have "filter (\<lambda>y. f y = f x) xs = [x]" if "x \<in> set xs" for x
    using assms(1) that by (induction xs) (auto simp: filter_empty_conv image_iff)
  with assms(2) show ?thesis by simp
qed

section \<open>Device names\<close>

definition drive_names :: "string \<Rightarrow> nat \<Rightarrow> nat \<Rightarrow> string list" where
  "drive_names p a b = map (\<lambda>k. p @ [drive_letter k]) [a..<b]"

lemma of_drive_letter: "n < 256 \<Longrightarrow> (of_char (drive_letter n) + 159) mod 256 = (n :: nat)"
proof -
  assume n: "n < 256"
  have "of_char (drive_letter n) = (97 + n) mod 256" unfolding drive_letter_def of_char_of by (rule mod_mod_trivial)
  then have "(of_char (drive_letter n) + 159) mod 256 = (97 + n + 159) mod 256"
    by (simp only: mod_add_left_eq)
  also have "97 + n + 159 = n + 256" by linarith
  finally show ?thesis using n by (simp only: mod_add_self2 mod_less)
qed

lemma drive_letter_inject: "a < 256 \<Longrightarrow> b < 256 \<Longrightarrow> drive_letter a = drive_letter b \<longleftrightarrow> a = b"
  using of_drive_letter by metis

lemma drive_names_nth [simp]: "k < b - a \<Longrightarrow> drive_names p a b ! k = p @ [drive_letter (a + k)]"
  by (simp add: drive_names_def)

lemma length_drive_names [simp]: "length (drive_names p a b) = b - a"
  by (simp add: drive_names_def)

lemma drive_letter_neq: "k < 168 \<Longrightarrow> drive_letter k \<noteq> tab \<and> drive_letter k \<noteq> nl"
  using of_drive_letter [of k] by (auto simp: tab_def nl_def)

lemma distinct_drive_names: "b \<le> 256 \<Longrightarrow> distinct (drive_names p a b)"
  by (auto simp: drive_names_def distinct_map inj_on_def drive_letter_inject)

lemma drive_names_split: "a \<le> b \<Longrightarrow> b \<le> n \<Longrightarrow> drive_names p a b @ drive_names p b n = drive_names p a n"
  by (simp add: drive_names_def flip: map_append) (metis le_Suc_ex upt_add_eq_append)

lemma drive_names_simps [simp]:
  "drive_names p n n = []"
  "drive_names p n (Suc (n + k)) = (p @ [drive_letter n]) # drive_names p (Suc n) (Suc (n + k))"
  by (simp_all add: drive_names_def upt_conv_Cons del: upt_Suc)

lemma blocks_disk_devices:
  "map bd_target (blocks (disk_devices b n ds)) = drive_names (disk_prefix b) n (n + length ds)"
  "map bd_source (blocks (disk_devices b n ds)) = map dk_source ds"
  "map bd_format (blocks (disk_devices b n ds)) = map dk_format ds"
  "shares (disk_devices b n ds) = []"
  by (induction b n ds rule: disk_devices.induct) auto

lemma blocks_machine_mounts:
  "map bd_target (blocks (machine_mounts G root file hb vd ms)) = drive_names ''vd'' vd (vd + length (images ms))"
  "map bd_source (blocks (machine_mounts G root file hb vd ms)) =
     map (\<lambda>m. case mt_kind m of Host_image src _ \<Rightarrow> src) (images ms)"
  "map bd_format (blocks (machine_mounts G root file hb vd ms)) =
     map (\<lambda>m. case mt_kind m of Host_image _ fmt \<Rightarrow> fmt) (images ms)"
  by (induction ms arbitrary: hb vd)
    (auto simp: next_vd_def split: mount_kind.split)

lemma shares_machine_mounts:
  "map fs_target (shares (machine_mounts G root file hb vd ms)) =
     map (\<lambda>k. ''sandbox:mount'' @ dec k) [hb..<hb + length (binds ms)]"
  "map fs_source (shares (machine_mounts G root file hb vd ms)) =
     map (\<lambda>m. case mt_kind m of Host_bind src \<Rightarrow> Some src) (binds ms)"
  by (induction ms arbitrary: hb vd)
    (auto simp: next_hb_def upt_conv_Cons simp del: upt_Suc split: mount_kind.split)

lemma other_devices [simp]:
  "blocks (root_device b c) = []" "blocks (config_device b d sd # ds) = blocks ds"
  "blocks (map (network_device b) ns) = []" "shares (map (network_device b) ns) = []"
  by (simp_all add: root_device_def config_device_def) (induction ns; simp add: network_device_def)+

lemma blocks_container_mount [simp]: "blocks (container_mount G m # ds) = blocks ds"
  by (simp add: container_mount_def Let_def)

text \<open>The block devices of a machine in order: the disks, then the images among the mounts.\<close>

lemma blocks_machine_devices:
  "map bd_target (blocks (machine_devices G root cd c sd)) =
     drive_names ''vd'' 0 (length (cf_disks c) + length (images (cf_mounts c)))"
  "map bd_source (blocks (machine_devices G root cd c sd)) =
     map dk_source (cf_disks c) @ map (\<lambda>m. case mt_kind m of Host_image src _ \<Rightarrow> src) (images (cf_mounts c))"
  "map bd_format (blocks (machine_devices G root cd c sd)) =
     map dk_format (cf_disks c) @ map (\<lambda>m. case mt_kind m of Host_image _ fmt \<Rightarrow> fmt) (images (cf_mounts c))"
  by (simp_all add: machine_devices_def blocks_disk_devices blocks_machine_mounts disk_prefix_def
      drive_names_split)

lemma shares_machine_devices:
  "\<exists>own. shares (machine_devices G root cd c sd) = own @ shares (machine_mounts G root (dtype_file G) 0 (length (cf_disks c)) (cf_mounts c)) \<and>
     fs_target ` set own \<subseteq> {''sandbox:root'', ''sandbox:config''}"
  by (auto simp: machine_devices_def root_device_def config_device_def blocks_disk_devices)

section \<open>The lines of mounts.cfg\<close>

definition plain :: "string \<Rightarrow> bool" where
  "plain s \<longleftrightarrow> tab \<notin> set s \<and> nl \<notin> set s"

definition plain_mount :: "mount \<Rightarrow> bool" where
  "plain_mount m \<longleftrightarrow> plain (mt_target m) \<and> (case mt_kind m of Guest_bind src \<Rightarrow> plain src | _ \<Rightarrow> True)"

lemma tab_nl_facts [simp]: "tab \<noteq> nl" "nl \<noteq> tab"
  by (simp_all add: tab_def nl_def)

lemma plain_append [simp]: "plain (a @ b) \<longleftrightarrow> plain a \<and> plain b"
  by (auto simp: plain_def)

lemma plain_chars: "plain []" "plain (c # s) \<longleftrightarrow> c \<noteq> tab \<and> c \<noteq> nl \<and> plain s"
  by (auto simp: plain_def)

lemma char_not_tab [simp]: "(Char a b c d e f g h = tab) = (Char a b c d e f g h = CHR 0x09)"
  "(Char a b c d e f g h = nl) = (Char a b c d e f g h = CHR 0x0A)"
  "(tab = Char a b c d e f g h) = (Char a b c d e f g h = CHR 0x09)"
  "(nl = Char a b c d e f g h) = (Char a b c d e f g h = CHR 0x0A)"
  by (auto simp: tab_def nl_def)

lemma plain_drive_letter: "k < 168 \<Longrightarrow> plain [drive_letter k]"
  using drive_letter_neq [of k] by (simp add: plain_chars)

lemma dec_plain [simp]: "plain (dec n)"
  using dec_chars [of tab n] dec_chars [of nl n] by (auto simp: plain_def tab_def nl_def is_space_def)

lemma parse_mount_line_written:
  "plain source \<Longrightarrow> plain target \<Longrightarrow> plain ty \<Longrightarrow> plain opts \<Longrightarrow>
   parse_mount_line (source @ [tab] @ target @ [tab] @ ty @ [tab] @ opts @ [nl]) = Some (source, target, ty, opts)"
  by (simp add: parse_mount_line_def strchr_split_app plain_def)

definition cfg_line :: "nat \<Rightarrow> nat \<Rightarrow> mount \<Rightarrow> string" where
  "cfg_line hb vd m =
     (let (source, ty, opts) = mount_fields hb vd (mt_kind m) in
      source @ [tab] @ mt_target m @ [tab] @ ty @ [tab] @ opts @ [nl])"

lemma next_counts:
  "next_hb hb (mt_kind m) = hb + length (binds [m])" "next_vd vd (mt_kind m) = vd + length (images [m])"
  by (auto simp: next_hb_def next_vd_def split: mount_kind.split)

lemma binds_Cons: "binds (m # ms) = binds [m] @ binds ms" and images_Cons: "images (m # ms) = images [m] @ images ms"
  by (auto split: mount_kind.split)

lemma mount_cfg_lines_nth:
  "i < length ms \<Longrightarrow>
   mount_cfg_lines hb vd ms ! i = cfg_line (hb + length (binds (take i ms))) (vd + length (images (take i ms))) (ms ! i)"
proof (induction ms arbitrary: i hb vd)
  case (Cons m ms)
  then show ?case
    by (cases i) (simp_all add: cfg_line_def next_counts binds_Cons [of m "take _ ms"] images_Cons [of m "take _ ms"] add.assoc
        del: binds.simps(2) images.simps(2))
qed simp

lemma images_nth:
  "i < length ms \<Longrightarrow> mt_kind (ms ! i) = Host_image src fmt \<Longrightarrow>
   length (images (take i ms)) < length (images ms) \<and> images ms ! length (images (take i ms)) = ms ! i"
proof (induction ms arbitrary: i)
  case (Cons m ms)
  then show ?case by (cases i) (auto split: mount_kind.split)
qed simp

lemma binds_nth:
  "i < length ms \<Longrightarrow> mt_kind (ms ! i) = Host_bind src \<Longrightarrow>
   length (binds (take i ms)) < length (binds ms) \<and> binds ms ! length (binds (take i ms)) = ms ! i"
proof (induction ms arbitrary: i)
  case (Cons m ms)
  then show ?case by (cases i) (auto split: mount_kind.split)
qed simp

end
