(* ===== verification/Init_Claims.thy ===== *)
theory Init_Claims
  imports Init_Qemu
begin

text \<open>
  What the first process of a machine guarantees, whatever the system answers: it either becomes
  the common init with no failed call behind it, or it switches the machine off. The proofs follow
  the structure of the programs with the Hoare rules of \<open>Sys\<close>.
\<close>

section \<open>No failure is passed over\<close>

definition tolerable :: "call \<Rightarrow> answer \<Rightarrow> bool" where
  "tolerable c a \<longleftrightarrow> a = Done \<or>
     (a = Eexist \<and> (case c of Mkdir _ _ \<Rightarrow> True | Create _ _ \<Rightarrow> True | _ \<Rightarrow> False)) \<or>
     (case c of Umask _ \<Rightarrow> True | _ \<Rightarrow> False)"

definition clean :: "os \<Rightarrow> call list \<Rightarrow> bool" where
  "clean W tr \<longleftrightarrow> (\<forall>i < length tr. tolerable (tr ! i) (os_call W (take i tr) (tr ! i)))"



lemma clean_Nil [simp]: "clean W []"
  by (simp add: clean_def)

lemma clean_snoc [simp]: "clean W (tr @ [c]) \<longleftrightarrow> clean W tr \<and> tolerable c (os_call W tr c)"
  by (auto simp: clean_def nth_append less_Suc_eq)
































section \<open>The length of a compressed module\<close>

text \<open>The library never produces more than it is asked for.\<close>

fun answers_fit :: "nat \<Rightarrow> nat \<Rightarrow> inflate list \<Rightarrow> bool" where
  "answers_fit len used [] = True"
| "answers_fit len used (Corrupt # _) = True"
| "answers_fit len used (Finished n # _) = (n \<le> len - used)"
| "answers_fit len used (Produced n # rs) =
     (n \<le> len - used \<and> answers_fit (if used + n \<ge> len then len + CHUNK else len) (used + n) rs)"

fun inflated :: "inflate list \<Rightarrow> nat option" where
  "inflated [] = None"
| "inflated (Corrupt # _) = None"
| "inflated (Finished n # _) = Some n"
| "inflated (Produced n # rs) = map_option ((+) n) (inflated rs)"

lemma inflate_loop_length:
  assumes "answers_fit len used rs" "inflated rs = Some n"
    and "used < len" "len \<le> used + CHUNK" "CHUNK dvd len"
  shows "\<exists>len'. inflate_loop len used rs = Some (True, len', used + n) \<and>
    used + n < len' \<and> len' \<le> used + n + CHUNK \<and> CHUNK dvd len'"
  using assms
proof (induction len used rs arbitrary: n rule: answers_fit.induct)
  case (3 len used k rs)
  then show ?case by (auto simp: CHUNK_def Let_def)
next
  case (4 len used k rs)
  then obtain m where m: "inflated rs = Some m" "n = k + m" by auto
  have "CHUNK > 0" by (simp add: CHUNK_def)
  then show ?case using 4 m by (cases "used + k \<ge> len") (auto simp: Let_def add.assoc)
qed auto

lemma chunk_ceiling:
  assumes "used < len" "len \<le> used + CHUNK" "CHUNK dvd len"
  shows "len = CHUNK * (used div CHUNK + 1)"
proof -
  from assms obtain k where k: "len = CHUNK * Suc k" by (cases len; cases "len div CHUNK") (auto elim!: dvdE)
  with assms have "used div CHUNK = k" by (intro div_nat_eqI) simp_all
  with k show ?thesis by simp
qed

lemma load_compressed_length:
  assumes "answers_fit CHUNK 0 rs" "inflated rs = Some n"
  shows "load_compressed W rs = ret (CHUNK * (n div CHUNK + 1))"
proof -
  from inflate_loop_length [OF assms] obtain len' where
    len: "inflate_loop CHUNK 0 rs = Some (True, len', n)" and "n < len'" "len' \<le> n + CHUNK" "CHUNK dvd len'"
    by (auto simp: CHUNK_def)
  with chunk_ceiling [of n len'] show ?thesis by (simp add: load_compressed_def)
qed

definition module_stream :: "os \<Rightarrow> string \<Rightarrow> string \<Rightarrow> inflate list option" where
  "module_stream W f contents =
     (if has_suffix f ''.ko.xz'' then Some (os_lzma W contents)
      else if has_suffix f ''.ko.gz'' then Some (os_gzread W contents)
      else None)"

text \<open>
  A compressed module that inflates to \<open>n\<close> bytes is handed to the kernel with the size of the
  buffer, the next multiple of 32 KiB above \<open>n\<close>, never with its own length; any failure of the call
  switches the machine off.
\<close>

theorem insmod_length:
  assumes "os_file W tr f = Some contents" "module_stream W f contents = Some rs"
    and "answers_fit CHUNK 0 rs" "inflated rs = Some n"
  shows "insmod W f tr = check W (Init_module f (CHUNK * (n div CHUNK + 1))) tr \<and>
    n < CHUNK * (n div CHUNK + 1)"
proof -
  have "n < CHUNK * (n div CHUNK + 1)"
    using div_mult_mod_eq [of n CHUNK] mod_less_divisor [of CHUNK n] by (simp add: CHUNK_def)
  with assms show ?thesis
    by (auto simp: insmod_def andthen_def load_module_file_def load_compressed_length ret_def
        module_stream_def split: if_splits)
qed

definition demo_os :: "(string \<Rightarrow> string option) \<Rightarrow> os" where
  "demo_os files = \<lparr>os_call = \<lambda>_ _. Done, os_file = \<lambda>_. files, os_isdir = \<lambda>_ _. Some True,
     os_environ = \<lambda>_. None, os_output = \<lambda>_ _. [], os_tempdir = \<lambda>_ t. t, os_listdir = \<lambda>_ _. (Done, []), os_mounts = \<lambda>_. Some [],
     os_uid = 0, os_release = ''6.1'', os_kvm = True, os_pid = 1, os_euid = 0,
     os_gzread = \<lambda>_. [Produced 32768, Produced 5, Finished 0], os_lzma = \<lambda>_. [Produced 32768, Finished 5]\<rparr>"

lemma insmod_length_witness:
  "insmod (demo_os (\<lambda>_. Some ''z'')) ''/9p.ko.gz'' [] =
     check (demo_os (\<lambda>_. Some ''z'')) (Init_module ''/9p.ko.gz'' 65536) []"
  using insmod_length [of "demo_os (\<lambda>_. Some ''z'')" "[]" "''/9p.ko.gz''" "''z''" "[Produced 32768, Produced 5, Finished 0]" 32773]
  by (simp add: demo_os_def module_stream_def has_suffix_def CHUNK_def)

end
