(* ===== verification/Builder_Claims.thy ===== *)
theory Builder_Claims
  imports Builder_Devices Init_Claims
begin

text \<open>
  What host and guest agree on: the names of the devices, the files the builder leaves for the
  guest and what the guest does with them, and how the builder and its clean-up treat failures.
\<close>

section \<open>Names of devices\<close>

definition drive :: "domain \<Rightarrow> string \<Rightarrow> (string \<times> int) list" where
  "drive d dev = map (\<lambda>b. (bd_source b, bd_format b)) (filter (\<lambda>b. bd_target b = dev) (blocks (dm_devices d)))"

definition share :: "domain \<Rightarrow> string \<Rightarrow> string option list" where
  "share d tag = map fs_source (filter (\<lambda>f. fs_target f = tag) (shares (dm_devices d)))"

lemma drive_nth:
  assumes names: "map bd_target (blocks ds) = drive_names p 0 n" and "n \<le> 256" "k < n"
  shows "filter (\<lambda>b. bd_target b = p @ [drive_letter k]) (blocks ds) = [blocks ds ! k]"
proof -
  from arg_cong [OF names, of length] have len: "length (blocks ds) = n" by simp
  from arg_cong [OF names, of "\<lambda>xs. xs ! k"] have "bd_target (blocks ds ! k) = p @ [drive_letter k]"
    using assms(3) len by simp
  moreover have "distinct (map bd_target (blocks ds))" using assms(2) by (simp only: names distinct_drive_names)
  ultimately show ?thesis using filter_distinct_key [of bd_target "blocks ds" k] assms(3) len by simp
qed

lemma image_drive:
  assumes "i < length (cf_mounts c)" "mt_kind (cf_mounts c ! i) = Host_image src fmt"
    and "length (cf_disks c) + length (images (cf_mounts c)) \<le> 256"
  shows "drive (add_devices (machine_devices G root cd c sd) domain_new)
      (''vd'' @ [drive_letter (length (cf_disks c) + length (images (take i (cf_mounts c))))]) = [(src, fmt)]"
proof -
  let ?bs = "blocks (machine_devices G root cd c sd)"
  let ?k = "length (cf_disks c) + length (images (take i (cf_mounts c)))"
  from images_nth [OF assms(1,2)] have k: "length (images (take i (cf_mounts c))) < length (images (cf_mounts c))"
    "images (cf_mounts c) ! length (images (take i (cf_mounts c))) = cf_mounts c ! i" by auto
  have len: "length ?bs = length (cf_disks c) + length (images (cf_mounts c))"
    using blocks_machine_devices(2) [of G root cd c sd] by (metis length_append length_map)
  with k have "?k < length ?bs" by simp
  then have "bd_source (?bs ! ?k) = map bd_source ?bs ! ?k" "bd_format (?bs ! ?k) = map bd_format ?bs ! ?k" by simp_all
  then have "bd_source (?bs ! ?k) = src" "bd_format (?bs ! ?k) = fmt"
    using k assms(2) by (simp_all add: blocks_machine_devices nth_append)
  moreover have "filter (\<lambda>b. bd_target b = ''vd'' @ [drive_letter ?k]) ?bs = [?bs ! ?k]"
    using k assms(3) by (intro drive_nth [OF blocks_machine_devices(1)]) simp_all
  ultimately show ?thesis by (simp add: drive_def add_devices_def domain_new_def)
qed

lemma bind_share:
  assumes "i < length (cf_mounts c)" "mt_kind (cf_mounts c ! i) = Host_bind src"
  shows "share (add_devices (machine_devices G root cd c sd) domain_new)
      (''sandbox:mount'' @ dec (length (binds (take i (cf_mounts c))))) = [Some src]"
proof -
  let ?k = "length (binds (take i (cf_mounts c)))"
  let ?fs = "shares (machine_mounts G root (dtype_file G) 0 (length (cf_disks c)) (cf_mounts c))"
  from binds_nth [OF assms] have k: "?k < length (binds (cf_mounts c))" "binds (cf_mounts c) ! ?k = cf_mounts c ! i" by auto
  note targets = shares_machine_mounts [of G root "dtype_file G" 0 "length (cf_disks c)" "cf_mounts c"]
  have len: "length ?fs = length (binds (cf_mounts c))" using targets(2) by (metis length_map)
  have "distinct (map fs_target ?fs)" unfolding targets by (simp add: distinct_map inj_on_def)
  moreover have "fs_target (?fs ! ?k) = ''sandbox:mount'' @ dec ?k"
  proof -
    have "fs_target (?fs ! ?k) = map fs_target ?fs ! ?k" using k len by simp
    then show ?thesis using k unfolding targets by simp
  qed
  ultimately have one: "filter (\<lambda>f. fs_target f = ''sandbox:mount'' @ dec ?k) ?fs = [?fs ! ?k]"
    using filter_distinct_key [of fs_target ?fs ?k] k len by simp
  have "fs_source (?fs ! ?k) = map fs_source ?fs ! ?k" using k len by simp
  then have src: "fs_source (?fs ! ?k) = Some src" using k assms(2) unfolding targets by simp
  obtain own where own: "shares (machine_devices G root cd c sd) = own @ ?fs"
    "fs_target ` set own \<subseteq> {''sandbox:root'', ''sandbox:config''}"
    using shares_machine_devices [of G root cd c sd] by blast
  from own(2) have "filter (\<lambda>f. fs_target f = ''sandbox:mount'' @ dec ?k) own = []"
    by (auto simp: filter_empty_conv)
  with own one src show ?thesis by (simp add: share_def add_devices_def domain_new_def)
qed

lemma cfg_line_names_device:
  assumes "i < length (cf_mounts c)" "plain_mount (cf_mounts c ! i)"
    and "length (cf_disks c) + length (images (cf_mounts c)) \<le> 159"
  shows "\<exists>source ty opts.
    parse_mount_line (mount_cfg_lines 0 (length (cf_disks c)) (cf_mounts c) ! i) =
      Some (source, mt_target (cf_mounts c ! i), ty, opts) \<and>
    (case mt_kind (cf_mounts c ! i) of
       Host_image src fmt \<Rightarrow> ty = ''ext4'' \<and> opts = [] \<and> (\<exists>dev. source = ''/dev/'' @ dev \<and>
         drive (add_devices (machine_devices G root cd c sd) domain_new) dev = [(src, fmt)])
     | Host_bind src \<Rightarrow> ty = ''9p'' \<and> opts = ''trans=virtio,version=9p2000.u'' \<and>
         share (add_devices (machine_devices G root cd c sd) domain_new) source = [Some src]
     | Guest_bind src \<Rightarrow> ty = [] \<and> opts = [] \<and> source = src
     | Ram usage \<Rightarrow> ty = ''tmpfs'' \<and> source = ''tmpfs'' \<and> opts = ''size='' @ dec (unat usage div 1024) @ ''k'')"
proof -
  let ?m = "cf_mounts c ! i" and ?lines = "mount_cfg_lines 0 (length (cf_disks c)) (cf_mounts c)"
  let ?hb = "length (binds (take i (cf_mounts c)))"
  let ?vd = "length (cf_disks c) + length (images (take i (cf_mounts c)))"
  have line: "?lines ! i = cfg_line ?hb ?vd ?m" using mount_cfg_lines_nth [OF assms(1)] by simp
  have parsed: "parse_mount_line (?lines ! i) = Some (source, mt_target ?m, ty, opts)"
    if "mount_fields ?hb ?vd (mt_kind ?m) = (source, ty, opts)" "plain source" "plain ty" "plain opts" for source ty opts
    unfolding line cfg_line_def using that assms(2)
    by (simp only: Let_def split_conv parse_mount_line_written plain_mount_def)
  show ?thesis
  proof (cases "mt_kind ?m")
    case (Host_bind src)
    then show ?thesis
      using parsed bind_share [OF assms(1) Host_bind, of G root cd sd]
      by (auto simp: mount_fields_def plain_chars)
  next
    case (Host_image src fmt)
    have "length (images (take i (cf_mounts c))) < length (images (cf_mounts c))"
      using images_nth [OF assms(1) Host_image] by simp
    with assms(3) have "plain [drive_letter ?vd]" by (intro plain_drive_letter) simp
    then show ?thesis
      using parsed image_drive [OF assms(1) Host_image, of G root cd sd] assms(3) Host_image
      by (auto simp: mount_fields_def plain_chars)
  next
    case (Guest_bind src)
    then show ?thesis using parsed assms(2) by (simp add: mount_fields_def plain_chars plain_mount_def)
  next
    case (Ram usage)
    then show ?thesis
      using parsed plain_append [of "''size=''"] by (simp add: mount_fields_def plain_chars)
  qed
qed

text \<open>
  C21. Line \<open>i\<close> of the mounts.cfg written for a machine names, in the form the guest reads it, the
  device of the domain that carries the source of mount \<open>i\<close> and no other: the virtio disk of an image,
  the share of a bound directory; a guest bind names its path and a RAM mount its size. The names are
  unambiguous up to 159 disks and images.
\<close>

theorem mounts_cfg_names_devices:
  assumes "i < length (cf_mounts c)" "plain_mount (cf_mounts c ! i)"
    and "length (cf_disks c) + length (images (cf_mounts c)) \<le> 159"
  shows "\<exists>source ty opts.
    parse_mount_line (mount_cfg_lines 0 (length (cf_disks c)) (cf_mounts c) ! i) =
      Some (source, mt_target (cf_mounts c ! i), ty, opts) \<and>
    (case mt_kind (cf_mounts c ! i) of
       Host_image src fmt \<Rightarrow> ty = ''ext4'' \<and> opts = [] \<and> (\<exists>dev. source = ''/dev/'' @ dev \<and>
         drive (add_devices (machine_devices G root cd c sd) domain_new) dev = [(src, fmt)])
     | Host_bind src \<Rightarrow> ty = ''9p'' \<and> opts = ''trans=virtio,version=9p2000.u'' \<and>
         share (add_devices (machine_devices G root cd c sd) domain_new) source = [Some src]
     | Guest_bind src \<Rightarrow> ty = [] \<and> opts = [] \<and> source = src
     | Ram usage \<Rightarrow> ty = ''tmpfs'' \<and> source = ''tmpfs'' \<and> opts = ''size='' @ dec (unat usage div 1024) @ ''k'')"
  by (rule cfg_line_names_device [OF assms])

section \<open>Files written by the host\<close>

text \<open>What a trace leaves in a file, if every call in it did what it should.\<close>

fun file_step :: "string \<Rightarrow> call \<Rightarrow> string option \<Rightarrow> string option" where
  "file_step f (Open_replace g) s = (if g = f then Some [] else s)"
| "file_step f (Open_new g) s = (if g = f then Some [] else s)"
| "file_step f (Write g t) s = (if g = f then map_option (\<lambda>u. u @ t) s else s)"
| "file_step f (Delete_file g) s = (if g = f then None else s)"
| "file_step f (Unlink g) s = (if g = f then None else s)"
| "file_step f _ s = s"

definition written :: "string \<Rightarrow> call list \<Rightarrow> string option" where
  "written f tr = fold (file_step f) tr None"

lemma fold_writes: "fold (file_step f) (map (Write f) ls) (Some s) = Some (s @ concat ls)"
  by (induction ls arbitrary: s) simp_all

lemma ok_run: "ok W c tr = Ret (os_call W tr c = Done) (tr @ [c])"
  by (simp add: ok_def run_simps)

lemma all_succeed_append:
  "all_succeed W tr (cs @ ds) \<longleftrightarrow> all_succeed W tr cs \<and> all_succeed W (tr @ cs) ds"
  by (induction cs arbitrary: tr) auto

lemma while_ok_Cons_run:
  "while_ok f (x # xs) tr = (case f x tr of
     Ret b tr' \<Rightarrow> if b then while_ok f xs tr' else Ret False tr' | Halt e tr' \<Rightarrow> Halt e tr')"
  by (auto simp: andthen_def ret_def split: run.split)

lemma while_ok_calls:
  "\<exists>b k. while_ok (\<lambda>l. ok W (g l)) ls tr = Ret b (tr @ map g (take k ls)) \<and>
     (if b then k = length ls \<and> all_succeed W tr (map g ls) else \<not> all_succeed W tr (map g (take k ls)))"
proof (induction ls arbitrary: tr)
  case (Cons l ls)
  from Cons.IH [of "tr @ [g l]"] obtain b k where
    IH: "while_ok (\<lambda>l. ok W (g l)) ls (tr @ [g l]) = Ret b (tr @ [g l] @ map g (take k ls))"
      "if b then k = length ls \<and> all_succeed W (tr @ [g l]) (map g ls)
       else \<not> all_succeed W (tr @ [g l]) (map g (take k ls))" by auto
  note step = while_ok_Cons_run [of "\<lambda>l. ok W (g l)" l ls tr] ok_run [of W "g l" tr]
  show ?case
  proof (cases "os_call W tr (g l) = Done")
    case True
    with IH show ?thesis
      by (intro exI [of _ b] exI [of _ "Suc k"]) (simp add: step del: while_ok.simps split: if_splits)
  next
    case False
    then show ?thesis by (intro exI [of _ False] exI [of _ 1]) (simp add: step del: while_ok.simps)
  qed
qed (auto simp: run_simps)

lemma write_lines_runs:
  "\<exists>b cs. write_lines W path ls tr = Ret b (tr @ cs) \<and>
    (if b then all_succeed W tr cs \<and> written path (tr @ cs) = Some (concat ls)
     else \<not> all_succeed W tr (butlast cs) \<and> written path (tr @ cs) = None)"
proof -
  from while_ok_calls [of W "Write path" ls "tr @ [Open_replace path]"] obtain b k where
    w: "while_ok (\<lambda>l. ok W (Write path l)) ls (tr @ [Open_replace path]) =
        Ret b (tr @ Open_replace path # map (Write path) (take k ls))"
      "if b then k = length ls \<and> all_succeed W (tr @ [Open_replace path]) (map (Write path) ls)
       else \<not> all_succeed W (tr @ [Open_replace path]) (map (Write path) (take k ls))" by auto
  let ?opened = "os_call W tr (Open_replace path) = Done"
  let ?closed = "os_call W (tr @ Open_replace path # map (Write path) ls) (Close path) = Done"
  consider "\<not> ?opened" | "?opened" "\<not> b" | "?opened" b "\<not> ?closed" | "?opened" b "?closed" by blast
  then show ?thesis
  proof cases
    case 1
    then show ?thesis
      by (intro exI [of _ False] exI [of _ "[Open_replace path, Delete_file path]"])
        (simp add: write_lines_def run_simps ok_run written_def)
  next
    case 2
    with w show ?thesis
      by (intro exI [of _ False] exI [of _ "Open_replace path # map (Write path) (take k ls) @ [Delete_file path]"])
        (simp add: write_lines_def run_simps ok_run written_def butlast_append)
  next
    case 3
    with w show ?thesis
      by (intro exI [of _ False] exI [of _ "Open_replace path # map (Write path) ls @ [Close path, Delete_file path]"])
        (simp add: write_lines_def run_simps ok_run written_def butlast_append all_succeed_append)
  next
    case 4
    with w show ?thesis
      by (intro exI [of _ True] exI [of _ "Open_replace path # map (Write path) ls @ [Close path]"])
        (simp add: write_lines_def run_simps ok_run written_def all_succeed_append fold_writes)
  qed
qed

text \<open>
  Writing a file of the state directory either succeeds, every call having succeeded, and leaves
  exactly the given lines in it, or fails after deleting what was there.
\<close>

theorem write_lines_contract:
  "\<exists>b cs. write_lines W path ls tr = Ret b (tr @ cs) \<and>
    (if b then all_succeed W tr cs \<and> written path (tr @ cs) = Some (concat ls)
     else \<not> all_succeed W tr (butlast cs) \<and> written path (tr @ cs) = None)"
  by (rule write_lines_runs)

section \<open>What the guest mounts\<close>

definition mounts_source :: "domain \<Rightarrow> mount \<Rightarrow> call \<Rightarrow> bool" where
  "mounts_source d m call = (case mt_kind m of
       Host_bind src \<Rightarrow> \<exists>tag. call = Mount tag (mt_target m) (Some ''9p'') [] ''trans=virtio,version=9p2000.u'' \<and>
         share d tag = [Some src]
     | Host_image src fmt \<Rightarrow> \<exists>dev. call = Mount (''/dev/'' @ dev) (mt_target m) (Some ''ext4'') [] [] \<and>
         drive d dev = [(src, fmt)]
     | Guest_bind src \<Rightarrow> call = Mount src (mt_target m) None [Ms_bind] []
     | Ram usage \<Rightarrow> call = Mount ''tmpfs'' (mt_target m) (Some ''tmpfs'') [Ms_nosuid, Ms_nodev]
         (''size='' @ dec (unat usage div 1024) @ ''k''))"

fun is_mount :: "call \<Rightarrow> bool" where
  "is_mount (Mount _ _ _ _ _) = True"
| "is_mount _ = False"

fun is_mkdir :: "call \<Rightarrow> bool" where
  "is_mkdir (Mkdir _ _) = True"
| "is_mkdir _ = False"

lemma mount_mkdir_calls:
  "all_done W \<Longrightarrow> \<exists>cs. mount_mkdir W dir mode tr = Ret () (tr @ cs) \<and> list_all is_mkdir cs"
proof (induction W dir mode arbitrary: tr rule: mount_mkdir.induct)
  case (1 W dir mode)
  show ?case
  proof (cases "strrchr_split CHR ''/'' dir")
    case None
    with 1(2) show ?thesis by (subst mount_mkdir.simps) (simp add: run_simps)
  next
    case (Some p)
    obtain parent b where p: "p = (parent, b)" by (cases p)
    show ?thesis
    proof (cases "parent = []")
      case True
      with 1(2) Some p show ?thesis by (subst mount_mkdir.simps) (simp add: run_simps)
    next
      case False
      from 1(1) [OF Some p [symmetric] False 1(2), of tr] obtain cs where
        "mount_mkdir W parent 493 tr = Ret () (tr @ cs)" "list_all is_mkdir cs" by blast
      with 1(2) Some p False show ?thesis
        by (subst mount_mkdir.simps) (simp add: run_simps)
    qed
  qed
qed

lemma mkdirs_filtered: "list_all is_mkdir cs \<Longrightarrow> (\<And>d m. \<not> P (Mkdir d m)) \<Longrightarrow> filter P cs = []"
  by (induction cs) (auto elim: is_mkdir.elims)

lemma mount_mkdir_runs:
  assumes "all_done W" "\<And>d m. \<not> P (Mkdir d m)"
  shows "\<exists>cs. mount_mkdir W dir mode tr = Ret () (tr @ cs) \<and> filter P cs = []"
  using mount_mkdir_calls [OF assms(1), of dir mode tr] mkdirs_filtered [where P = P] assms(2) by blast

lemma mount_mkfile_runs:
  assumes "all_done W"
  shows "\<exists>cs. mount_mkfile W file mode tr = Ret () (tr @ cs) \<and> filter is_mount cs = []"
proof (cases "strrchr_split CHR ''/'' file")
  case None
  with assms show ?thesis by (simp add: mount_mkfile_def mount_mkparent_def run_simps)
next
  case (Some p)
  obtain parent b where p: "p = (parent, b)" by (cases p)
  from mount_mkdir_runs [OF assms, of is_mount parent 493 tr] obtain cs where
    "mount_mkdir W parent 493 tr = Ret () (tr @ cs)" "filter is_mount cs = []" by auto
  with assms Some p show ?thesis
    by (cases "parent = []") (simp_all add: mount_mkfile_def mount_mkparent_def run_simps)
qed

lemma mount_entry_runs:
  assumes "all_done W" "\<And>tr. os_isdir W tr source \<noteq> None"
  shows "\<exists>cs. mount_entry W source target ty opts tr = Ret () (tr @ cs) \<and> filter is_mount cs =
    [Mount source target (if ty = [] then None else Some ty)
       (if ty = [] then [Ms_bind] else if ty = ''tmpfs'' then [Ms_nosuid, Ms_nodev] else []) opts]"
proof -
  have check: "check W call tr' = Ret () (tr' @ [call])" for call tr'
    using assms(1) by (simp add: check_def run_simps)
  obtain dir where dir: "os_isdir W tr source = Some dir" using assms(2) by blast
  from mount_mkdir_runs [OF assms(1), of is_mount target 755 tr] obtain cs1 where
    "mount_mkdir W target 755 tr = Ret () (tr @ cs1)" "filter is_mount cs1 = []" by auto
  moreover from mount_mkfile_runs [OF assms(1), of target 644 tr] obtain cs2 where
    "mount_mkfile W target 644 tr = Ret () (tr @ cs2)" "filter is_mount cs2 = []" by blast
  moreover from mount_mkdir_runs [OF assms(1), of is_mount target 493 tr] obtain cs3 where
    "mount_mkdir W target 493 tr = Ret () (tr @ cs3)" "filter is_mount cs3 = []" by auto
  ultimately show ?thesis using dir by (cases dir) (simp_all add: mount_entry_def run_simps check)
qed

lemma each_list_all2:
  "list_all2 (\<lambda>x y. \<forall>tr. \<exists>cs. f x tr = Ret () (tr @ cs) \<and> R y (filter is_mount cs)) xs ys \<Longrightarrow>
   \<exists>css. each f xs tr = Ret () (tr @ concat css) \<and> list_all2 (\<lambda>y cs. R y (filter is_mount cs)) ys css"
proof (induction xs ys arbitrary: tr rule: list_all2_induct)
  case (Cons x xs y ys)
  from Cons.hyps obtain cs where cs: "f x tr = Ret () (tr @ cs)" "R y (filter is_mount cs)" by blast
  from Cons.IH [of "tr @ cs"] obtain css where
    "each f xs (tr @ cs) = Ret () ((tr @ cs) @ concat css)" "list_all2 (\<lambda>y cs. R y (filter is_mount cs)) ys css" by blast
  with cs show ?case by (intro exI [of _ "cs # css"]) (simp add: run_simps)
qed (simp add: run_simps)

definition mounted_as :: "domain \<Rightarrow> mount \<Rightarrow> call list \<Rightarrow> bool" where
  "mounted_as d m cs \<longleftrightarrow> (if mt_target m = ''/'' then cs = [] else \<exists>call. cs = [call] \<and> mounts_source d m call)"

lemma mounted_as_concat:
  "list_all2 (\<lambda>m cs. mounted_as d m (filter is_mount cs)) ms css \<Longrightarrow>
   list_all2 (mounts_source d) (filter (\<lambda>m. mt_target m \<noteq> ''/'') ms) (filter is_mount (concat css))"
  by (induction ms css rule: list_all2_induct) (auto simp: mounted_as_def split: if_splits)

lemma mount_line_runs:
  assumes "i < length (cf_mounts c)" "plain_mount (cf_mounts c ! i)"
    and "length (cf_disks c) + length (images (cf_mounts c)) \<le> 159"
    and "all_done W" "\<And>tr p. os_isdir W tr p \<noteq> None"
  shows "\<exists>cs. mount_line W (mount_cfg_lines 0 (length (cf_disks c)) (cf_mounts c) ! i) tr = Ret () (tr @ cs) \<and>
    mounted_as (add_devices (machine_devices G root cd c sd) domain_new) (cf_mounts c ! i) (filter is_mount cs)"
proof -
  let ?m = "cf_mounts c ! i" and ?l = "mount_cfg_lines 0 (length (cf_disks c)) (cf_mounts c) ! i"
  let ?d = "add_devices (machine_devices G root cd c sd) domain_new"
  from cfg_line_names_device [OF assms(1-3), of G root cd sd] obtain source ty opts where
    l: "parse_mount_line ?l = Some (source, mt_target ?m, ty, opts)" and
    named: "case mt_kind ?m of
       Host_image src fmt \<Rightarrow> ty = ''ext4'' \<and> opts = [] \<and> (\<exists>dev. source = ''/dev/'' @ dev \<and> drive ?d dev = [(src, fmt)])
     | Host_bind src \<Rightarrow> ty = ''9p'' \<and> opts = ''trans=virtio,version=9p2000.u'' \<and> share ?d source = [Some src]
     | Guest_bind src \<Rightarrow> ty = [] \<and> opts = [] \<and> source = src
     | Ram usage \<Rightarrow> ty = ''tmpfs'' \<and> source = ''tmpfs'' \<and> opts = ''size='' @ dec (unat usage div 1024) @ ''k''" by blast
  from mount_entry_runs [OF assms(4,5), of source "mt_target ?m" ty opts tr] obtain cs where
    "mount_entry W source (mt_target ?m) ty opts tr = Ret () (tr @ cs)" "filter is_mount cs =
    [Mount source (mt_target ?m) (if ty = [] then None else Some ty)
       (if ty = [] then [Ms_bind] else if ty = ''tmpfs'' then [Ms_nosuid, Ms_nodev] else []) opts]" by blast
  with l named show ?thesis
    by (cases "mt_kind ?m"; cases "mt_target ?m = ''/''")
      (auto simp: mount_line_def run_simps mounted_as_def mounts_source_def intro: exI [of _ "[]"])
qed

text \<open>The lines as \<open>fgets\<close> returns them.\<close>

lemma mount_cfg_lines_end: "\<forall>l \<in> set (mount_cfg_lines hb vd ms). \<exists>b. l = b @ [nl]"
  by (induction hb vd ms rule: mount_cfg_lines.induct) (auto split: prod.split)

lemma length_mount_cfg_lines [simp]: "length (mount_cfg_lines hb vd ms) = length ms"
  by (induction hb vd ms rule: mount_cfg_lines.induct) (auto split: prod.split)

lemma cfg_line_one_line: "plain_mount m \<Longrightarrow> vd < 159 \<Longrightarrow> nl \<notin> set (butlast (cfg_line hb vd m))"
  using plain_drive_letter [of vd] dec_plain [of hb] dec_plain
  by (cases "mt_kind m") (auto simp: cfg_line_def mount_fields_def plain_mount_def plain_def butlast_append)

lemma mount_lines_one_line:
  assumes "list_all plain_mount ms" "vd + length (images ms) < 159"
  shows "list_all (\<lambda>l. nl \<notin> set (butlast l)) (mount_cfg_lines hb vd ms)"
  using assms
proof (induction hb vd ms rule: mount_cfg_lines.induct)
  case (2 hb vd m ms)
  from 2(3) have "next_vd vd (mt_kind m) + length (images ms) < 159" "vd < 159"
    by (auto simp: next_counts(2) images_Cons [of m ms] simp del: images.simps(2))
  with 2 show ?case using cfg_line_one_line [of m vd hb]
    by (auto simp: cfg_line_def split: prod.splits)
qed simp

lemma mount_lines_read:
  assumes "list_all plain_mount ms" "vd + length (images ms) < 159"
    and "list_all (\<lambda>l. length l \<le> LINE_MAX) (mount_cfg_lines hb vd ms)"
  shows "fgets_lines LINE_MAX (concat (mount_cfg_lines hb vd ms)) = mount_cfg_lines hb vd ms"
proof -
  let ?ls = "mount_cfg_lines hb vd ms"
  have "map (\<lambda>l. l @ [nl]) (map butlast ?ls) = ?ls"
    using mount_cfg_lines_end [of hb vd ms] by (auto intro!: map_idI)
  moreover have "list_all (\<lambda>l. nl \<notin> set l \<and> length l < LINE_MAX) (map butlast ?ls)"
    using mount_lines_one_line [OF assms(1,2), of hb] assms(3) mount_cfg_lines_end [of hb vd ms]
    by (fastforce simp: list_all_iff)
  ultimately show ?thesis using fgets_lines_written [of LINE_MAX "map butlast ?ls"] by simp
qed

lemma mount_cfg_written:
  assumes "write_mount_cfg W c sd [] = Ret True tr"
  shows "written (sd @ ''/config/mounts.cfg'') tr = Some (concat (mount_cfg_lines 0 (length (cf_disks c)) (cf_mounts c)))"
  using write_lines_runs [of W "sd @ ''/config/mounts.cfg''" "mount_cfg_lines 0 (length (cf_disks c)) (cf_mounts c)" "[]"] assms
  by (auto simp: write_mount_cfg_def split: if_splits)

text \<open>
  C20. What the builder wrote to mounts.cfg makes the guest mount, in the order of the configuration and
  with no failure, every configured file system except the root: the source named in each mount call
  is the disk or share that carries the configured source, the configured path, or a RAM file system
  of the configured size.
\<close>

theorem guest_mounts_configuration:
  assumes "write_mount_cfg Wh c sd [] = Ret True trh"
    and "os_file W tr MOUNTS_CONFIG_FILE = written (sd @ ''/config/mounts.cfg'') trh"
    and "all_done W" "\<And>tr p. os_isdir W tr p = Some (isdir p)"
    and "list_all plain_mount (cf_mounts c)"
    and "list_all (\<lambda>l. length l \<le> LINE_MAX) (mount_cfg_lines 0 (length (cf_disks c)) (cf_mounts c))"
    and "length (cf_disks c) + length (images (cf_mounts c)) < 159"
  shows "\<exists>cs. with_lines W MOUNTS_CONFIG_FILE (each (mount_line W)) tr = Ret () (tr @ cs) \<and>
    list_all2 (mounts_source (add_devices (machine_devices G root cd c sd) domain_new))
      (filter (\<lambda>m. mt_target m \<noteq> ''/'') (cf_mounts c)) (filter is_mount cs)"
proof -
  let ?ls = "mount_cfg_lines 0 (length (cf_disks c)) (cf_mounts c)"
  let ?d = "add_devices (machine_devices G root cd c sd) domain_new"
  have "list_all2 (\<lambda>l m. \<forall>tr. \<exists>cs. mount_line W l tr = Ret () (tr @ cs) \<and> mounted_as ?d m (filter is_mount cs))
      ?ls (cf_mounts c)"
    using assms(3-5,7) by (auto simp: list_all2_conv_all_nth list_all_length intro!: mount_line_runs)
  from each_list_all2 [OF this, of tr] obtain css where
    "each (mount_line W) ?ls tr = Ret () (tr @ concat css)"
    "list_all2 (\<lambda>m cs. mounted_as ?d m (filter is_mount cs)) (cf_mounts c) css" by blast
  with mounted_as_concat [OF this(2)] mount_lines_read [OF assms(5,7,6)] show ?thesis
    by (intro exI [of _ "concat css"])
      (simp add: with_lines_def assms(2) mount_cfg_written [OF assms(1)])
qed

section \<open>An example\<close>

definition demo_config :: "nat config" where
  "demo_config = (config_init \<lparr>he_machine = ''x86_64'', he_euid = 0, he_egid = 0, he_user = ''joe'', he_home = ''/home/joe''\<rparr>
       (Service_generic [''/bin/ls'']))
     \<lparr>cf_mounts := [\<lparr>mt_target = ''/'', mt_kind = Host_image ''/img'' 8, mt_includes = []\<rparr>,
        \<lparr>mt_target = ''/data'', mt_kind = Host_bind ''/srv'', mt_includes = []\<rparr>,
        \<lparr>mt_target = ''/tmp'', mt_kind = Ram 4096, mt_includes = []\<rparr>],
      cf_disks := [\<lparr>dk_type = 1, dk_tag = ''db'', dk_source = ''/dev/sdb'', dk_format = 0\<rparr>]\<rparr>"

lemma demo_config_simps [simp]:
  "cf_mounts demo_config = [\<lparr>mt_target = ''/'', mt_kind = Host_image ''/img'' 8, mt_includes = []\<rparr>,
        \<lparr>mt_target = ''/data'', mt_kind = Host_bind ''/srv'', mt_includes = []\<rparr>,
        \<lparr>mt_target = ''/tmp'', mt_kind = Ram 4096, mt_includes = []\<rparr>]"
  "cf_disks demo_config = [\<lparr>dk_type = 1, dk_tag = ''db'', dk_source = ''/dev/sdb'', dk_format = 0\<rparr>]"
  "cf_username demo_config = ''joe''" "get_command demo_config = [''/bin/ls'']"
  "cf_class demo_config = Service_generic [''/bin/ls'']"
  by (simp_all add: demo_config_def config_init_def get_command_def)

lemma demo_plain: "plain_mount m" if "m \<in> set (cf_mounts demo_config)"
  using that by (auto simp: plain_mount_def plain_chars)

lemma all_done_demo [simp]: "all_done (demo_os files)"
  by (simp add: all_done_def demo_os_def)

lemma all_done_succeed: "all_done W \<Longrightarrow> all_succeed W tr cs"
  by (induction cs arbitrary: tr) auto

lemma write_lines_all_done: "all_done W \<Longrightarrow> \<exists>cs. write_lines W path ls tr = Ret True cs"
  using write_lines_runs [of W path ls tr] all_done_succeed [of W] by (auto split: if_splits)

lemma mounts_cfg_names_devices_witness:
  "\<exists>source ty opts.
    parse_mount_line (mount_cfg_lines 0 (length (cf_disks demo_config)) (cf_mounts demo_config) ! 1) =
      Some (source, ''/data'', ty, opts) \<and> ty = ''9p'' \<and>
    share (add_devices (machine_devices glib_ref True ''/etc'' demo_config ''/s'') domain_new) source = [Some ''/srv'']"
  using mounts_cfg_names_devices [of 1 demo_config glib_ref True "''/etc''" "''/s''"]
    demo_plain [of "cf_mounts demo_config ! 1"] by (auto simp del: mount_cfg_lines.simps)

lemma length_dec_digit: "n < 10 \<Longrightarrow> length (dec n) = 1"
  by (subst dec_step) simp

definition demo_guest :: os where
  "demo_guest = demo_os (\<lambda>f. if f = MOUNTS_CONFIG_FILE
     then Some (concat (mount_cfg_lines 0 (length (cf_disks demo_config)) (cf_mounts demo_config))) else None)"

lemma guest_mounts_configuration_witness:
  "\<exists>cs. with_lines demo_guest MOUNTS_CONFIG_FILE (each (mount_line demo_guest)) [] = Ret () cs \<and>
    list_all2 (mounts_source (add_devices (machine_devices glib_ref True ''/etc'' demo_config ''/s'') domain_new))
      (tl (cf_mounts demo_config)) (filter is_mount cs)"
proof -
  obtain trh where h: "write_mount_cfg (demo_os (\<lambda>_. None)) demo_config ''/s'' [] = Ret True trh"
    using write_lines_all_done [OF all_done_demo] unfolding write_mount_cfg_def by blast
  have "os_file demo_guest [] MOUNTS_CONFIG_FILE = written (''/s'' @ ''/config/mounts.cfg'') trh"
    unfolding mount_cfg_written [OF h] by (simp add: demo_guest_def demo_os_def del: mount_cfg_lines.simps)
  moreover have "all_done demo_guest" "\<And>tr p. os_isdir demo_guest tr p = Some True"
    by (simp_all add: demo_guest_def) (simp add: demo_os_def)
  moreover have "list_all plain_mount (cf_mounts demo_config)" using demo_plain by (simp add: list_all_iff)
  moreover have "list_all (\<lambda>l. length l \<le> LINE_MAX) (mount_cfg_lines 0 (length (cf_disks demo_config)) (cf_mounts demo_config))"
    by (simp add: mount_fields_def next_hb_def next_vd_def LINE_MAX_def length_dec_digit)
  ultimately show ?thesis
    using guest_mounts_configuration [OF h, of demo_guest "[]" "\<lambda>_. True" glib_ref True "''/etc''"] by auto
qed

end
