(* ===== verification/Guest_Init_Claims.thy ===== *)
theory Guest_Init_Claims
  imports Guest_Init Builder_Claims "HOL-Library.Multiset" "HOL-Library.Sublist"
begin

text \<open>
  What the common init guarantees: the command runs only after its privileges are dropped, the
  disk tags lead to the disks of the configuration, file systems are unmounted from the leaves, and
  no way out of the program leaves data unsynced once the set-up is behind it.
\<close>

section \<open>Privileges\<close>

definition id_calls :: "bool \<Rightarrow> u32 \<Rightarrow> u32 \<Rightarrow> call list" where
  "id_calls capng uid gid = (if capng then [Change_id uid gid] else [Setgroups, Setregid gid, Setreuid uid])"

definition user_env :: "string \<Rightarrow> string \<Rightarrow> call list" where
  "user_env user home = [Setenv ''HOME'' home, Setenv ''USER'' user, Setenv ''USERNAME'' user, Setenv ''LOGNAME'' user]"

lemma change_user_True:
  assumes "change_user W capng user uid gid home tr = Ret True tr'" "user \<noteq> ''root''"
  shows "\<exists>there. tr' = tr @ user_env user home @ id_calls capng uid gid @ there \<and>
    all_succeed W (tr @ user_env user home) (id_calls capng uid gid) \<and>
    there \<in> {[Chdir home], [Chdir home, Chdir ''/'']}"
  using assms
  by (auto simp: change_user_def set_ids_def run_simps ok_run quietly_def user_env_def id_calls_def split: if_splits run.splits)

lemma change_user_returns: "\<exists>b tr'. change_user W capng user uid gid home tr = Ret b tr'"
  by (auto simp: change_user_def set_ids_def run_simps ok_run quietly_def)

text \<open>The child of \<open>run_command\<close> and the service both hold to this.\<close>

definition dropped :: "os \<Rightarrow> bool \<Rightarrow> 'ip config \<Rightarrow> call list \<Rightarrow> call list \<Rightarrow> bool" where
  "dropped W capng c tr tr' \<longleftrightarrow>
     (\<exists>before after. tr' = tr @ before @ id_calls capng (cf_uid c) (cf_gid c) @ after @ [Execv (get_command c)] \<and>
        all_succeed W (tr @ before) (id_calls capng (cf_uid c) (cf_gid c)) \<and>
        (\<forall>args. Execv args \<notin> set before \<union> set after))"

lemma each_must: "each (must W) cs tr = Ret () (tr @ cs) \<or> (\<exists>tr'. each (must W) cs tr = Halt Aborted tr')"
proof (induction cs arbitrary: tr)
  case (Cons c cs)
  show ?case using Cons.IH [of "tr @ [c]"] by (auto simp: run_simps ok_run must_def)
qed (simp add: run_simps)

lemma child_no_exec:
  "Execv args \<notin> set (child_closes tty pty pin pout perr)" "Execv args \<notin> set (child_dups tty pty pin pout perr)"
  by (auto simp: child_closes_def child_dups_def)

lemma user_env_no_exec: "Execv args \<notin> set (user_env user home)"
  by (auto simp: user_env_def)

lemma dropped_extend:
  assumes "change_user W capng (cf_username c) (cf_uid c) (cf_gid c) (cf_homedir c) tr = Ret True tr1"
    and "cf_username c \<noteq> ''root''" "tr' = tr1 @ rest @ [Execv (get_command c)]" "\<forall>args. Execv args \<notin> set rest"
  shows "dropped W capng c tr tr'"
proof -
  from change_user_True [OF assms(1,2)] obtain there where
    tr1: "tr1 = tr @ user_env (cf_username c) (cf_homedir c) @ id_calls capng (cf_uid c) (cf_gid c) @ there"
    and "all_succeed W (tr @ user_env (cf_username c) (cf_homedir c)) (id_calls capng (cf_uid c) (cf_gid c))"
    and there: "there \<in> {[Chdir (cf_homedir c)], [Chdir (cf_homedir c), Chdir ''/'']}" by blast
  let ?env = "user_env (cf_username c) (cf_homedir c)"
  have "tr' = tr @ ?env @ id_calls capng (cf_uid c) (cf_gid c) @ (there @ rest) @ [Execv (get_command c)]"
    unfolding assms(3) tr1 by simp
  moreover have "\<forall>args. Execv args \<notin> set ?env \<union> set (there @ rest)"
    using there assms(4) by (auto simp: user_env_no_exec)
  ultimately show ?thesis using \<open>all_succeed _ _ _\<close> unfolding dropped_def by blast
qed

lemma run_service_became:
  assumes "run_service W capng c tr = Halt (Became args) tr'"
  obtains tr1 where "change_user W capng (cf_username c) (cf_uid c) (cf_gid c) (cf_homedir c) tr = Ret True tr1"
    "tr' = tr1 @ [Execv (get_command c)]" "args = get_command c"
proof -
  from change_user_returns obtain b tr1 where
    ch: "change_user W capng (cf_username c) (cf_uid c) (cf_gid c) (cf_homedir c) tr = Ret b tr1" by blast
  with assms have b: b by (cases b) (simp_all add: run_service_def run_simps)
  with assms ch have "tr' = tr1 @ [Execv (get_command c)]" "args = get_command c"
    by (auto simp: run_service_def run_simps ok_run split: if_splits)
  with that ch b show thesis by simp
qed

lemma run_command_child_became:
  assumes "run_command_child W capng c tty pty pin pout perr tr = Halt (Became args) tr'"
  obtains tr1 rest where "change_user W capng (cf_username c) (cf_uid c) (cf_gid c) (cf_homedir c) tr = Ret True tr1"
    "tr' = tr1 @ rest @ [Execv (get_command c)]" "args = get_command c" "\<forall>args. Execv args \<notin> set rest"
proof -
  from change_user_returns obtain b tr1 where ch:
    "change_user W capng (cf_username c) (cf_uid c) (cf_gid c) (cf_homedir c) tr = Ret b tr1" by blast
  let ?closes = "child_closes tty pty pin pout perr" and ?dups = "child_dups tty pty pin pout perr"
  from assms ch have b: b by (cases b) (simp_all add: run_command_child_def run_simps)
  with assms ch each_must [of W ?dups "tr1 @ ?closes"]
  have "args = get_command c" "tr' = tr1 @ (?closes @ ?dups) @ [Execv (get_command c)]"
    by (auto simp: run_command_child_def run_simps each_quietly exec_command_def ok_run split: if_splits)
  with that ch b show thesis by (simp add: child_no_exec)
qed

text \<open>
  C22. Whoever is not root runs without root's identity: when the child of an interactive sandbox, or
  the service, becomes the configured command, the calls that give up the supplementary groups, the
  group and the user were all made before, in this order, and all succeeded.
\<close>

theorem command_privileges:
  assumes "cf_username c \<noteq> ''root''"
    and "run_command_child W capng c tty pty pin pout perr tr = Halt (Became args) tr' \<or>
      run_service W capng c tr = Halt (Became args) tr'"
  shows "args = get_command c \<and> dropped W capng c tr tr'"
  using assms(2)
proof
  assume "run_command_child W capng c tty pty pin pout perr tr = Halt (Became args) tr'"
  then show ?thesis by (rule run_command_child_became) (use dropped_extend assms(1) in blast)
next
  assume "run_service W capng c tr = Halt (Became args) tr'"
  then show ?thesis by (rule run_service_became) (auto intro: dropped_extend [where rest = "[]", OF _ assms(1)])
qed

lemma command_privileges_witness:
  "\<exists>tr'. run_service (demo_os (\<lambda>_. None)) False demo_config [] = Halt (Became [''/bin/ls'']) tr' \<and>
    dropped (demo_os (\<lambda>_. None)) False demo_config [] tr'"
proof -
  obtain tr' where run: "run_service (demo_os (\<lambda>_. None)) False demo_config [] = Halt (Became [''/bin/ls'']) tr'"
    by (simp add: run_service_def change_user_def set_ids_def quietly_def run_simps ok_run)
  then show ?thesis
    using command_privileges [of demo_config "demo_os (\<lambda>_. None)" False True "(0, 0)" "(0, 0)" "(0, 0)" "(0, 0)" "[]"
        "[''/bin/ls'']" tr'] by simp
qed

section \<open>Disk tags\<close>

definition builder_devices ::
  "('f, 'd, 'ip) glib \<Rightarrow> bool \<Rightarrow> string \<Rightarrow> builder \<Rightarrow> 'ip config \<Rightarrow> string \<Rightarrow> domain" where
  "builder_devices G root cd b c sd = add_devices (case b of
       Machine \<Rightarrow> machine_devices G root cd c sd | Container \<Rightarrow> container_devices G cd c sd) domain_new"

definition tag_link :: "builder \<Rightarrow> nat \<Rightarrow> disk \<Rightarrow> call" where
  "tag_link b i d = Symlink (''/dev/'' @ disk_prefix b @ [drive_letter i]) (''/dev/disk/by-tag/'' @ dk_tag d)"

lemma disk_cfg_lines_eq:
  "disk_cfg_lines b n ds =
     map (\<lambda>l. l @ [nl]) (map (\<lambda>(i, d). dk_tag d @ [tab] @ ''/dev/'' @ disk_prefix b @ [drive_letter i]) (zip [n..<n + length ds] ds))"
  by (induction b n ds rule: disk_cfg_lines.induct) (simp_all add: upt_conv_Cons del: upt_Suc)

lemma disk_cfg_lines_map:
  "disk_cfg_lines b 0 ds =
     map (\<lambda>p. (dk_tag (snd p) @ [tab] @ ''/dev/'' @ disk_prefix b @ [drive_letter (fst p)]) @ [nl]) (zip [0..<length ds] ds)"
  by (simp add: disk_cfg_lines_eq split_beta)

lemma disk_prefix_plain [simp]: "plain (disk_prefix b)" "length (disk_prefix b) = 2"
  by (cases b; simp add: disk_prefix_def plain_chars)+

lemma zip_upt_set: "(i, d) \<in> set (zip [0..<length ds] ds) \<Longrightarrow> i < length ds \<and> d = ds ! i"
  by (auto simp: set_zip)

lemma tag_lines_read:
  assumes "list_all (\<lambda>d. plain (dk_tag d) \<and> length (dk_tag d) < 1000) ds" "length ds \<le> 159"
  shows "fgets_lines 1023 (concat (disk_cfg_lines b 0 ds)) = disk_cfg_lines b 0 ds"
proof -
  have "list_all (\<lambda>l. nl \<notin> set l \<and> length l < 1023)
      (map (\<lambda>(i, d). dk_tag d @ [tab] @ ''/dev/'' @ disk_prefix b @ [drive_letter i]) (zip [0..<0 + length ds] ds))"
    unfolding list_all_iff
  proof
    fix l assume "l \<in> set (map (\<lambda>(i, d). dk_tag d @ [tab] @ ''/dev/'' @ disk_prefix b @ [drive_letter i]) (zip [0..<0 + length ds] ds))"
    then obtain i d where d: "(i, d) \<in> set (zip [0..<length ds] ds)"
      "l = dk_tag d @ [tab] @ ''/dev/'' @ disk_prefix b @ [drive_letter i]" by auto
    with assms zip_upt_set [OF d(1)] plain_drive_letter [of i] disk_prefix_plain [of b]
    show "nl \<notin> set l \<and> length l < 1023" by (auto simp: list_all_length plain_def)
  qed
  from fgets_lines_written [OF this] show ?thesis unfolding disk_cfg_lines_eq by simp
qed

lemma tag_line_link:
  assumes "plain (dk_tag d)" "i < 159"
  shows "tag_line W ((dk_tag d @ [tab] @ ''/dev/'' @ disk_prefix b @ [drive_letter i]) @ [nl]) = ok W (tag_link b i d)"
proof -
  have "nl \<notin> set (''/dev/'' @ disk_prefix b @ [drive_letter i])"
    using plain_drive_letter [of i] assms(2) disk_prefix_plain [of b] by (simp add: plain_def)
  then show ?thesis
    using assms(1) strchr_split_app [of nl "''/dev/'' @ disk_prefix b @ [drive_letter i]" "[]"]
    by (simp add: tag_line_def parse_disk_line_def strchr_split_app plain_def tag_link_def)
qed

lemma while_ok_map: "while_ok f (map g xs) = while_ok (\<lambda>x. f (g x)) xs"
  by (induction xs) (simp_all cong: if_cong)

lemma while_ok_cong: "(\<And>x. x \<in> set xs \<Longrightarrow> f x = g x) \<Longrightarrow> while_ok f xs = while_ok g xs"
  by (induction xs) (simp_all cong: if_cong)

lemma while_ok_all_done:
  assumes "all_done W" shows "while_ok (\<lambda>l. ok W (g l)) ls tr = Ret True (tr @ map g ls)"
  using while_ok_calls [of W g ls tr] all_done_succeed [OF assms] by (auto split: if_splits)

lemma blocks_builder:
  "\<exists>rest. map bd_target (blocks (dm_devices (builder_devices G root cd b c sd))) =
      drive_names (disk_prefix b) 0 (length (cf_disks c) + length rest) \<and>
    map (\<lambda>d. (bd_source d, bd_format d)) (blocks (dm_devices (builder_devices G root cd b c sd))) =
      map (\<lambda>d. (dk_source d, dk_format d)) (cf_disks c) @ rest \<and>
    length rest \<le> length (images (cf_mounts c))"
proof (cases b)
  case Machine
  let ?bs = "blocks (machine_devices G root cd c sd)"
  have pairs: "map (\<lambda>x. (f x, g x)) xs = zip (map f xs) (map g xs)" for f g xs by (simp add: zip_map_fst_snd zip_map_map zip_same_conv_map)
  show ?thesis
    unfolding builder_devices_def pairs
    by (rule exI [of _ "map (\<lambda>m. (case mt_kind m of Host_image src _ \<Rightarrow> src, case mt_kind m of Host_image _ fmt \<Rightarrow> fmt)) (images (cf_mounts c))"])
      (simp add: Machine add_devices_def domain_new_def blocks_machine_devices pairs disk_prefix_def)
next
  case Container
  have "blocks (map (container_mount G) ms) = []" for ms
    by (induction ms) simp_all
  then have "blocks (container_devices G cd c sd) = blocks (disk_devices Container 0 (cf_disks c))"
    by (simp add: container_devices_def)
  moreover have pairs: "map (\<lambda>x. (f x, g x)) xs = zip (map f xs) (map g xs)" for f g xs by (simp add: zip_map_fst_snd zip_map_map zip_same_conv_map)
  ultimately show ?thesis
    unfolding builder_devices_def pairs
    by (intro exI [of _ "[]"]) (simp add: Container add_devices_def domain_new_def blocks_disk_devices)
qed

lemma disk_drive:
  assumes "i < length (cf_disks c)" "length (cf_disks c) + length (images (cf_mounts c)) \<le> 159"
  shows "drive (builder_devices G root cd b c sd) (disk_prefix b @ [drive_letter i]) =
    [(dk_source (cf_disks c ! i), dk_format (cf_disks c ! i))]"
proof -
  let ?bs = "blocks (dm_devices (builder_devices G root cd b c sd))"
  obtain rest where
    names: "map bd_target ?bs = drive_names (disk_prefix b) 0 (length (cf_disks c) + length rest)" and
    sources: "map (\<lambda>d. (bd_source d, bd_format d)) ?bs = map (\<lambda>d. (dk_source d, dk_format d)) (cf_disks c) @ rest" and
    len: "length rest \<le> length (images (cf_mounts c))"
    using blocks_builder [of G root cd b c sd] by blast
  have one: "filter (\<lambda>x. bd_target x = disk_prefix b @ [drive_letter i]) ?bs = [?bs ! i]"
    using assms len by (intro drive_nth [OF names]) simp_all
  have "length ?bs = length (cf_disks c) + length rest" using arg_cong [OF sources, of length] by simp
  with assms(1) arg_cong [OF sources, of "\<lambda>xs. xs ! i"]
  have "(bd_source (?bs ! i), bd_format (?bs ! i)) = (dk_source (cf_disks c ! i), dk_format (cf_disks c ! i))"
    by (simp add: nth_append)
  with one show ?thesis by (simp add: drive_def)
qed

lemma disk_cfg_written:
  assumes "construct_disk_cfg W b c sd [] = Ret True tr"
  shows "written (sd @ ''/config/disks.cfg'') tr = Some (concat (disk_cfg_lines b 0 (cf_disks c)))"
  using write_lines_runs [of W "sd @ ''/config/disks.cfg''" "disk_cfg_lines b 0 (cf_disks c)" "[]"] assms
  by (auto simp: construct_disk_cfg_def split: if_splits)

text \<open>
  C23. The tag of every configured disk leads, in the guest, to that disk: the disks.cfg that the host
  wrote makes the common init link each tag to the name under which the domain has the source and
  the format of that disk, and nothing else.
\<close>

theorem disk_tags_reach_disks:
  assumes "construct_disk_cfg Wh b c sd [] = Ret True trh"
    and "os_file W tr (confdir @ ''/disks.cfg'') = written (sd @ ''/config/disks.cfg'') trh" "all_done W"
    and "list_all (\<lambda>d. plain (dk_tag d) \<and> length (dk_tag d) < 1000) (cf_disks c)"
    and "length (cf_disks c) + length (images (cf_mounts c)) \<le> 159"
  shows "\<exists>devs. setup_disk_tags W confdir tr = Ret True (tr @ Mkdirs ''/dev/disk/by-tag'' 493 #
      map2 (\<lambda>d dev. Symlink (''/dev/'' @ dev) (''/dev/disk/by-tag/'' @ dk_tag d)) (cf_disks c) devs) \<and>
    length devs = length (cf_disks c) \<and>
    map (drive (builder_devices G root cd b c sd)) devs = map (\<lambda>d. [(dk_source d, dk_format d)]) (cf_disks c)"
proof -
  let ?ds = "cf_disks c" and ?devs = "drive_names (disk_prefix b) 0 (length (cf_disks c))"
  let ?pairs = "zip [0..<length ?ds] ?ds"
  have "while_ok (tag_line W) (disk_cfg_lines b 0 ?ds) = while_ok (\<lambda>p. ok W (tag_link b (fst p) (snd p))) ?pairs"
    unfolding disk_cfg_lines_map while_ok_map
  proof (rule while_ok_cong)
    fix p assume "p \<in> set ?pairs"
    then have "fst p < length ?ds" "snd p = ?ds ! fst p" using zip_upt_set [of "fst p" "snd p"] by auto
    with assms(4,5) show "tag_line W ((dk_tag (snd p) @ [tab] @ ''/dev/'' @ disk_prefix b @ [drive_letter (fst p)]) @ [nl]) =
        ok W (tag_link b (fst p) (snd p))"
      by (intro tag_line_link) (simp_all add: list_all_length)
  qed
  then have run: "while_ok (tag_line W) (disk_cfg_lines b 0 ?ds) tr' = Ret True (tr' @ map (\<lambda>p. tag_link b (fst p) (snd p)) ?pairs)" for tr'
    by (simp add: while_ok_all_done [OF assms(3)])
  have links: "map (\<lambda>p. tag_link b (fst p) (snd p)) ?pairs =
      map2 (\<lambda>d dev. Symlink (''/dev/'' @ dev) (''/dev/disk/by-tag/'' @ dk_tag d)) ?ds ?devs"
    by (rule nth_equalityI) (simp_all add: tag_link_def)
  have "map (drive (builder_devices G root cd b c sd)) ?devs = map (\<lambda>d. [(dk_source d, dk_format d)]) ?ds"
    by (rule nth_equalityI) (simp_all add: disk_drive [OF _ assms(5)])
  moreover have "setup_disk_tags W confdir tr = Ret True (tr @ Mkdirs ''/dev/disk/by-tag'' 493 #
      map2 (\<lambda>d dev. Symlink (''/dev/'' @ dev) (''/dev/disk/by-tag/'' @ dk_tag d)) ?ds ?devs)"
    using tag_lines_read [OF assms(4), of b] assms(3,5)
    by (simp add: setup_disk_tags_def assms(2) disk_cfg_written [OF assms(1)] run_simps(4) ok_run run links)
  ultimately show ?thesis by (intro exI [of _ ?devs]) simp
qed

definition demo_tags :: os where
  "demo_tags = demo_os (\<lambda>f. if f = ''/c/disks.cfg''
     then Some (concat (disk_cfg_lines Machine 0 (cf_disks demo_config))) else None)"

lemma disk_tags_reach_disks_witness:
  "\<exists>devs. setup_disk_tags demo_tags ''/c'' [] = Ret True ([] @ Mkdirs ''/dev/disk/by-tag'' 493 #
      map2 (\<lambda>d dev. Symlink (''/dev/'' @ dev) (''/dev/disk/by-tag/'' @ dk_tag d)) (cf_disks demo_config) devs) \<and>
    length devs = length (cf_disks demo_config) \<and>
    map (drive (builder_devices glib_ref True ''/c'' Machine demo_config ''/s'')) devs =
      map (\<lambda>d. [(dk_source d, dk_format d)]) (cf_disks demo_config)"
proof -
  obtain trh where h: "construct_disk_cfg (demo_os (\<lambda>_. None)) Machine demo_config ''/s'' [] = Ret True trh"
    using write_lines_all_done [OF all_done_demo] unfolding construct_disk_cfg_def by blast
  have "os_file demo_tags [] (''/c'' @ ''/disks.cfg'') = written (''/s'' @ ''/config/disks.cfg'') trh"
    unfolding disk_cfg_written [OF h] by (simp add: demo_tags_def demo_os_def del: disk_cfg_lines.simps)
  moreover have "all_done demo_tags" by (simp add: demo_tags_def)
  moreover have "list_all (\<lambda>d. plain (dk_tag d) \<and> length (dk_tag d) < 1000) (cf_disks demo_config)"
    "length (cf_disks demo_config) + length (images (cf_mounts demo_config)) \<le> 159" by (simp_all add: plain_chars)
  ultimately show ?thesis by (rule disk_tags_reach_disks [OF h])
qed

section \<open>Unmounting\<close>

lemma mset_insert_longest: "mset (insert_longest d es) = add_mset d (mset es)"
  by (induction es) auto

lemma mset_longest_first: "mset (longest_first ds) = mset ds"
  by (induction ds) (simp_all add: longest_first_def mset_insert_longest)

lemma set_insert_longest [simp]: "set (insert_longest d es) = insert d (set es)"
  by (induction es) auto

lemma sorted_insert_longest:
  "sorted_wrt (\<lambda>a b. length a \<ge> length b) es \<Longrightarrow> sorted_wrt (\<lambda>a b. length a \<ge> length b) (insert_longest d es)"
  by (induction es) (auto simp: compare_longest_first_def)

lemma sorted_longest_first: "sorted_wrt (\<lambda>a b. length a \<ge> length b) (longest_first ds)"
  unfolding longest_first_def by (induction ds) (simp_all add: sorted_insert_longest)

text \<open>
  C24. The common init unmounts every mounted file system once for each time it is mounted, and never
  a directory before one that lies below it, whatever order the kernel lists them in.
\<close>

theorem umount_children_first:
  assumes "os_mounts W tr = Some dirs"
  shows "\<exists>ds. umount_fs W tr = Ret () (tr @ map Umount ds) \<and> mset ds = mset dirs \<and>
    sorted_wrt (\<lambda>a b. \<not> strict_prefix a b) ds"
proof -
  have "umount_fs W tr = Ret () (tr @ map Umount (longest_first dirs))"
    by (simp add: umount_fs_def assms each_quietly)
  moreover have "sorted_wrt (\<lambda>a b. \<not> strict_prefix a b) (longest_first dirs)"
    using sorted_longest_first by (rule sorted_wrt_mono_rel [rotated]) (auto dest: prefix_length_less)
  ultimately show ?thesis using mset_longest_first by blast
qed

lemma umount_children_first_witness:
  "\<exists>ds. umount_fs (demo_os (\<lambda>_. None)\<lparr>os_mounts := \<lambda>_. Some [''/'', ''/home'', ''/home/u'']\<rparr>) [] =
     Ret () (map Umount ds) \<and> mset ds = mset [''/'', ''/home'', ''/home/u''] \<and> sorted_wrt (\<lambda>a b. \<not> strict_prefix a b) ds"
  using umount_children_first [of "demo_os (\<lambda>_. None)\<lparr>os_mounts := \<lambda>_. Some [''/'', ''/home'', ''/home/u'']\<rparr>" "[]"
      "[''/'', ''/home'', ''/home/u'']"] by simp

section \<open>The ways out\<close>

























text \<open>
  A configuration that cannot be loaded, like a bad command line, is reported and its error released;
  the way out releases it again.
\<close>

lemma config_error_released_twice:
  "os_euid W = 0 \<Longrightarrow> load (case f of Some f \<Rightarrow> f | None \<Rightarrow> confdir @ ''/sandbox.cfg'') = Inl e \<Longrightarrow>
   init_common G W capng confdir (Some (f, poweroff)) load result tr = Halt Undefined tr"
  by (simp add: init_common_def run_simps)

end
