(* ===== verification/Builder_Effects.thy ===== *)
theory Builder_Effects
  imports Builder_Claims
begin

text \<open>
  What the builder does to the host. Every program of the builder returns, whatever the system
  answers, and changes only the files of the sandbox's state directory and of a temporary directory
  that it removes again; the two clean-up operations delete what it leaves in the state directory.
\<close>

section \<open>Programs that return\<close>

text \<open>\<open>only F R p\<close>: \<open>p\<close> always returns, with a value in \<open>R\<close>, and makes only calls in \<open>F\<close>.\<close>

definition only :: "(call \<Rightarrow> bool) \<Rightarrow> ('a \<Rightarrow> bool) \<Rightarrow> 'a prog \<Rightarrow> bool" where
  "only F R p \<longleftrightarrow> (\<forall>tr. \<exists>x cs. p tr = Ret x (tr @ cs) \<and> list_all F cs \<and> R x)"

abbreviation any :: "'a \<Rightarrow> bool" where
  "any x \<equiv> True"

lemma onlyD: "only F R p \<Longrightarrow> \<exists>x cs. p tr = Ret x (tr @ cs) \<and> list_all F cs \<and> R x"
  by (simp add: only_def)

lemma only_ret: "R x \<Longrightarrow> only F R (ret x)"
  by (simp add: only_def ret_def)

lemma only_sys: "F c \<Longrightarrow> only F any (sys W c)"
  by (simp add: only_def sys_def)

lemma only_ok: "F c \<Longrightarrow> only F any (ok W c)"
  by (simp add: only_def ok_run)

lemma only_andthen:
  assumes "only F S p" "\<And>x. S x \<Longrightarrow> only F R (f x)"
  shows "only F R (andthen p f)"
  unfolding only_def
proof
  fix tr
  from assms(1) obtain x cs where p: "p tr = Ret x (tr @ cs)" "list_all F cs" "S x" by (blast dest: onlyD)
  from onlyD [OF assms(2) [OF p(3)], of "tr @ cs"] obtain y ds where
    "f x (tr @ cs) = Ret y ((tr @ cs) @ ds)" "list_all F ds" "R y" by blast
  with p show "\<exists>x cs. andthen p f tr = Ret x (tr @ cs) \<and> list_all F cs \<and> R x"
    by (intro exI [of _ y] exI [of _ "cs @ ds"]) (simp add: andthen_def)
qed

lemma only_reading: "(\<And>x. only F R (f x)) \<Longrightarrow> only F R (\<lambda>tr. f (g tr) tr)"
  by (simp add: only_def)

lemma only_weaken: "only F S p \<Longrightarrow> (\<And>x. S x \<Longrightarrow> R x) \<Longrightarrow> only F R p"
  by (fastforce simp: only_def)

lemma only_gate:
  "only F any p \<Longrightarrow> only F R q \<Longrightarrow> only F R r \<Longrightarrow> only F R (andthen p (\<lambda>b. if \<not> b then q else r))"
  by (rule only_andthen) auto

lemma only_while_ok: "(\<And>x. x \<in> set xs \<Longrightarrow> only F any (f x)) \<Longrightarrow> only F any (while_ok f xs)"
proof (induction xs)
  case (Cons x xs)
  then have "only F any (if b then while_ok f xs else ret False)" for b by (auto intro: only_ret)
  moreover from Cons.prems have "only F any (f x)" by simp
  ultimately show ?case unfolding while_ok.simps by (rule only_andthen [rotated])
qed (simp add: only_ret)

lemma only_both: "only F any p \<Longrightarrow> only F any q \<Longrightarrow> only F any (both p q)"
  unfolding both_def by (intro only_andthen only_ret) auto

lemma only_all_of: "(\<And>x. x \<in> set xs \<Longrightarrow> only F any (f x)) \<Longrightarrow> only F any (all_of f xs)"
  by (induction xs) (auto intro: only_ret only_both)

lemma andthen_Ret: "p tr = Ret x tr' \<Longrightarrow> andthen p f tr = f x tr'"
  by (simp add: andthen_def)

lemma andthen_assoc: "andthen (andthen p f) g = andthen p (\<lambda>x. andthen (f x) g)"
  by (auto simp: andthen_def split: run.split)

section \<open>Finding the modules\<close>

definition incomparable :: "string \<Rightarrow> string \<Rightarrow> bool" where
  "incomparable a b \<longleftrightarrow> strip_prefix a b = None \<and> strip_prefix b a = None"

lemma strip_prefix_comparable:
  "strip_prefix a s \<noteq> None \<Longrightarrow> strip_prefix b s \<noteq> None \<Longrightarrow> \<not> incomparable a b"
  by (auto simp: incomparable_def strip_prefix_Some append_eq_append_conv2)

lemma initrd_modules_incomparable: "sorted_wrt incomparable (initrd_modules c)"
  by (simp add: initrd_modules_def incomparable_def)

lemma one_match:
  "sorted_wrt incomparable names \<Longrightarrow> length (filter (\<lambda>n. strip_prefix n name \<noteq> None) names) \<le> 1"
proof (induction names)
  case (Cons n names)
  show ?case
  proof (cases "strip_prefix n name = None")
    case False
    with Cons.prems have "filter (\<lambda>n. strip_prefix n name \<noteq> None) names = []"
      using strip_prefix_comparable [OF False] by (fastforce simp: filter_empty_conv simp del: not_None_eq)
    then show ?thesis by simp
  qed (use Cons in simp)
qed simp

lemma module_matches_some:
  assumes "sorted_wrt incomparable names"
  shows "None \<notin> set (module_matches names name path)"
proof (cases "filter (\<lambda>n. strip_prefix n name \<noteq> None) names")
  case (Cons n others)
  with one_match [OF assms, of name] have "others = []" by (simp only: list.size) (cases others; simp)
  with Cons show ?thesis by (simp only: module_matches_def list.case) simp
qed (simp add: module_matches_def)

lemma find_files_some:
  "sorted_wrt incomparable names \<Longrightarrow> find_files names dir children = Some fs \<Longrightarrow> None \<notin> set fs"
  by (induction names dir children arbitrary: fs rule: find_files.induct)
    (auto split: if_splits node.splits option.splits dest: module_matches_some)

section \<open>The files the builder touches\<close>

definition in_dir :: "string \<Rightarrow> string \<Rightarrow> bool" where
  "in_dir d f \<longleftrightarrow> (\<exists>n. f = d @ ''/'' @ n)"

definition temporary :: "os \<Rightarrow> string \<Rightarrow> bool" where
  "temporary W d \<longleftrightarrow> (\<exists>tr t. d = os_tempdir W tr t)"

definition libs_of :: "string \<Rightarrow> string" where
  "libs_of sd = sd @ ''/config/.libs''"

definition state_files :: "builder \<Rightarrow> string \<Rightarrow> string list" where
  "state_files b sd = (case b of
       Machine \<Rightarrow> [sd @ ''/initrd.img'', sd @ ''/vmlinuz'', sd @ ''/config/mounts.cfg'', sd @ ''/config/disks.cfg'']
     | Container \<Rightarrow> [sd @ ''/config/disks.cfg''])"

definition own_file :: "os \<Rightarrow> builder \<Rightarrow> string \<Rightarrow> string \<Rightarrow> bool" where
  "own_file W b sd f \<longleftrightarrow> f \<in> set (state_files b sd) \<or>
     in_dir (libs_of sd) f \<or> (\<exists>d. temporary W d \<and> (f = d \<or> in_dir d f))"

definition builder_call :: "os \<Rightarrow> builder \<Rightarrow> string \<Rightarrow> call \<Rightarrow> bool" where
  "builder_call W b sd c = (case c of
       Open_replace f \<Rightarrow> own_file W b sd f
     | Open_new f \<Rightarrow> own_file W b sd f
     | Write f _ \<Rightarrow> own_file W b sd f
     | Close f \<Rightarrow> own_file W b sd f
     | Copy_file _ f \<Rightarrow> own_file W b sd f
     | Delete_file f \<Rightarrow> own_file W b sd f
     | Mkdirs d _ \<Rightarrow> d = libs_of sd
     | Mkdtemp _ \<Rightarrow> True
     | Umask _ \<Rightarrow> True
     | Umask_restore \<Rightarrow> True
     | Spawn argv \<Rightarrow> \<exists>p. argv = [LDD_PATH, p]
     | Spawn_line l \<Rightarrow> \<exists>d. temporary W d \<and> l = initrd_command d (sd @ ''/initrd.img'')
     | _ \<Rightarrow> False)"

abbreviation builds :: "os \<Rightarrow> builder \<Rightarrow> string \<Rightarrow> 'a prog \<Rightarrow> bool" where
  "builds W b sd p \<equiv> only (builder_call W b sd) any p"

lemma own_temporary [simp]:
  "temporary W d \<Longrightarrow> own_file W b sd d" "temporary W d \<Longrightarrow> own_file W b sd (d @ CHR ''/'' # n)"
  by (auto simp: own_file_def in_dir_def)

lemma own_libs [simp]: "own_file W b sd (libs_of sd @ CHR ''/'' # n)"
  by (auto simp: own_file_def in_dir_def)

lemma write_lines_builds: "own_file W b sd f \<Longrightarrow> builds W b sd (write_lines W f ls)"
  unfolding write_lines_def
  by (intro only_andthen [where S = any] only_gate only_while_ok only_ok only_ret)
    (auto simp: builder_call_def intro!: only_ret only_andthen [where S = any] only_sys)

lemma copy_file_builds: "builds W b sd (copy_file W path (libs_of sd) newname)"
proof -
  have "builds W b sd (if e then ret True else ok W (Copy_file path (libs_of sd @ ''/'' @ n)))" for e n
    by (auto simp: builder_call_def own_libs intro!: only_ret only_ok)
  then show ?thesis unfolding copy_file_def Let_def by (rule only_reading)
qed

lemma copy_program_builds: "builds W b sd (copy_program W program (libs_of sd))"
proof -
  have lines: "builds W b sd (while_ok (\<lambda>l. case ldd_entry l of None \<Rightarrow> ret True
      | Some (start, newname) \<Rightarrow> copy_file W start (libs_of sd) newname) (ldd_lines out))" for out
    by (rule only_while_ok) (auto split: option.split intro: only_ret copy_file_builds)
  show ?thesis
    unfolding copy_program_def
    by (intro only_gate copy_file_builds only_ret only_ok only_reading [OF lines])
      (simp_all add: builder_call_def)
qed

lemma copy_init_builds: "builds W b sd (copy_init W b' sd)"
  unfolding copy_init_def Let_def libs_of_def [symmetric]
  by (intro only_andthen [where S = any] only_sys only_while_ok copy_program_builds)
    (auto simp: builder_call_def libs_of_def)

lemma write_modules_builds: "own_file W b sd f \<Longrightarrow> builds W b sd (write_modules W f ls)"
  unfolding write_modules_def
  by (intro only_gate only_while_ok only_ok only_ret) (simp_all add: builder_call_def)

lemma populate_tmpdir_builds:
  assumes d: "temporary W d" and names: "sorted_wrt incomparable (ir_modules ir)"
  shows "builds W b sd (populate_tmpdir W moddir d ir)"
proof -
  have copies: "builds W b sd (while_ok (\<lambda>f. case f of None \<Rightarrow> halt Undefined
      | Some p \<Rightarrow> ok W (Copy_file p (d @ ''/'' @ path_basename p))) files)" if "find_modules ir moddir = Some files" for files
  proof (rule only_while_ok)
    fix f assume "f \<in> set files"
    with that names find_files_some obtain p where "f = Some p"
      by (cases f) (auto simp: find_modules_def split: option.splits node.splits)
    then show "builds W b sd (case f of None \<Rightarrow> halt Undefined | Some p \<Rightarrow> ok W (Copy_file p (d @ ''/'' @ path_basename p)))"
      using d by (simp add: only_ok builder_call_def)
  qed
  have "builds W b sd (case find_modules ir moddir of None \<Rightarrow> ret False
      | Some files \<Rightarrow> andthen (while_ok (\<lambda>f. case f of None \<Rightarrow> halt Undefined
            | Some p \<Rightarrow> ok W (Copy_file p (d @ ''/'' @ path_basename p))) files)
          (\<lambda>copied. if \<not> copied then ret False
             else write_modules W (d @ ''/modules'') (module_list (ir_modules ir) (map the files))))"
    using d by (auto split: option.split intro!: only_ret only_gate copies write_modules_builds)
  moreover have "builds W b sd (ok W (Copy_file (ir_init ir) (d @ ''/init'')))"
    using d by (simp add: only_ok builder_call_def)
  ultimately show ?thesis unfolding populate_tmpdir_def by (intro only_gate only_ret) simp_all
qed

lemma remove_tmpdir_runs:
  assumes "temporary W d"
  shows "\<exists>r e cs. remove_tmpdir W d report tr = Ret (r, e) (tr @ cs @ [Delete_file d]) \<and>
    list_all (builder_call W b sd) cs \<and> (report \<and> \<not> r \<longrightarrow> e)"
proof -
  have all: "builds W b sd (all_of (\<lambda>n. ok W (Delete_file (d @ ''/'' @ n))) names)" for names
    using assms by (intro only_all_of only_ok) (simp add: builder_call_def)
  obtain a names where l: "os_listdir W tr d = (a, names)" by (cases "os_listdir W tr d")
  from onlyD [OF all, of names tr] obtain v cs where
    "all_of (\<lambda>n. ok W (Delete_file (d @ ''/'' @ n))) names tr = Ret v (tr @ cs)" "list_all (builder_call W b sd) cs" by blast
  with l show ?thesis by (cases a) (auto simp: remove_tmpdir_def run_simps ok_run)
qed

lemma build_image_runs:
  assumes "temporary W d" "sorted_wrt incomparable (ir_modules ir)" "out = sd @ ''/initrd.img''"
  shows "\<exists>b cs. andthen (populate_tmpdir W moddir d ir)
      (\<lambda>populated. if populated then create_initrd W d out else ret False) tr = Ret b (tr @ cs) \<and>
    list_all (builder_call W Machine sd) cs \<and> (b \<longrightarrow> Spawn_line (initrd_command d out) \<in> set cs)"
proof -
  obtain x cs where "populate_tmpdir W moddir d ir tr = Ret x (tr @ cs)" "list_all (builder_call W Machine sd) cs"
    using onlyD [OF populate_tmpdir_builds [OF assms(1,2)], where tr = tr] by blast
  moreover have "builder_call W Machine sd (Spawn_line (initrd_command d out))"
    using assms(1,3) by (auto simp: builder_call_def)
  ultimately show ?thesis
    by (cases x) (auto simp: run_simps create_initrd_def ok_run)
qed

lemma initrd_construct_runs:
  assumes ir: "ir = mkinitrd_config W c" and out: "out = sd @ ''/initrd.img''"
    and tr1: "tr1 = tr @ [Umask 63, Mkdtemp (tempdir_template W)]"
  shows "\<exists>r e mid. initrd_construct W moddir ir out tr = Ret (r, e) (tr1 @ mid @ [Umask_restore]) \<and>
    (if os_call W (tr @ [Umask 63]) (Mkdtemp (tempdir_template W)) = Done
     then Delete_file (os_tempdir W (tr @ [Umask 63]) (tempdir_template W)) \<in> set mid else \<not> r) \<and>
    (if r then \<exists>dir. Spawn_line (initrd_command dir out) \<in> set mid else e \<and> last mid = Delete_file out) \<and>
    list_all (builder_call W Machine sd) mid"
proof (cases "os_call W (tr @ [Umask 63]) (Mkdtemp (tempdir_template W)) = Done")
  case False
  then show ?thesis
    by (intro exI [of _ False] exI [of _ True] exI [of _ "[Delete_file out]"])
      (simp add: initrd_construct_def create_tempdir_def run_simps ok_run builder_call_def own_file_def state_files_def out tr1)
next
  case True
  obtain d where d_def: "os_tempdir W (tr @ [Umask 63]) (tempdir_template W) = d" by blast
  then have d: "temporary W d" by (auto simp: temporary_def)
  have names: "sorted_wrt incomparable (ir_modules ir)"
    unfolding ir mkinitrd_config_eq using initrd_modules_incomparable by simp
  let ?build = "andthen (populate_tmpdir W moddir d ir) (\<lambda>populated. if populated then create_initrd W d out else ret False)"
  let ?remove = "\<lambda>built. andthen (remove_tmpdir W d built) (\<lambda>(removed, reported). ret (built \<and> removed, \<not> built \<or> reported))"
  let ?finish = "\<lambda>(result, reported). andthen (if result then ret () else andthen (sys W (Delete_file out)) (\<lambda>_. ret ()))
      (\<lambda>_. andthen (sys W Umask_restore) (\<lambda>_. ret (result, reported)))"
  obtain b cs where built: "?build tr1 = Ret b (tr1 @ cs)"
    "list_all (builder_call W Machine sd) cs" "b \<longrightarrow> Spawn_line (initrd_command d out) \<in> set cs"
    using build_image_runs [OF d names out] by blast
  obtain x e ds where removed: "remove_tmpdir W d b (tr1 @ cs) = Ret (x, e) ((tr1 @ cs) @ ds @ [Delete_file d])"
    "list_all (builder_call W Machine sd) ds" "b \<and> \<not> x \<longrightarrow> e" using remove_tmpdir_runs [OF d] by blast
  let ?cs = "cs @ ds @ [Delete_file d]"
  let ?mid = "?cs @ (if b \<and> x then [] else [Delete_file out])"
  have "?remove b (tr1 @ cs) = Ret (b \<and> x, \<not> b \<or> e) (tr1 @ ?cs)"
    by (subst andthen_Ret [where tr = "tr1 @ cs" and p = "remove_tmpdir W d b", OF removed(1)]) (simp add: ret_def)
  then have body: "andthen ?build ?remove tr1 = Ret (b \<and> x, \<not> b \<or> e) (tr1 @ ?cs)"
    by (subst andthen_Ret [where p = ?build and tr = tr1, OF built(1)])
  have finish: "?finish (b \<and> x, \<not> b \<or> e) (tr1 @ ?cs) = Ret (b \<and> x, \<not> b \<or> e) (tr1 @ ?mid @ [Umask_restore])"
    by (cases b; cases x; simp add: run_simps)
  have all: "andthen (andthen ?build ?remove) ?finish tr1 = Ret (b \<and> x, \<not> b \<or> e) (tr1 @ ?mid @ [Umask_restore])"
    using andthen_Ret [where p = "andthen ?build ?remove" and f = ?finish and tr = tr1, OF body] finish by (rule trans)
  have made: "create_tempdir W (tr @ [Umask 63]) = Ret (Some d) tr1"
    using True by (simp add: create_tempdir_def run_simps ok_run tr1 d_def)
  have run: "initrd_construct W moddir ir out tr = Ret (b \<and> x, \<not> b \<or> e) (tr1 @ ?mid @ [Umask_restore])"
    unfolding initrd_construct_def
    by (subst andthen_Ret [where tr = tr and p = "sys W (Umask 63)", OF run_simps(3)],
        subst andthen_Ret [where tr = "tr @ [Umask 63]" and p = "create_tempdir W", OF made], subst option.case, rule all)
  have "builder_call W Machine sd (Delete_file d)" "builder_call W Machine sd (Delete_file out)"
    using d by (simp_all add: builder_call_def) (simp add: own_file_def state_files_def out)
  with built(2) removed(2) have "list_all (builder_call W Machine sd) ?mid" by simp
  moreover have "Delete_file d \<in> set ?mid" by simp
  moreover have "if b \<and> x then \<exists>dir. Spawn_line (initrd_command dir out) \<in> set ?mid
      else (\<not> b \<or> e) \<and> last ?mid = Delete_file out"
    using built(3) removed(3) by (cases b; cases x) auto
  ultimately show ?thesis using run True d_def by (intro exI conjI) (rule run, simp_all only: if_True refl)
qed


section \<open>The whole construction\<close>

lemma initrd_construct_builds:
  "builds W Machine sd (initrd_construct W moddir (mkinitrd_config W c) (sd @ ''/initrd.img''))"
  unfolding only_def
proof
  fix tr
  from initrd_construct_runs [OF refl refl refl, of W moddir c sd tr] obtain r e mid where
    "initrd_construct W moddir (mkinitrd_config W c) (sd @ ''/initrd.img'') tr =
      Ret (r, e) (tr @ [Umask 63, Mkdtemp (tempdir_template W)] @ mid @ [Umask_restore])"
    "list_all (builder_call W Machine sd) mid" by auto
  then show "\<exists>x cs. initrd_construct W moddir (mkinitrd_config W c) (sd @ ''/initrd.img'') tr = Ret x (tr @ cs) \<and>
      list_all (builder_call W Machine sd) cs \<and> any x"
    by (intro exI [of _ "(r, e)"] exI [of _ "[Umask 63, Mkdtemp (tempdir_template W)] @ mid @ [Umask_restore]"])
      (simp add: builder_call_def)
qed

lemma machine_construct_os_builds: "builds W Machine sd (machine_construct_os W moddir c sd d)"
proof -
  have "builds W Machine sd (mkinitrd W moddir c sd)"
    unfolding mkinitrd_def
    by (rule only_andthen [OF initrd_construct_builds]) (auto intro: only_ret)
  moreover have "builds W Machine sd (copykern W c sd)"
    unfolding copykern_def by (rule only_ok) (simp add: builder_call_def own_file_def state_files_def)
  moreover have "builds W Machine sd (\<lambda>tr. (if os_file W tr (sd @ ''/vmlinuz'') = None then ret None else ret x) tr)" for x :: "domain option"
    using only_reading [of "builder_call W Machine sd" any "\<lambda>v. if v = None then ret None else ret x" "\<lambda>tr. os_file W tr (sd @ ''/vmlinuz'')"]
    by (simp add: only_ret)
  ultimately show ?thesis unfolding machine_construct_os_def by (intro only_gate only_ret) simp_all
qed

lemma builder_construct_builds: "builds W b sd (builder_construct G W secmodels moddir cfgdir b c sd)"
proof -
  have own: "own_file W b sd (sd @ ''/config/disks.cfg'')" for b
    by (cases b) (simp_all add: own_file_def state_files_def)
  have mounts: "builds W b sd (if b = Machine then write_mount_cfg W c sd else ret True)"
    unfolding write_mount_cfg_def by (auto intro!: only_ret write_lines_builds simp: own_file_def state_files_def)
  have os: "builds W b sd (case b of
         Machine \<Rightarrow> machine_construct_os W moddir c sd (machine_construct_basic (os_kvm W) c domain_new)
       | Container \<Rightarrow> ret (Some (container_construct_os W cfgdir c (container_construct_basic c domain_new))))"
    by (cases b) (simp_all add: only_ret machine_construct_os_builds)
  have disks: "builds W b sd (construct_disk_cfg W b c sd)"
    unfolding construct_disk_cfg_def by (rule write_lines_builds [OF own])
  show ?thesis
    unfolding builder_construct_def
    by (rule only_gate [OF mounts only_ret only_gate [OF copy_init_builds only_ret only_andthen [OF os]]])
      (auto split: option.split intro!: only_ret only_gate [OF disks])
qed

text \<open>
  C26. Building a sandbox always returns, whatever the system answers, and on the way changes nothing
  but the files of the sandbox's own state directory, the directory of its libraries, and a temporary
  directory of its own; it runs nothing but ldd and the command that packs the initrd.
\<close>

theorem builder_footprint:
  "\<exists>r cs. builder_construct G W secmodels moddir cfgdir b c sd tr = Ret r (tr @ cs) \<and>
    list_all (builder_call W b sd) cs"
  using onlyD [OF builder_construct_builds [of W b sd G secmodels moddir cfgdir c], of tr] by simp

section \<open>Cleaning up\<close>

definition deleted :: "call list \<Rightarrow> string set" where
  "deleted cs = {f. Unlink f \<in> set cs \<or> Delete_file f \<in> set cs}"

definition created :: "call list \<Rightarrow> string set" where
  "created cs = {f. Open_replace f \<in> set cs \<or> Open_new f \<in> set cs \<or> (\<exists>s. Copy_file s f \<in> set cs)}"

lemma created_simps [simp]: "created [] = {}" "created (cs @ ds) = created cs \<union> created ds"
  by (auto simp: created_def)

lemma created_calls:
  "created [Mkdirs d m] = {}" "created [Unlink f] = {}" "created [Delete_file f] = {}" "created [Rmdir f] = {}"
  "created [Write f x] = {}" "created [Close f] = {}" "created [Open_new f] = {f}" "created [Open_replace f] = {f}"
  "created [Copy_file s f] = {f}" "created [Spawn a] = {}"
  "created [Start_domain d'] = {}" "created [Stop_domain n] = {}"
  by (auto simp: created_def)

lemma created_Cons: "created (c # cs) = created [c] \<union> created cs"
  using created_simps(2) [of "[c]" cs] by simp

text \<open>\<open>deletes p fs\<close>: \<open>p\<close> returns having tried to delete every file of \<open>fs\<close>.\<close>

definition deletes :: "bool prog \<Rightarrow> string set \<Rightarrow> bool" where
  "deletes p fs \<longleftrightarrow> (\<forall>tr. \<exists>r cs. p tr = Ret r (tr @ cs) \<and> fs \<subseteq> deleted cs)"

lemma deleted_append [simp]: "deleted (xs @ ys) = deleted xs \<union> deleted ys"
  by (auto simp: deleted_def)

lemma deletes_both:
  assumes "deletes p fs" "deletes q gs" shows "deletes (both p q) (fs \<union> gs)"
  unfolding deletes_def
proof
  fix tr
  from assms(1) obtain r cs where p: "p tr = Ret r (tr @ cs)" "fs \<subseteq> deleted cs" unfolding deletes_def by blast
  from assms(2) obtain r' ds where "q (tr @ cs) = Ret r' ((tr @ cs) @ ds)" "gs \<subseteq> deleted ds" unfolding deletes_def by blast
  with p show "\<exists>r cs. both p q tr = Ret r (tr @ cs) \<and> fs \<union> gs \<subseteq> deleted cs"
    by (intro exI [of _ "r \<and> r'"] exI [of _ "cs @ ds"]) (auto simp: both_def run_simps)
qed

lemma deletes_unlink: "deletes (unlink_ok W f) {f}"
  by (auto simp: deletes_def unlink_ok_def run_simps deleted_def)

lemma deletes_nothing: "deletes (ret b) {}"
  by (auto simp: deletes_def run_simps)

lemma deletes_all_of: "(\<And>x. x \<in> set xs \<Longrightarrow> deletes (f x) {g x}) \<Longrightarrow> deletes (all_of f xs) (g ` set xs)"
proof (induction xs)
  case (Cons x xs)
  then have "deletes (both (f x) (all_of f xs)) ({g x} \<union> g ` set xs)" by (intro deletes_both) auto
  then show ?case by simp
qed (simp add: deletes_nothing)

lemma deletes_reading: "(\<And>x. P x \<Longrightarrow> deletes (f x) fs) \<Longrightarrow> (\<And>tr. P (g tr)) \<Longrightarrow> deletes (\<lambda>tr. f (g tr) tr) fs"
  by (simp add: deletes_def)

lemma clean_post_stop_deletes:
  assumes "\<And>tr. os_listdir W tr (libs_of sd) = (Done, names)"
  shows "deletes (clean_post_stop W b sd)
    ((case b of Machine \<Rightarrow> {sd @ ''/config/mounts.cfg''} | Container \<Rightarrow> {}) \<union> {sd @ ''/config/disks.cfg''} \<union>
     (\<lambda>n. libs_of sd @ ''/'' @ n) ` set names \<union> {libs_of sd})"
proof -
  have libs: "deletes (all_of (\<lambda>n. ok W (Delete_file (libs_of sd @ ''/'' @ n))) names) ((\<lambda>n. libs_of sd @ ''/'' @ n) ` set names)"
    by (rule deletes_all_of) (auto simp: deletes_def ok_run deleted_def)
  have dir: "deletes (andthen (sys W (Delete_file (libs_of sd))) (\<lambda>r. ret (r = Done \<or> r = Enoent))) {libs_of sd}"
    by (auto simp: deletes_def run_simps deleted_def)
  have class_part: "deletes (class_clean_post_stop W b sd) (case b of Machine \<Rightarrow> {sd @ ''/config/mounts.cfg''} | Container \<Rightarrow> {})"
    by (cases b) (simp_all add: class_clean_post_stop_def deletes_unlink deletes_nothing)
  have "deletes (\<lambda>tr. (case os_listdir W tr (libs_of sd) of
         (Done, names) \<Rightarrow> both (all_of (\<lambda>n. ok W (Delete_file (libs_of sd @ ''/'' @ n))) names)
           (andthen (sys W (Delete_file (libs_of sd))) (\<lambda>r. ret (r = Done \<or> r = Enoent)))
       | (Enoent, _) \<Rightarrow> andthen (sys W (Delete_file (libs_of sd))) (\<lambda>r. ret (r = Done \<or> r = Enoent))
       | _ \<Rightarrow> ret False) tr) ((\<lambda>n. libs_of sd @ ''/'' @ n) ` set names \<union> {libs_of sd})"
    using deletes_both [OF libs dir] by (simp add: assms)
  from deletes_both [OF deletes_both [OF class_part deletes_unlink [of W "sd @ ''/config/disks.cfg''"]] this]
  show ?thesis unfolding clean_post_stop_def Let_def libs_of_def by (simp add: Un_assoc)
qed

section \<open>An example\<close>

lemma ldd_lines_Nil: "ldd_lines [] = []"
  by (subst ldd_lines.simps) simp

definition demo_libs :: os where
  "demo_libs = demo_os (\<lambda>_. None)\<lparr>os_call := \<lambda>_ c. case c of Rmdir _ \<Rightarrow> Failed | _ \<Rightarrow> Done, os_listdir := \<lambda>_ _. (Done, [''libvirt-sandbox-init-common'', ''libvirt-sandbox-init-lxc''])\<rparr>"

definition demo_calls :: "string \<Rightarrow> call list" where
  "demo_calls sd =
     (let libs = sd @ ''/config/.libs''; common = ''/libvirt-sandbox-init-common''; lxc = ''/libvirt-sandbox-init-lxc'' in
      [Mkdirs libs 493, Copy_file (LIBEXECDIR @ common) (libs @ common), Spawn [LDD_PATH, LIBEXECDIR @ common],
       Copy_file (LIBEXECDIR @ lxc) (libs @ lxc), Spawn [LDD_PATH, LIBEXECDIR @ lxc],
       Open_replace (sd @ ''/config/disks.cfg''),
       Write (sd @ ''/config/disks.cfg'') (hd (disk_cfg_lines Container 0 (cf_disks demo_config))),
       Close (sd @ ''/config/disks.cfg'')])"

lemma demo_run:
  "\<exists>d. builder_construct glib_ref demo_libs (Some []) None cfgdir Container demo_config sd tr = Ret (Some d) (tr @ demo_calls sd)"
proof -
  have call: "os_call demo_libs tr c = (case c of Rmdir _ \<Rightarrow> Failed | _ \<Rightarrow> Done)" and nofile: "os_file demo_libs tr f = None" and out: "os_output demo_libs tr a = []" for tr c f a
    by (simp_all add: demo_libs_def demo_os_def)
  have base: "path_basename (LIBEXECDIR @ ''/libvirt-sandbox-init-common'') = ''libvirt-sandbox-init-common''"
    "path_basename (LIBEXECDIR @ ''/libvirt-sandbox-init-lxc'') = ''libvirt-sandbox-init-lxc''"
    by (simp_all add: path_basename_def LIBEXECDIR_def strrchr_split_def)
  have prog: "copy_program demo_libs p libs tr = Ret True (tr @ [Copy_file p (libs @ ''/'' @ path_basename p), Spawn [LDD_PATH, p]])" for p libs tr
    by (simp add: copy_program_def copy_file_def run_simps ok_run call nofile out ldd_lines_Nil)
  show ?thesis
    by (simp add: builder_construct_def copy_init_def files_to_copy_def run_simps prog base call ok_run
        construct_disk_cfg_def write_lines_def construct_security_def demo_calls_def Let_def)
qed

lemma created_demo_calls:
  "created (demo_calls sd) = {libs_of sd @ ''/libvirt-sandbox-init-common'', libs_of sd @ ''/libvirt-sandbox-init-lxc'',
     sd @ ''/config/disks.cfg''}"
  by (simp add: created_Cons [of _ "_ # _"] created_calls demo_calls_def libs_of_def Let_def insert_commute)

end
