(* ===== verification/Initrd_Claims.thy ===== *)
theory Initrd_Claims
  imports Builder_Effects
begin

text \<open>
  The kernel modules: the list that the host packs into the initrd makes the first process of the
  machine insert, in dependency order, the modules that the host found.
\<close>

section \<open>The list\<close>





section \<open>Inserting the modules\<close>












end
