(* ===== verification/Context.thy ===== *)
theory Context
  imports Builder_Initrd Config_File Init_Qemu
begin

text \<open>
  The sandbox contexts: libvirt-sandbox-context.c and its two classes, the interactive context of
  libvirt-sandbox-context-interactive.c and the service context of libvirt-sandbox-context-service.c.
  A context keeps the domain it runs; connection and configuration are fixed at construction. Names of
  the operations are those of the C functions; \<open>error\<close> arguments are left out.
\<close>

section \<open>The host\<close>

text \<open>
  What the code asks of the host: the bytes of a key file's text, the URI of the connection, the directories of GLib for the cache and
  the configuration of the user, what the builder needs of the connection, and the names of the domains
  that libvirt lists after a fetch.
\<close>

record 'd host =
  hs_text :: "'d \<Rightarrow> string"
  hs_uri :: string
  hs_cache_dir :: string
  hs_config_dir :: string
  hs_secmodels :: "string list option"
  hs_moddir :: "node option"
  hs_domains :: "call list \<Rightarrow> string list"

text \<open>\<open>priv->domain\<close>, by name.\<close>

record ctx =
  cx_domain :: "string option"

definition RUNDIR :: string where
  "RUNDIR = ''/var/run''"

definition SYSCONFDIR :: string where
  "SYSCONFDIR = ''/etc''"

text \<open>\<open>g_build_filename\<close> ends at the first NULL, here the name of a configuration without one.\<close>

definition sub_path :: "string \<Rightarrow> string option \<Rightarrow> string" where
  "sub_path dir name = (case name of None \<Rightarrow> dir | Some n \<Rightarrow> dir @ ''/'' @ n)"

definition state_dir :: "os \<Rightarrow> 'd host \<Rightarrow> 'ip config \<Rightarrow> string" where
  "state_dir W H c =
     sub_path ((if os_uid W \<noteq> 0 then hs_cache_dir H else RUNDIR) @ ''/libvirt-sandbox'') (cf_name c)"

definition sandbox_dir :: "os \<Rightarrow> 'd host \<Rightarrow> string" where
  "sandbox_dir W H = (if os_uid W \<noteq> 0 then hs_config_dir H else SYSCONFDIR) @ ''/libvirt-sandbox''"

definition service_dir :: "os \<Rightarrow> 'd host \<Rightarrow> 'ip config \<Rightarrow> string" where
  "service_dir W H c = sub_path (sandbox_dir W H @ ''/services'') (cf_name c)"

section \<open>Files\<close>

text \<open>\<open>gvir_sandbox_config_save_to_path\<close> as calls; \<open>g_key_file_to_data\<close> never fails.\<close>

definition save_config_file :: "('f, 'd, 'ip) glib \<Rightarrow> os \<Rightarrow> ('d \<Rightarrow> string) \<Rightarrow> 'ip config \<Rightarrow> string \<Rightarrow> bool prog" where
  "save_config_file G W text c path =
     andthen (ok W (Open_new path)) (\<lambda>created. if \<not> created then ret False else
     andthen (ok W (Write path (text (save_to_data G c)))) (\<lambda>written.
     andthen (if \<not> written then ret False else ok W (Close path)) (\<lambda>saved.
       if saved then ret True else seq (quietly W (Delete_file path)) (ret False))))"

definition rmdir_ok :: "os \<Rightarrow> string \<Rightarrow> bool prog" where
  "rmdir_ok W path = andthen (sys W (Rmdir path)) (\<lambda>r. ret (r = Done \<or> r = Enoent))"

section \<open>The abstract context\<close>

definition start_default :: "ctx \<Rightarrow> bool" where
  "start_default x \<longleftrightarrow> cx_domain x = None"

definition stop_default :: "ctx \<Rightarrow> bool" where
  "stop_default x \<longleftrightarrow> cx_domain x \<noteq> None"

definition find_domain :: "'d host \<Rightarrow> 'ip config \<Rightarrow> call list \<Rightarrow> string option" where
  "find_domain H c tr = (case cf_name c of None \<Rightarrow> None | Some n \<Rightarrow> if n \<in> set (hs_domains H tr) then Some n else None)"

definition attach :: "os \<Rightarrow> 'd host \<Rightarrow> 'ip config \<Rightarrow> ctx \<Rightarrow> (bool \<times> ctx) prog" where
  "attach W H c x =
     (if cx_domain x \<noteq> None then ret (False, x) else
      andthen (ok W Fetch_domains) (\<lambda>fetched. if \<not> fetched then ret (False, x) else
        (\<lambda>tr. (case find_domain H c tr of
           None \<Rightarrow> ret (False, x)
         | Some d \<Rightarrow> ret (True, x\<lparr>cx_domain := Some d\<rparr>)) tr)))"

definition detach :: "ctx \<Rightarrow> (bool \<times> ctx) prog" where
  "detach x = (if cx_domain x = None then ret (False, x) else ret (True, x\<lparr>cx_domain := None\<rparr>))"

definition is_attached :: "ctx \<Rightarrow> bool" where
  "is_attached x \<longleftrightarrow> cx_domain x \<noteq> None"

text \<open>The devices of the consoles, by their libvirt alias; without a domain there is none.\<close>

definition log_console :: "'d host \<Rightarrow> ctx \<Rightarrow> string option" where
  "log_console H x = (if cx_domain x = None then None
     else Some (if strstr_split ''lxc'' (hs_uri H) \<noteq> None then ''console0'' else ''serial0''))"

definition shell_console :: "'d host \<Rightarrow> ctx \<Rightarrow> string option" where
  "shell_console H x = (if cx_domain x = None then None
     else Some (if strstr_split ''lxc'' (hs_uri H) \<noteq> None then ''console1'' else ''serial1''))"

definition app_console :: "'d host \<Rightarrow> 'ip config \<Rightarrow> ctx \<Rightarrow> string option" where
  "app_console H c x = (if cx_domain x = None then None
     else Some (if strstr_split ''lxc'' (hs_uri H) \<noteq> None
                then (if cf_shell c then ''console2'' else ''console1'') else ''console1''))"

section \<open>The interactive context\<close>

definition uri_supported :: "u32 \<Rightarrow> string \<Rightarrow> bool" where
  "uri_supported euid uri =
     (if euid = 0 then uri = ''lxc:///'' \<or> uri = ''qemu:///system'' else uri = ''qemu:///session'')"

definition context_clean_post_stop :: "os \<Rightarrow> builder \<Rightarrow> string \<Rightarrow> bool prog" where
  "context_clean_post_stop W b statedir =
     both (both (both (both
       (clean_post_stop W b statedir)
       (unlink_ok W (statedir @ ''/config/sandbox.cfg'')))
       (rmdir_ok W (statedir @ ''/config/empty'')))
       (rmdir_ok W (statedir @ ''/config'')))
       (rmdir_ok W statedir)"

definition domain_name :: "domain \<Rightarrow> string" where
  "domain_name d = (case dm_name d of None \<Rightarrow> [] | Some n \<Rightarrow> n)"

text \<open>
  The part of \<open>start\<close> that can jump to \<open>cleanup\<close> once there is a builder: whether it succeeds, and the
  domain if that was started.
\<close>

definition start_domain ::
  "('f, 'd, 'ip) glib \<Rightarrow> os \<Rightarrow> 'd host \<Rightarrow> builder \<Rightarrow> 'ip config \<Rightarrow> string \<Rightarrow> (bool \<times> string option) prog" where
  "start_domain G W H b c statedir =
     seq (each (quietly W) [Mkdirs statedir 493, Mkdirs (statedir @ ''/config'') 493,
            Unlink (statedir @ ''/config/sandbox.cfg'')])
    (andthen (save_config_file G W (hs_text H) c (statedir @ ''/config/sandbox.cfg'')) (\<lambda>saved.
       if \<not> saved then ret (False, None) else
     seq (quietly W (Mkdirs (statedir @ ''/config/empty'') 493))
    (andthen (builder_construct G W (hs_secmodels H) (hs_moddir H) SANDBOXCONFIGDIR b c statedir) (\<lambda>configdom.
       case configdom of None \<Rightarrow> ret (False, None) | Some d \<Rightarrow>
     andthen (ok W (Start_domain d)) (\<lambda>started. if \<not> started then ret (False, None) else
     andthen (class_clean_post_start W b statedir) (\<lambda>cleaned. ret (cleaned, Some (domain_name d))))))))"

definition interactive_start ::
  "('f, 'd, 'ip) glib \<Rightarrow> os \<Rightarrow> 'd host \<Rightarrow> 'ip config \<Rightarrow> ctx \<Rightarrow> (bool \<times> ctx) prog" where
  "interactive_start G W H c x =
     (if \<not> start_default x then ret (False, x)
      else if \<not> uri_supported (os_euid W) (hs_uri H) then ret (False, x)
      else case builder_for_connection (hs_uri H) of None \<Rightarrow> ret (False, x) | Some b \<Rightarrow>
        let statedir = state_dir W H c in
        andthen (start_domain G W H b c statedir) (\<lambda>(result, domain).
          if result then ret (True, x\<lparr>cx_domain := domain\<rparr>)
          else
            seq (case domain of None \<Rightarrow> ret () | Some d \<Rightarrow> quietly W (Stop_domain d))
           (andthen (class_clean_post_start W b statedir) (\<lambda>_.
            andthen (context_clean_post_stop W b statedir) (\<lambda>_. ret (False, x))))))"

definition interactive_stop :: "os \<Rightarrow> 'd host \<Rightarrow> 'ip config \<Rightarrow> ctx \<Rightarrow> (bool \<times> ctx) prog" where
  "interactive_stop W H c x =
     (case cx_domain x of None \<Rightarrow> ret (False, x) | Some d \<Rightarrow>
      andthen (ok W (Stop_domain d)) (\<lambda>stopped.
      andthen (case builder_for_connection (hs_uri H) of
          None \<Rightarrow> ret False
        | Some b \<Rightarrow> context_clean_post_stop W b (state_dir W H c)) (\<lambda>cleaned.
        ret (stopped \<and> cleaned, x\<lparr>cx_domain := None\<rparr>))))"

section \<open>The service context\<close>

text \<open>\<open>define\<close> up to the jump to \<open>cleanup\<close>.\<close>

definition define_domain ::
  "('f, 'd, 'ip) glib \<Rightarrow> os \<Rightarrow> 'd host \<Rightarrow> builder \<Rightarrow> 'ip config \<Rightarrow> bool prog" where
  "define_domain G W H b c =
     (let statedir = service_dir W H c in
      seq (each (quietly W) [Mkdirs (sandbox_dir W H) 448, Mkdirs (sandbox_dir W H @ ''/services'') 448,
             Mkdirs statedir 448, Mkdirs (statedir @ ''/config'') 448])
     (andthen (builder_construct G W (hs_secmodels H) (hs_moddir H) SANDBOXCONFIGDIR b c statedir) (\<lambda>configdom.
        case configdom of None \<Rightarrow> ret False | Some d \<Rightarrow>
      andthen (ok W (Define_domain d)) (\<lambda>defined. if \<not> defined then ret False else
      seq (quietly W (Unlink (statedir @ ''/config/sandbox.cfg'')))
     (andthen (save_config_file G W (hs_text H) c (statedir @ ''/config/sandbox.cfg'')) (\<lambda>saved. if \<not> saved then ret False else
      seq (quietly W (Mkdirs (statedir @ ''/config/empty'') 493)) (ret True)))))))"

definition service_define ::
  "('f, 'd, 'ip) glib \<Rightarrow> os \<Rightarrow> 'd host \<Rightarrow> 'ip config \<Rightarrow> bool prog" where
  "service_define G W H c =
     andthen (case builder_for_connection (hs_uri H) of
         None \<Rightarrow> ret False
       | Some b \<Rightarrow> define_domain G W H b c) (\<lambda>result.
       if result then ret True
       else seq (quietly W (Unlink (service_dir W H c @ ''/config/sandbox.cfg''))) (ret False))"

definition service_undefine :: "os \<Rightarrow> 'd host \<Rightarrow> 'ip config \<Rightarrow> bool prog" where
  "service_undefine W H c =
     (let statedir = service_dir W H c in
      andthen (ok W Fetch_domains) (\<lambda>fetched. if \<not> fetched then ret True else
      andthen (\<lambda>tr. (case find_domain H c tr of None \<Rightarrow> ret True | Some d \<Rightarrow> ok W (Delete_domain d)) tr) (\<lambda>deleted.
        case builder_for_connection (hs_uri H) of None \<Rightarrow> ret False | Some b \<Rightarrow>
        andthen (both (both (both (both
            (unlink_ok W (statedir @ ''/config/sandbox.cfg''))
            (rmdir_ok W (statedir @ ''/config/empty'')))
            (rmdir_ok W (statedir @ ''/config'')))
            (rmdir_ok W statedir))
            (clean_post_stop W b statedir)) (\<lambda>removed. ret (deleted \<and> removed)))))"

definition service_start :: "os \<Rightarrow> 'd host \<Rightarrow> 'ip config \<Rightarrow> ctx \<Rightarrow> (bool \<times> ctx) prog" where
  "service_start W H c x =
     (if \<not> start_default x then ret (False, x) else
      andthen (ok W Fetch_domains) (\<lambda>fetched. if \<not> fetched then ret (False, x) else
        (\<lambda>tr. (case find_domain H c tr of
           None \<Rightarrow> ret (False, x)
         | Some d \<Rightarrow> andthen (ok W (Start_defined d)) (\<lambda>started.
             if started then ret (True, x\<lparr>cx_domain := Some d\<rparr>) else ret (False, x))) tr)))"

definition service_stop :: "os \<Rightarrow> ctx \<Rightarrow> (bool \<times> ctx) prog" where
  "service_stop W x =
     (case cx_domain x of None \<Rightarrow> ret (False, x) | Some d \<Rightarrow>
      andthen (ok W (Stop_domain d)) (\<lambda>stopped. ret (stopped, x\<lparr>cx_domain := None\<rparr>)))"

section \<open>Virtual methods\<close>

datatype ctx_class = Ctx_interactive | Ctx_service

definition context_start ::
  "('f, 'd, 'ip) glib \<Rightarrow> os \<Rightarrow> 'd host \<Rightarrow> ctx_class \<Rightarrow> 'ip config \<Rightarrow> ctx \<Rightarrow> (bool \<times> ctx) prog" where
  "context_start G W H k c x = (case k of
       Ctx_interactive \<Rightarrow> interactive_start G W H c x
     | Ctx_service \<Rightarrow> service_start W H c x)"

definition context_stop :: "os \<Rightarrow> 'd host \<Rightarrow> ctx_class \<Rightarrow> 'ip config \<Rightarrow> ctx \<Rightarrow> (bool \<times> ctx) prog" where
  "context_stop W H k c x = (case k of
       Ctx_interactive \<Rightarrow> interactive_stop W H c x
     | Ctx_service \<Rightarrow> service_stop W x)"

definition context_finalize :: "os \<Rightarrow> 'd host \<Rightarrow> ctx_class \<Rightarrow> 'ip config \<Rightarrow> ctx \<Rightarrow> unit prog" where
  "context_finalize W H k c x =
     (if cx_domain x \<noteq> None then andthen (context_stop W H k c x) (\<lambda>_. ret ()) else ret ())"

section \<open>The life of a context\<close>

text \<open>
  Contexts that the operations lead to, with the trace of all calls, the names of the domains adopted by
  \<open>attach\<close> and of those let go by \<open>detach\<close>. Between two operations other parts of the program may make
  calls, but nobody else starts or stops domains.
\<close>

definition started_by :: "call \<Rightarrow> string list" where
  "started_by c = (case c of Start_domain d \<Rightarrow> [domain_name d] | Start_defined n \<Rightarrow> [n] | _ \<Rightarrow> [])"

definition stopped_by :: "call \<Rightarrow> string list" where
  "stopped_by c = (case c of Stop_domain n \<Rightarrow> [n] | _ \<Rightarrow> [])"

definition inert :: "call \<Rightarrow> bool" where
  "inert c \<longleftrightarrow> started_by c = [] \<and> stopped_by c = []"

definition running :: "ctx \<Rightarrow> string list" where
  "running x = (case cx_domain x of None \<Rightarrow> [] | Some n \<Rightarrow> [n])"

inductive ctx_run ::
  "('f, 'd, 'ip) glib \<Rightarrow> os \<Rightarrow> 'd host \<Rightarrow> ctx_class \<Rightarrow> 'ip config \<Rightarrow> string list \<Rightarrow> string list \<Rightarrow> ctx \<Rightarrow> call list \<Rightarrow> bool"
  for G W H k c where
  new: "ctx_run G W H k c [] [] \<lparr>cx_domain = None\<rparr> []"
| start: "ctx_run G W H k c as ds x tr \<Longrightarrow> context_start G W H k c x tr = Ret (r, x') tr' \<Longrightarrow> ctx_run G W H k c as ds x' tr'"
| stop: "ctx_run G W H k c as ds x tr \<Longrightarrow> context_stop W H k c x tr = Ret (r, x') tr' \<Longrightarrow> ctx_run G W H k c as ds x' tr'"
| attach: "ctx_run G W H k c as ds x tr \<Longrightarrow> attach W H c x tr = Ret (r, x') tr' \<Longrightarrow>
    ctx_run G W H k c (if r then running x' @ as else as) ds x' tr'"
| detach: "ctx_run G W H k c as ds x tr \<Longrightarrow> detach x tr = Ret (r, x') tr' \<Longrightarrow>
    ctx_run G W H k c as (if r then running x @ ds else ds) x' tr'"
| others: "ctx_run G W H k c as ds x tr \<Longrightarrow> list_all inert cs \<Longrightarrow> ctx_run G W H k c as ds x (tr @ cs)"

end
