(* ===== verification/Virt_Sandbox.thy ===== *)
theory Virt_Sandbox
  imports Context Config_Opts "HOL-Library.Monad_Syntax"
begin

text \<open>
  src/bin/virt-sandbox.c: from the options to a configuration, the sandbox started, its consoles
  attached, the main loop and the exit code. What GLib's option parser found is a record; messages are
  left out.
\<close>

section \<open>Options\<close>

record options =
  op_uri :: "string option"
  op_name :: "string option"
  op_root :: "string option"
  op_disks :: "string list"
  op_envs :: "string list"
  op_mounts :: "string list"
  op_includes :: "string list"
  op_includefile :: "string option"
  op_networks :: "string list"
  op_security :: "string option"
  op_privileged :: bool
  op_switchto :: "string option"
  op_shell :: bool
  op_kernver :: "string option"
  op_kernpath :: "string option"
  op_kmodpath :: "string option"
  op_verbose :: bool
  op_debug :: bool
  op_cmdargs :: "string list"

record passwd =
  pw_name :: string
  pw_uid :: u32
  pw_gid :: u32
  pw_dir :: string

text \<open>What the program asks of its surroundings while it configures the sandbox.\<close>

record caller =
  ca_env :: host_env
  ca_getpwnam :: "string \<Rightarrow> passwd option"
  ca_lines :: "string \<Rightarrow> string list option \<times> bool"
  ca_getcon :: "string option"
  ca_isatty :: bool

definition parsed :: "'c \<times> config_error option \<Rightarrow> 'c option" where
  "parsed r = (case snd r of None \<Rightarrow> Some (fst r) | Some _ \<Rightarrow> None)"

definition given :: "('a \<Rightarrow> 'c \<Rightarrow> 'c option) \<Rightarrow> 'a option \<Rightarrow> 'c \<Rightarrow> 'c option" where
  "given f x c = (case x of None \<Rightarrow> Some c | Some v \<Rightarrow> f v c)"

text \<open>A setter that is called if the option was given.\<close>

definition option_set :: "('a \<Rightarrow> 'c \<Rightarrow> 'c) \<Rightarrow> 'a option \<Rightarrow> 'c \<Rightarrow> 'c" where
  "option_set f x c = (case x of None \<Rightarrow> c | Some v \<Rightarrow> f v c)"

definition new_config :: "caller \<Rightarrow> options \<Rightarrow> 'ip config" where
  "new_config C ops =
     (let c = config_new (ca_env C) interactive_init
                (Some (case op_name ops of None \<Rightarrow> ''sandbox'' | Some n \<Rightarrow> n));
          c = interactive_set_command (op_cmdargs ops) c;
          c = option_set set_root (op_root ops) c;
          c = option_set (set_kernrelease \<circ> Some) (op_kernver ops) c;
          c = option_set (set_kernpath \<circ> Some) (op_kernpath ops) c
      in option_set (set_kmodpath \<circ> Some) (op_kmodpath ops) c)"

definition set_identity :: "caller \<Rightarrow> options \<Rightarrow> 'ip config \<Rightarrow> 'ip config option" where
  "set_identity C ops c =
     (if op_privileged ops \<and> op_switchto ops \<noteq> None then None
      else if op_privileged ops then Some (set_username ''root'' (set_groupid 0 (set_userid 0 c)))
      else case op_switchto ops of
        None \<Rightarrow> Some c
      | Some user \<Rightarrow> (case ca_getpwnam C user of
          None \<Rightarrow> None
        | Some pw \<Rightarrow> Some (set_homedir (pw_dir pw) (set_username (pw_name pw)
            (set_groupid (pw_gid pw) (set_userid (pw_uid pw) c))))))"

definition set_flags :: "caller \<Rightarrow> options \<Rightarrow> 'ip config \<Rightarrow> 'ip config" where
  "set_flags C ops c =
     (let c = (if op_shell ops then set_shell True c else c);
          c = config_set_verbose (op_verbose ops) (config_set_debug (op_debug ops) c)
      in if ca_isatty C then interactive_set_tty True c else c)"

definition configure :: "('f, 'd, 'ip) glib \<Rightarrow> caller \<Rightarrow> options \<Rightarrow> 'ip config option" where
  "configure G C ops = do {
     c \<leftarrow> set_identity C ops (new_config C ops);
     c \<leftarrow> parsed (add_env_strv (op_envs ops) c);
     c \<leftarrow> parsed (add_disk_strv G (op_disks ops) c);
     c \<leftarrow> parsed (add_strv (add_mount_opts G) (op_mounts ops) c);
     c \<leftarrow> parsed (add_host_include_strv (op_includes ops) c);
     c \<leftarrow> given (\<lambda>f c. parsed (case ca_lines C f of (contents, bad) \<Rightarrow> add_host_include_file contents bad c))
            (op_includefile ops) c;
     c \<leftarrow> parsed (add_network_strv G (op_networks ops) c);
     c \<leftarrow> given (\<lambda>s c. parsed (set_security_opts (ca_getcon C) s c)) (op_security ops) c;
     Some (set_flags C ops c)
   }"

section \<open>The main loop\<close>

text \<open>
  What the main loop reports: the signals of the two consoles and the timers. It is quit by the log
  console's close or by a timer that a close of the command's console started. The code starts as
  \<open>EXIT_FAILURE\<close>.
\<close>

datatype loop_event = Log_closed | App_closed | App_exited u32 | Timer

definition WEXITSTATUS :: "u32 \<Rightarrow> nat" where
  "WEXITSTATUS status = unat (drop_bit 8 (and status 0xff00))"

definition EXIT_FAILURE :: nat where
  "EXIT_FAILURE = 1"

fun main_loop :: "nat \<Rightarrow> nat \<Rightarrow> loop_event list \<Rightarrow> nat option" where
  "main_loop timers code [] = None"
| "main_loop timers code (Log_closed # es) = Some code"
| "main_loop timers code (App_closed # es) = main_loop (Suc timers) code es"
| "main_loop timers code (App_exited status # es) = main_loop timers (WEXITSTATUS status) es"
| "main_loop timers code (Timer # es) = (if timers > 0 then Some code else main_loop timers code es)"

section \<open>The program\<close>

text \<open>
  \<open>connect\<close> opens a connection to the given URI, \<open>None\<close> if that fails; \<open>attach_log\<close> and \<open>attach_app\<close>
  say whether attaching the two consoles by the given names succeeds. The result is \<open>None\<close> while the main
  loop is running.
\<close>

record session =
  se_connect :: bool
  se_attach_log :: "string \<Rightarrow> bool"
  se_attach_app :: "string \<Rightarrow> bool"
  se_events :: "loop_event list"

definition run_consoles :: "'d host \<Rightarrow> session \<Rightarrow> 'ip config \<Rightarrow> ctx \<Rightarrow> nat option" where
  "run_consoles H S c x =
     (case log_console H x of
        None \<Rightarrow> Some EXIT_FAILURE
      | Some log \<Rightarrow>
          if \<not> se_attach_log S log then Some EXIT_FAILURE
          else case app_console H c x of
            None \<Rightarrow> Some EXIT_FAILURE
          | Some app \<Rightarrow>
              if \<not> se_attach_app S app then Some EXIT_FAILURE
              else main_loop 0 EXIT_FAILURE (se_events S))"

definition virt_sandbox ::
  "('f, 'd, 'ip) glib \<Rightarrow> os \<Rightarrow> (string option \<Rightarrow> 'd host) \<Rightarrow> caller \<Rightarrow> session \<Rightarrow> options option \<Rightarrow> nat option prog" where
  "virt_sandbox G W hosts C S parsed_options =
     (case parsed_options of None \<Rightarrow> ret (Some EXIT_FAILURE) | Some ops \<Rightarrow>
      if op_cmdargs ops = [] then ret (Some EXIT_FAILURE) else
      seq (if op_debug ops \<or> op_verbose ops
           then each (quietly W) [Setenv ''LIBVIRT_LOG_FILTERS'' ''1:libvirt'', Setenv ''LIBVIRT_LOG_OUTPUTS'' ''stderr'']
           else ret ())
        (if \<not> se_connect S then ret (Some EXIT_FAILURE) else
         let H = hosts (op_uri ops) in
         case configure G C ops of None \<Rightarrow> ret (Some EXIT_FAILURE) | Some c \<Rightarrow>
         andthen (context_start G W H Ctx_interactive c \<lparr>cx_domain = None\<rparr>) (\<lambda>(started, x).
           case (if started then run_consoles H S c x else Some EXIT_FAILURE) of
             None \<Rightarrow> ret None
           | Some code \<Rightarrow>
               andthen (context_stop W H Ctx_interactive c x) (\<lambda>(_, x).
                 seq (context_finalize W H Ctx_interactive c x) (ret (Some code))))))"

end
