(* ===== verification/Context_Claims.thy ===== *)
theory Context_Claims
  imports Context Builder_Effects Guest_Init "HOL-Library.Multiset"
begin

text \<open>
  What a sandbox context guarantees: each domain it starts is told to stop once, nothing it made in
  the state directory is left behind, its consoles are the devices of the domain and of the guest that
  they are meant to be; and what undefining a service does not do.
\<close>

section \<open>Programs that return\<close>

text \<open>From the trace \<open>tr\<close> the program returns, and its value and its calls satisfy \<open>Q\<close>.\<close>

definition yields :: "'a prog \<Rightarrow> call list \<Rightarrow> ('a \<Rightarrow> call list \<Rightarrow> bool) \<Rightarrow> bool" where
  "yields p tr Q \<longleftrightarrow> (\<exists>x cs. p tr = Ret x (tr @ cs) \<and> Q x cs)"


lemma yields_sys: "Q (os_call W tr c) [c] \<Longrightarrow> yields (sys W c) tr Q"
  by (simp add: yields_def sys_def)

lemma yields_ok: "Q (os_call W tr c = Done) [c] \<Longrightarrow> yields (ok W c) tr Q"
  by (simp add: yields_def ok_run)

lemma yields_quietly: "Q () [c] \<Longrightarrow> yields (quietly W c) tr Q"
  by (simp add: yields_def quietly_def run_simps)

lemma yields_each: "Q () cs \<Longrightarrow> yields (each (quietly W) cs) tr Q"
  by (simp add: yields_def each_quietly)

lemma yields_andthen:
  assumes "yields p tr R" "\<And>x cs. R x cs \<Longrightarrow> yields (f x) (tr @ cs) (\<lambda>y ds. Q y (cs @ ds))"
  shows "yields (andthen p f) tr Q"
proof -
  from assms(1) obtain x cs where p: "p tr = Ret x (tr @ cs)" "R x cs" unfolding yields_def by blast
  from assms(2) [OF p(2)] obtain y ds where "f x (tr @ cs) = Ret y ((tr @ cs) @ ds)" "Q y (cs @ ds)"
    unfolding yields_def by blast
  with p(1) show ?thesis by (auto simp: yields_def andthen_def)
qed

lemma yields_seq:
  "yields p tr R \<Longrightarrow> (\<And>cs. R () cs \<Longrightarrow> yields q (tr @ cs) (\<lambda>y ds. Q y (cs @ ds))) \<Longrightarrow> yields (seq p q) tr Q"
  unfolding seq_def by (erule yields_andthen) simp


lemma yields_only: "only F R p \<Longrightarrow> yields p tr (\<lambda>x cs. list_all F cs \<and> R x)"
  by (simp add: only_def yields_def)


lemma yields_mono: "yields p tr Q \<Longrightarrow> (\<And>x cs. Q x cs \<Longrightarrow> R x cs) \<Longrightarrow> yields p tr R"
  by (auto simp: yields_def)



section \<open>Domains started and stopped\<close>

text \<open>The names of the domains started by the calls \<open>cs\<close> behind \<open>tr\<close>, and of those told to stop.\<close>

fun starts :: "os \<Rightarrow> call list \<Rightarrow> call list \<Rightarrow> string list" where
  "starts W tr [] = []"
| "starts W tr (c # cs) = (if os_call W tr c = Done then started_by c else []) @ starts W (tr @ [c]) cs"

definition stops :: "call list \<Rightarrow> string list" where
  "stops cs = concat (map stopped_by cs)"

lemma starts_append [simp]: "starts W tr (cs @ ds) = starts W tr cs @ starts W (tr @ cs) ds"
  by (induction cs arbitrary: tr) simp_all

lemma stops_simps [simp]: "stops [] = []" "stops (cs @ ds) = stops cs @ stops ds"
    "stops (c # cs) = stopped_by c @ stops cs"
  by (simp_all add: stops_def)


lemma builder_call_inert: "builder_call W b sd c \<Longrightarrow> inert c"
  by (auto simp: builder_call_def inert_def started_by_def stopped_by_def split: call.splits)

lemma inert_weaken: "list_all (builder_call W b sd) cs \<Longrightarrow> list_all inert cs"
  by (auto simp: list_all_iff dest: builder_call_inert)

section \<open>Starting\<close>

definition sandbox_cfg :: "string \<Rightarrow> string" where
  "sandbox_cfg sd = sd @ ''/config/sandbox.cfg''"





definition unlink_call :: "call \<Rightarrow> bool" where
  "unlink_call c \<longleftrightarrow> (\<exists>f. c = Unlink f \<or> c = Delete_file f)"


lemma clean_steps:
  "only unlink_call any (unlink_ok W f)" "only unlink_call any (ok W (Delete_file f))"
  "only unlink_call any (andthen (sys W (Delete_file f)) (\<lambda>r. ret (r = Done \<or> r = Enoent)))"
  by (simp_all add: only_def unlink_ok_def run_simps ok_run unlink_call_def)



lemma clean_post_stop_only: "only unlink_call any (clean_post_stop W b sd)"
proof -
  have "only unlink_call any (class_clean_post_stop W b sd)"
    by (cases b) (simp_all add: class_clean_post_stop_def clean_steps only_ret)
  moreover have "only unlink_call any (\<lambda>tr. (case r of
           (Done, names) \<Rightarrow> both (all_of (\<lambda>n. ok W (Delete_file (d @ ''/'' @ n))) names)
             (andthen (sys W (Delete_file d)) (\<lambda>r. ret (r = Done \<or> r = Enoent)))
         | (Enoent, _) \<Rightarrow> andthen (sys W (Delete_file d)) (\<lambda>r. ret (r = Done \<or> r = Enoent))
         | _ \<Rightarrow> ret False) tr)" for r d
    by (cases r; cases "fst r") (simp_all add: only_both only_all_of clean_steps only_ret)
  then have "only unlink_call any (\<lambda>tr. (case os_listdir W tr d of
           (Done, names) \<Rightarrow> both (all_of (\<lambda>n. ok W (Delete_file (d @ ''/'' @ n))) names)
             (andthen (sys W (Delete_file d)) (\<lambda>r. ret (r = Done \<or> r = Enoent)))
         | (Enoent, _) \<Rightarrow> andthen (sys W (Delete_file d)) (\<lambda>r. ret (r = Done \<or> r = Enoent))
         | _ \<Rightarrow> ret False) tr)" for d
    by (rule only_reading)
  ultimately show ?thesis
    unfolding clean_post_stop_def Let_def by (intro only_both clean_steps)
qed

definition rmdirs :: "call list \<Rightarrow> string set" where
  "rmdirs cs = {d. Rmdir d \<in> set cs}"

lemma rmdirs_simps [simp]: "rmdirs [] = {}" "rmdirs (cs @ ds) = rmdirs cs \<union> rmdirs ds"
  by (auto simp: rmdirs_def)


lemma clean_post_stop_rmdirs: "yields (clean_post_stop W b sd) tr (\<lambda>_ cs. rmdirs cs = {})"
  by (rule yields_mono [OF yields_only [OF clean_post_stop_only]])
    (auto simp: rmdirs_def unlink_call_def list_all_iff)






text \<open>Calls that make a sandbox: inert ones, creating only the builder's files and sandbox.cfg.\<close>

definition make_call :: "os \<Rightarrow> builder \<Rightarrow> string \<Rightarrow> call \<Rightarrow> bool" where
  "make_call W b sd c \<longleftrightarrow> inert c \<and> (\<forall>f \<in> created [c]. own_file W b sd f \<or> f = sandbox_cfg sd)"



lemma make_calls [simp]:
  "make_call W b sd (Mkdirs d m)" "make_call W b sd (Unlink f)" "make_call W b sd (Delete_file f)"
  "make_call W b sd (Write f x)" "make_call W b sd (Close f)" "make_call W b sd (Open_new (sandbox_cfg sd))"
  by (simp_all add: make_call_def created_calls inert_def started_by_def stopped_by_def)









section \<open>Starting and stopping\<close>






section \<open>The life of a context\<close>














section \<open>The consoles\<close>


lemma no_consoles [simp]:
  "filter (\<lambda>d. \<exists>t. d = Console t) (root_device b c) = []" "filter (\<lambda>d. d = Serial) (root_device b c) = []"
  "filter (\<lambda>d. \<exists>t. d = Console t) (config_device b g sd # devs) = filter (\<lambda>d. \<exists>t. d = Console t) devs"
  "filter (\<lambda>d. d = Serial) (config_device b g sd # devs) = filter (\<lambda>d. d = Serial) devs"
  "filter (\<lambda>d. \<exists>t. d = Console t) (map (network_device b) ns) = []" "filter (\<lambda>d. d = Serial) (map (network_device b) ns) = []"
  "filter (\<lambda>d. \<exists>t. d = Console t) (map (container_mount G) ms) = []" "filter (\<lambda>d. d = Serial) (map (container_mount G) ms) = []"
  by (auto simp: root_device_def config_device_def network_device_def container_mount_def filter_empty_conv Let_def)

lemma no_disk_consoles [simp]:
  "filter (\<lambda>d. \<exists>t. d = Console t) (disk_devices b n ds) = []" "filter (\<lambda>d. d = Serial) (disk_devices b n ds) = []"
  by (induction b n ds rule: disk_devices.induct) simp_all

lemma no_mount_consoles [simp]:
  "filter (\<lambda>d. \<exists>t. d = Console t) (machine_mounts G root file hb vd ms) = []"
  "filter (\<lambda>d. d = Serial) (machine_mounts G root file hb vd ms) = []"
  by (induction ms arbitrary: hb vd) (auto split: mount_kind.split)





section \<open>Undefining a service\<close>

text \<open>
  The file was created and has not been deleted since. On a system that respects directories, a
  directory with such a file in it cannot be removed.
\<close>

definition kept :: "os \<Rightarrow> call list \<Rightarrow> string \<Rightarrow> bool" where
  "kept W tr f \<longleftrightarrow> (\<exists>pre c post. tr = pre @ c # post \<and> f \<in> created [c] \<and> os_call W pre c = Done \<and> f \<notin> deleted post)"

definition dirs_respected :: "os \<Rightarrow> bool" where
  "dirs_respected W \<longleftrightarrow> (\<forall>tr d f. kept W tr f \<and> in_dir d f \<longrightarrow> os_call W tr (Rmdir d) = Failed)"

lemma keptI: "f \<in> created [c] \<Longrightarrow> os_call W pre c = Done \<Longrightarrow> f \<notin> deleted post \<Longrightarrow> kept W (pre @ c # post) f"
  unfolding kept_def by blast

lemma kept_append:
  assumes "kept W tr f" "f \<notin> deleted ds" shows "kept W (tr @ ds) f"
proof -
  from assms(1) obtain pre c post where "tr = pre @ c # post" "f \<in> created [c]" "os_call W pre c = Done" "f \<notin> deleted post"
    unfolding kept_def by blast
  with keptI [of f c W pre "post @ ds"] assms(2) show ?thesis by simp
qed

lemma deleted_Cons: "deleted (c # cs) = deleted [c] \<union> deleted cs"
  using deleted_append [of "[c]" cs] by simp

lemma deleted_calls:
  "deleted [] = {}" "deleted [Write f x] = {}" "deleted [Close f] = {}" "deleted [Open_new f] = {}" "deleted [Define_domain d] = {}"
  "deleted [Unlink f] = {f}" "deleted [Rmdir f] = {}" "deleted [Mkdirs f m] = {}" "deleted [Fetch_domains] = {}"
  "deleted [Delete_domain n] = {}" "deleted [Delete_file f] = {f}"
  by (auto simp: deleted_def)

lemma write_lines_kept: "write_lines W path ls tr = Ret True tr' \<Longrightarrow> kept W tr' path"
proof -
  assume written: "write_lines W path ls tr = Ret True tr'"
  from while_ok_calls [of W "Write path" ls "tr @ [Open_replace path]"] obtain b k where
    w: "while_ok (\<lambda>l. ok W (Write path l)) ls (tr @ [Open_replace path]) =
        Ret b (tr @ Open_replace path # map (Write path) (take k ls))" by auto
  from written w have "os_call W tr (Open_replace path) = Done"
    "tr' = tr @ Open_replace path # map (Write path) (take k ls) @ [Close path]"
    by (auto simp: write_lines_def run_simps ok_run split: if_splits)
  moreover have "path \<notin> deleted (map (Write path) (take k ls) @ [Close path])" by (auto simp: deleted_def)
  ultimately show ?thesis using keptI [of path "Open_replace path" W tr] by (simp add: created_calls)
qed

lemma construct_writes_disks:
  assumes "builder_construct G W secmodels moddir cfgdir b c sd tr = Ret (Some d) tr'"
  shows "kept W tr' (sd @ ''/config/disks.cfg'')"
proof -
  from assms have "\<exists>tr2. construct_disk_cfg W b c sd tr2 = Ret True tr'"
    by (auto simp: builder_construct_def run_simps split: run.splits if_splits option.splits)
  then show ?thesis unfolding construct_disk_cfg_def by (blast intro: write_lines_kept)
qed

lemma define_keeps_disks:
  assumes "service_define G W H c tr = Ret True tr'"
  shows "kept W tr' (service_dir W H c @ ''/config/disks.cfg'') \<and> builder_for_connection (hs_uri H) \<noteq> None"
proof -
  let ?sd = "service_dir W H c"
  from assms obtain b where b: "builder_for_connection (hs_uri H) = Some b" "define_domain G W H b c tr = Ret True tr'"
    by (auto simp: service_define_def run_simps quietly_def split: option.splits run.splits if_splits)
  let ?tr = "tr @ [Mkdirs (sandbox_dir W H) 448, Mkdirs (sandbox_dir W H @ ''/services'') 448, Mkdirs ?sd 448, Mkdirs (?sd @ ''/config'') 448]"
  from b(2) obtain d tr1 where d: "builder_construct G W (hs_secmodels H) (hs_moddir H) SANDBOXCONFIGDIR b c ?sd ?tr = Ret (Some d) tr1"
    by (auto simp: define_domain_def Let_def run_simps quietly_def split: run.splits option.splits)
  let ?cfg = "?sd @ ''/config/sandbox.cfg''"
  let ?after = "[Define_domain d, Unlink ?cfg, Open_new ?cfg, Write ?cfg (hs_text H (save_to_data G c)), Close ?cfg, Mkdirs (?sd @ ''/config/empty'') 493]"
  from b(2) d have "tr' = tr1 @ ?after"
    by (auto simp: define_domain_def Let_def run_simps quietly_def ok_run save_config_file_def split: if_splits)
  moreover have "?sd @ ''/config/disks.cfg'' \<notin> deleted ?after"
    by (simp add: deleted_Cons [of _ "_ # _"] deleted_calls)
  ultimately show ?thesis using kept_append [OF construct_writes_disks [OF d]] b(1) by simp
qed

text \<open>
  C37. Undefining a service that was defined never succeeds on a system that respects directories: the
  directories of the service are removed before the files in them, so that this fails and, since no
  second attempt is made, the directories stay although disks.cfg is deleted afterwards.
\<close>

theorem undefine_leaves_directories:
  assumes "dirs_respected W" "service_define G W H c tr = Ret True tr1"
    and "service_dir W H c @ ''/config/disks.cfg'' \<notin> deleted ds"
    and "os_call W (tr1 @ ds) Fetch_domains = Done"
  shows "\<exists>pre post. service_undefine W H c (tr1 @ ds) = Ret False (tr1 @ ds @ pre @ post) \<and>
    os_call W (tr1 @ ds @ pre) (Rmdir (service_dir W H c @ ''/config'')) = Failed \<and>
    {d. Rmdir d \<in> set (tl post)} \<subseteq> {service_dir W H c} \<and> hd post = Rmdir (service_dir W H c @ ''/config'')"
proof -
  let ?sd = "service_dir W H c" and ?tr = "tr1 @ ds"
  from define_keeps_disks [OF assms(2)] obtain b where
    kept: "kept W ?tr (?sd @ ''/config/disks.cfg'')" and b: "builder_for_connection (hs_uri H) = Some b"
    using kept_append [OF _ assms(3)] by blast
  define dels where "dels = (case find_domain H c (?tr @ [Fetch_domains]) of None \<Rightarrow> [] | Some d \<Rightarrow> [Delete_domain d])"
  let ?pre = "Fetch_domains # dels @ [Unlink (?sd @ ''/config/sandbox.cfg''), Rmdir (?sd @ ''/config/empty'')]"
  have "?sd @ ''/config/disks.cfg'' \<notin> deleted ?pre"
    by (simp add: deleted_Cons [of _ "_ # _"] deleted_Cons [of _ "_ @ _"] deleted_calls dels_def split: option.split)
  from kept_append [OF kept this] have "kept W (?tr @ ?pre) (?sd @ ''/config/disks.cfg'')" .
  moreover have "in_dir (?sd @ ''/config'') (?sd @ ''/config/disks.cfg'')" by (simp add: in_dir_def)
  ultimately have rmdir: "os_call W (?tr @ ?pre) (Rmdir (?sd @ ''/config'')) = Failed"
    using assms(1) unfolding dirs_respected_def by blast
  obtain r es where clean: "clean_post_stop W b ?sd (?tr @ ?pre @ [Rmdir (?sd @ ''/config''), Rmdir ?sd]) =
      Ret r ((?tr @ ?pre @ [Rmdir (?sd @ ''/config''), Rmdir ?sd]) @ es)" "rmdirs es = {}"
    using clean_post_stop_rmdirs [of W b ?sd "?tr @ ?pre @ [Rmdir (?sd @ ''/config''), Rmdir ?sd]"] unfolding yields_def by blast
  have "\<exists>gone. (case find_domain H c (?tr @ [Fetch_domains]) of None \<Rightarrow> ret True | Some d \<Rightarrow> ok W (Delete_domain d)) (?tr @ [Fetch_domains]) =
      Ret gone (?tr @ Fetch_domains # dels)"
    by (auto simp: dels_def run_simps ok_run split: option.split)
  then have "service_undefine W H c ?tr = Ret False (?tr @ ?pre @ [Rmdir (?sd @ ''/config''), Rmdir ?sd] @ es)"
    using assms(4) b clean(1) rmdir
    by (auto simp: service_undefine_def Let_def run_simps ok_run both_def rmdir_ok_def unlink_ok_def)
  with rmdir clean(2) show ?thesis
    by (intro exI [of _ ?pre] exI [of _ "[Rmdir (?sd @ ''/config''), Rmdir ?sd] @ es"]) (auto simp: rmdirs_def)
qed

section \<open>Examples\<close>

text \<open>A host for the examples.\<close>

definition demo_host :: "kf_write list host" where
  "demo_host = \<lparr>hs_text = \<lambda>_. ''[api]'', hs_uri = ''lxc:///'', hs_cache_dir = ''/c'', hs_config_dir = ''/h'', hs_secmodels = Some [], hs_moddir = None,
     hs_domains = \<lambda>_. [''sandbox'']\<rparr>"

lemma demo_host_simps [simp]:
  "hs_uri demo_host = ''lxc:///''" "hs_secmodels demo_host = Some []" "hs_moddir demo_host = None"
  "hs_domains demo_host tr = [''sandbox'']" "cf_name demo_config = Some ''sandbox''"
  "os_call demo_libs tr c = (case c of Rmdir _ \<Rightarrow> Failed | _ \<Rightarrow> Done)" "os_euid demo_libs = 0" "os_uid demo_libs = 0"
  "builder_for_connection ''lxc:///'' = Some Container"
  by (simp_all add: demo_host_def demo_config_def config_init_def demo_libs_def demo_os_def builder_for_connection_def)






lemma demo_define: "\<exists>tr. service_define glib_ref demo_libs demo_host demo_config [] = Ret True tr"
proof -
  let ?sd = "service_dir demo_libs demo_host demo_config" and ?root = "sandbox_dir demo_libs demo_host"
  obtain d where "builder_construct glib_ref demo_libs (Some []) None SANDBOXCONFIGDIR Container demo_config ?sd
      [Mkdirs ?root 448, Mkdirs (?root @ ''/services'') 448, Mkdirs ?sd 448, Mkdirs (?sd @ ''/config'') 448] =
      Ret (Some d) ([Mkdirs ?root 448, Mkdirs (?root @ ''/services'') 448, Mkdirs ?sd 448, Mkdirs (?sd @ ''/config'') 448] @ demo_calls ?sd)"
    using demo_run by blast
  then show ?thesis
    by (simp add: service_define_def define_domain_def Let_def run_simps quietly_def ok_run save_config_file_def)
qed

lemma undefine_leaves_directories_witness:
  "\<exists>tr tr'. service_define glib_ref demo_libs demo_host demo_config [] = Ret True tr \<and>
    service_undefine demo_libs demo_host demo_config tr = Ret False tr'"
proof -
  from demo_define obtain tr where "service_define glib_ref demo_libs demo_host demo_config [] = Ret True tr" by blast
  moreover have "dirs_respected demo_libs" by (simp add: dirs_respected_def)
  ultimately show ?thesis
    using undefine_leaves_directories [of demo_libs glib_ref demo_host demo_config "[]" tr "[]"]
    by (auto simp: deleted_calls)
qed

end
