(* ===== verification/Virt_Sandbox_Claims.thy ===== *)
theory Virt_Sandbox_Claims
  imports Virt_Sandbox Context_Claims
begin

text \<open>
  What virt-sandbox makes of its options, when its main loop ends and with which code, and that no
  domain survives it.
\<close>

section \<open>The configuration\<close>

text \<open>The option parsers leave alone who runs what, and under which name.\<close>

definition same_identity :: "'ip config \<Rightarrow> 'ip config \<Rightarrow> bool" where
  "same_identity c c' \<longleftrightarrow> cf_name c = cf_name c' \<and> cf_root c = cf_root c' \<and> cf_class c = cf_class c' \<and>
     cf_uid c = cf_uid c' \<and> cf_gid c = cf_gid c' \<and> cf_username c = cf_username c' \<and> cf_homedir c = cf_homedir c'"

lemma same_identity_refl [simp]: "same_identity c c"
  by (simp add: same_identity_def)

lemma same_identity_trans [trans]: "same_identity a b \<Longrightarrow> same_identity b c \<Longrightarrow> same_identity a c"
  by (simp add: same_identity_def)

lemma adders_same [simp]:
  "same_identity c (add_env c k v)" "same_identity c (add_mount c m)" "same_identity c (add_disk c d)"
  "same_identity c (add_network c n)"
  by (simp_all add: same_identity_def add_env_def add_mount_def add_disk_def add_network_def)

lemma opts_same:
  "add_env_opts s c = Inr c' \<Longrightarrow> same_identity c c'"
  "add_disk_opts G s c = Inr c' \<Longrightarrow> same_identity c c'"
  "add_mount_opts G s c = Inr c' \<Longrightarrow> same_identity c c'"
  "add_include s c = Inr c' \<Longrightarrow> same_identity c c'"
  "add_network_opts G s c = Inr c' \<Longrightarrow> same_identity c c'"
  by (auto simp: add_env_opts_def add_disk_opts_def add_mount_opts_def add_include_def add_network_opts_def Let_def
      split: option.splits prod.splits if_splits mount_type.splits sum.splits)
    (simp_all add: same_identity_def)

lemma strv_same:
  assumes "\<And>s c c'. f s c = Inr c' \<Longrightarrow> same_identity c c'"
  shows "add_strv f ss c = (c', e) \<Longrightarrow> same_identity c c'"
proof (induction ss arbitrary: c)
  case (Cons s ss)
  show ?case
  proof (cases "f s c")
    case (Inr d)
    with Cons same_identity_trans [OF assms [OF Inr]] show ?thesis by simp
  qed (use Cons.prems in simp)
qed simp

lemma parsed_strv_same:
  "(\<And>s c c'. f s c = Inr c' \<Longrightarrow> same_identity c c') \<Longrightarrow> parsed (add_strv f ss c) = Some c' \<Longrightarrow> same_identity c c'"
  using strv_same [of f ss c c'] by (cases "add_strv f ss c") (auto simp: parsed_def split: option.splits)

lemma include_file_same: "parsed (add_host_include_file contents bad c) = Some c' \<Longrightarrow> same_identity c c'"
  using strv_same [of add_include _ c] opts_same(4)
  by (fastforce simp: parsed_def add_host_include_file_def split: option.splits prod.splits if_splits)

lemma security_same: "parsed (set_security_opts con s c) = Some c' \<Longrightarrow> same_identity c c'"
  by (auto simp: parsed_def set_security_opts_def same_identity_def config_setters Let_def
      split: option.splits prod.splits if_splits)

lemma configure_same:
  assumes "configure G C ops = Some c"
  shows "\<exists>c1 c2. set_identity C ops (new_config C ops) = Some c1 \<and> same_identity c1 c2 \<and> c = set_flags C ops c2"
proof -
  from assms obtain c1 c2 c3 c4 c5 c6 c7 c8 where steps:
    "set_identity C ops (new_config C ops) = Some c1"
    "parsed (add_strv add_env_opts (op_envs ops) c1) = Some c2"
    "parsed (add_strv (add_disk_opts G) (op_disks ops) c2) = Some c3"
    "parsed (add_strv (add_mount_opts G) (op_mounts ops) c3) = Some c4"
    "parsed (add_host_include_strv (op_includes ops) c4) = Some c5"
    "given (\<lambda>f c. parsed (case ca_lines C f of (contents, bad) \<Rightarrow> add_host_include_file contents bad c))
       (op_includefile ops) c5 = Some c6"
    "parsed (add_strv (add_network_opts G) (op_networks ops) c6) = Some c7"
    "given (\<lambda>s c. parsed (set_security_opts (ca_getcon C) s c)) (op_security ops) c7 = Some c8"
    "c = set_flags C ops c8"
    by (auto simp: configure_def strv_defs Let_def bind_eq_Some_conv)
  have "same_identity c1 c2" by (rule parsed_strv_same [OF opts_same(1) steps(2)])
  also have "same_identity c2 c3" by (rule parsed_strv_same [OF opts_same(2) steps(3)])
  also have "same_identity c3 c4" by (rule parsed_strv_same [OF opts_same(3) steps(4)])
  also have "same_identity c4 c5"
    by (rule parsed_strv_same [OF opts_same(4) steps(5) [unfolded add_host_include_strv_def]])
  also have "same_identity c5 c6"
    using steps(6) include_file_same by (cases "op_includefile ops") (auto simp: given_def split: prod.splits)
  also have "same_identity c6 c7" by (rule parsed_strv_same [OF opts_same(5) steps(7)])
  also have "same_identity c7 c8"
    using steps(8) security_same by (cases "op_security ops") (auto simp: given_def)
  finally show ?thesis using steps(1,9) by blast
qed

lemma new_config_identity:
  "cf_name (new_config C ops) = Some (case op_name ops of None \<Rightarrow> ''sandbox'' | Some n \<Rightarrow> n)"
  "cf_class (new_config C ops) = Interactive False (op_cmdargs ops)"
  "cf_root (new_config C ops) = (case op_root ops of None \<Rightarrow> ''/'' | Some r \<Rightarrow> r)"
  "cf_username (new_config C ops) = he_user (ca_env C)" "cf_uid (new_config C ops) = he_euid (ca_env C)"
  "cf_gid (new_config C ops) = he_egid (ca_env C)" "cf_homedir (new_config C ops) = he_home (ca_env C)"
  by (simp_all add: new_config_def config_new_def config_init_def interactive_init_def config_setters class_setters
      option_set_def Let_def split: option.split)

lemma set_flags_identity:
  "cf_name (set_flags C ops c) = cf_name c" "cf_root (set_flags C ops c) = cf_root c"
  "cf_username (set_flags C ops c) = cf_username c" "cf_uid (set_flags C ops c) = cf_uid c"
  "cf_gid (set_flags C ops c) = cf_gid c" "cf_homedir (set_flags C ops c) = cf_homedir c"
  "cf_class c = Interactive False argv \<Longrightarrow> cf_class (set_flags C ops c) = Interactive (ca_isatty C) argv"
  by (simp_all add: set_flags_def config_setters class_setters Let_def split: config_class.split)

lemma set_identity_cases:
  assumes "set_identity C ops c = Some c1"
  shows "cf_name c1 = cf_name c \<and> cf_class c1 = cf_class c \<and> cf_root c1 = cf_root c \<and>
    (if op_privileged ops
     then op_switchto ops = None \<and> cf_username c1 = ''root'' \<and> cf_uid c1 = 0 \<and> cf_gid c1 = 0
     else case op_switchto ops of
       None \<Rightarrow> c1 = c
     | Some user \<Rightarrow> \<exists>pw. ca_getpwnam C user = Some pw \<and> cf_username c1 = pw_name pw \<and> cf_uid c1 = pw_uid pw \<and>
               cf_gid c1 = pw_gid pw \<and> cf_homedir c1 = pw_dir pw)"
  using assms by (auto simp: set_identity_def config_setters split: if_splits option.splits)

text \<open>
  C38. The configuration says what the options say about who runs what: the given name or the default one,
  the command line as it is, the given root, a terminal exactly if there is one; as root with
  --privileged, as the named user with --switchto, never both, and otherwise as the caller. No other
  option, whatever its text, changes any of this.
\<close>

theorem configured_as_asked:
  fixes c :: "'ip config"
  assumes "configure G C ops = Some c"
  shows "cf_name c = Some (case op_name ops of None \<Rightarrow> ''sandbox'' | Some n \<Rightarrow> n) \<and>
    cf_class c = Interactive (ca_isatty C) (op_cmdargs ops) \<and> get_command c = op_cmdargs ops \<and>
    cf_root c = (case op_root ops of None \<Rightarrow> ''/'' | Some r \<Rightarrow> r) \<and>
    (if op_privileged ops
     then op_switchto ops = None \<and> cf_username c = ''root'' \<and> cf_uid c = 0 \<and> cf_gid c = 0
     else case op_switchto ops of
       None \<Rightarrow> cf_username c = he_user (ca_env C) \<and> cf_uid c = he_euid (ca_env C) \<and> cf_gid c = he_egid (ca_env C) \<and>
               cf_homedir c = he_home (ca_env C)
     | Some user \<Rightarrow> \<exists>pw. ca_getpwnam C user = Some pw \<and> cf_username c = pw_name pw \<and> cf_uid c = pw_uid pw \<and>
               cf_gid c = pw_gid pw \<and> cf_homedir c = pw_dir pw)"
proof -
  from configure_same [OF assms] obtain c1 c2 where
    id: "set_identity C ops (new_config C ops) = Some c1" and same: "same_identity c1 c2" and c: "c = set_flags C ops c2"
    by blast
  from same have "cf_class c2 = cf_class c1" by (simp add: same_identity_def)
  also have "\<dots> = cf_class (new_config C ops :: 'ip config)" using set_identity_cases [OF id] by simp
  also have "\<dots> = Interactive False (op_cmdargs ops)" by (rule new_config_identity)
  finally have "cf_class c = Interactive (ca_isatty C) (op_cmdargs ops)"
    unfolding c by (rule set_flags_identity(7))
  moreover have "cf_name c = cf_name c1" "cf_root c = cf_root c1" "cf_username c = cf_username c1" "cf_uid c = cf_uid c1"
    "cf_gid c = cf_gid c1" "cf_homedir c = cf_homedir c1"
    using same by (simp_all add: c set_flags_identity same_identity_def)
  ultimately show ?thesis
    using set_identity_cases [OF id]
    by (cases "op_privileged ops"; cases "op_switchto ops") (simp_all add: new_config_identity get_command_def)
qed

section \<open>The main loop\<close>

definition exits :: "loop_event list \<Rightarrow> u32 list" where
  "exits es = concat (map (\<lambda>e. case e of App_exited s \<Rightarrow> [s] | _ \<Rightarrow> []) es)"

lemma exits_simps [simp]: "exits [] = []" "exits (e # es) = (case e of App_exited s \<Rightarrow> [s] | _ \<Rightarrow> []) @ exits es"
  by (simp_all add: exits_def)

lemma main_loop_ends:
  "main_loop timers code es = Some r \<Longrightarrow>
   \<exists>pre e post. es = pre @ e # post \<and> Log_closed \<notin> set pre \<and>
     (e = Log_closed \<or> e = Timer \<and> (timers > 0 \<or> App_closed \<in> set pre)) \<and>
     r = (if exits pre = [] then code else WEXITSTATUS (last (exits pre)))"
proof (induction timers code es rule: main_loop.induct)
  case (2 timers code es)
  then show ?case by (intro exI [of _ "[]"] exI [of _ Log_closed] exI [of _ es]) simp
next
  case (3 timers code es)
  then obtain pre e post where "es = pre @ e # post" "Log_closed \<notin> set pre" "e = Log_closed \<or> e = Timer"
    "r = (if exits pre = [] then code else WEXITSTATUS (last (exits pre)))" by auto
  then show ?case by (intro exI [of _ "App_closed # pre"] exI [of _ e] exI [of _ post]) auto
next
  case (4 timers code status es)
  then obtain pre e post where "es = pre @ e # post" "Log_closed \<notin> set pre"
    "e = Log_closed \<or> e = Timer \<and> (timers > 0 \<or> App_closed \<in> set pre)"
    "r = (if exits pre = [] then WEXITSTATUS status else WEXITSTATUS (last (exits pre)))" by auto
  then show ?case by (intro exI [of _ "App_exited status # pre"] exI [of _ e] exI [of _ post]) auto
next
  case (5 timers code es)
  show ?case
  proof (cases "timers > 0")
    case True
    with 5 show ?thesis by (intro exI [of _ "[]"] exI [of _ Timer] exI [of _ es]) simp
  next
    case False
    with 5 obtain pre e post where "es = pre @ e # post" "Log_closed \<notin> set pre"
      "e = Log_closed \<or> e = Timer \<and> (timers > 0 \<or> App_closed \<in> set pre)"
      "r = (if exits pre = [] then code else WEXITSTATUS (last (exits pre)))" by auto
    then show ?thesis by (intro exI [of _ "Timer # pre"] exI [of _ e] exI [of _ post]) auto
  qed
qed simp

lemma killed_status: "status < 128 \<Longrightarrow> WEXITSTATUS status = 0"
proof -
  assume "status < 128"
  then have "unat status < 128" by (simp add: word_less_nat_alt)
  then have "drop_bit 8 status = 0"
    by (intro word_unat_eq_iff [THEN iffD2]) (simp add: unat_drop_bit_eq drop_bit_eq_div unat_div_distrib)
  then show ?thesis by (simp add: WEXITSTATUS_def drop_bit_and)
qed

text \<open>
  C39. Once the consoles are attached virt-sandbox ends with the exit status of the last exit message
  before the log console closed, or before a timer ran out that the close of the command's console had
  started; without such a message it ends with EXIT_FAILURE. A status that says a signal killed the
  command (below 128) becomes exit code 0.
\<close>

theorem exit_code_of_last_exit:
  assumes "run_consoles H S c x = Some code" "is_attached x"
    and "\<And>dev. se_attach_log S dev" "\<And>dev. se_attach_app S dev"
  shows "\<exists>pre e post. se_events S = pre @ e # post \<and> Log_closed \<notin> set pre \<and>
    (e = Log_closed \<or> e = Timer \<and> App_closed \<in> set pre) \<and>
    code = (if exits pre = [] then EXIT_FAILURE else WEXITSTATUS (last (exits pre))) \<and>
    (exits pre \<noteq> [] \<and> last (exits pre) < 128 \<longrightarrow> code = 0)"
proof -
  from assms have "main_loop 0 EXIT_FAILURE (se_events S) = Some code"
    by (auto simp: run_consoles_def is_attached_def log_console_def app_console_def)
  from main_loop_ends [OF this] obtain pre e post where fin: "se_events S = pre @ e # post" "Log_closed \<notin> set pre"
    "e = Log_closed \<or> e = Timer \<and> App_closed \<in> set pre"
    "code = (if exits pre = [] then EXIT_FAILURE else WEXITSTATUS (last (exits pre)))" by auto
  with killed_status [of "last (exits pre)"] show ?thesis
    by (intro exI [of _ pre] exI [of _ e] exI [of _ post]) simp
qed

lemma context_stop_idle: "cx_domain x = None \<Longrightarrow> context_stop W H Ctx_interactive c x = ret (False, x)"
  by (simp add: context_stop_def interactive_stop_def)



section \<open>Examples\<close>

definition demo_caller :: caller where
  "demo_caller = \<lparr>ca_env = \<lparr>he_machine = ''x86_64'', he_euid = 1000, he_egid = 1000, he_user = ''joe'', he_home = ''/home/joe''\<rparr>,
     ca_getpwnam = \<lambda>u. if u = ''ann'' then Some \<lparr>pw_name = ''ann'', pw_uid = 7, pw_gid = 7, pw_dir = ''/home/ann''\<rparr> else None,
     ca_lines = \<lambda>_. (None, False), ca_getcon = None, ca_isatty = True\<rparr>"

definition demo_options :: options where
  "demo_options = \<lparr>op_uri = None, op_name = None, op_root = None, op_disks = [], op_envs = [''A=b''], op_mounts = [''host-bind:/x=/y''],
     op_includes = [''/x/f=/etc/f''], op_includefile = None, op_networks = [], op_security = None, op_privileged = False,
     op_switchto = Some ''ann'', op_shell = False, op_kernver = None, op_kernpath = None, op_kmodpath = None,
     op_verbose = False, op_debug = True, op_cmdargs = [''ls'', ''-l'']\<rparr>"

lemma configured_as_asked_witness:
  "\<exists>c. configure glib_ref demo_caller demo_options = Some c \<and> get_command c = [''ls'', ''-l''] \<and> cf_username c = ''ann'' \<and>
     cf_uid c = 7"
proof -
  obtain c where c: "configure glib_ref demo_caller demo_options = Some c"
    by (simp add: configure_def strv_defs demo_options_def demo_caller_def set_identity_def parsed_def given_def add_env_opts_def
        add_mount_opts_def strncmp_eq_def add_host_include_strv_def add_include_def mount_type_prefix_def mount_new_def
        new_config_def config_new_def config_init_def interactive_init_def option_set_def config_setters class_setters add_mount_def add_env_def Let_def)
  with configured_as_asked [OF c] show ?thesis by (auto simp: demo_options_def demo_caller_def split: if_splits)
qed

lemma exit_code_of_last_exit_witness:
  "run_consoles demo_host \<lparr>se_connect = True, se_attach_log = \<lambda>_. True, se_attach_app = \<lambda>_. True,
       se_events = [App_exited 512, App_closed, Timer]\<rparr> demo_config \<lparr>cx_domain = Some ''s''\<rparr> = Some 2 \<and>
   (\<exists>pre e post. [App_exited 512, App_closed, Timer] = pre @ e # post \<and> e = Timer \<and> App_closed \<in> set pre)"
proof -
  let ?S = "\<lparr>se_connect = True, se_attach_log = \<lambda>_. True, se_attach_app = \<lambda>_. True,
       se_events = [App_exited 512, App_closed, Timer]\<rparr>"
  have run: "run_consoles demo_host ?S demo_config \<lparr>cx_domain = Some ''s''\<rparr> = Some 2"
    by (simp add: run_consoles_def log_console_def app_console_def EXIT_FAILURE_def WEXITSTATUS_def)
  from exit_code_of_last_exit [OF run] show ?thesis
    using run by (fastforce simp: is_attached_def Cons_eq_append_conv)
qed

end
