(* ===== verification/Spec2Isabelle.thy ===== *)
theory Spec2Isabelle
  imports Console_Raw_Claims Rpc_Session Config_Claims Config_Opts_Claims Config_Object_Claims Context_Object Guest_Init_Claims
    Initrd_Claims Virt_Sandbox_Claims
begin

text \<open>
  A verification library for libvirt-sandbox, which runs a command inside a libvirt virtual machine
  or container. All paths below are under src/libvirt-sandbox/ and leave out the prefix
  libvirt-sandbox- of the file names.

  The program. virt-sandbox turns its options into a configuration object (config.c and the objects
  config-mount*.c, config-disk.c, config-network*.c), a builder (builder.c, builder-machine.c,
  builder-container.c, builder-initrd.c) turns that into a libvirt domain and a state directory with
  sandbox.cfg, disks.cfg, mounts.cfg, copied libraries, kernel and initrd, and libvirt starts it. In
  the guest init-qemu.c or init-lxc.c runs first and becomes init-common.c, which reads the
  configuration back, prepares the guest, runs the command and pumps its input and output over a
  serial line. On the host console-rpc.c is the other end of that line. Both ends speak the packets
  of rpcpacket.c.

  \<^bold>\<open>Wire format.\<close> Xdr and Rpc_Packet are rpcpacket.c: a record for the packet, one definition per
  function, fallible ones in \<open>rpc_error + 'a\<close>. The XDR library and what rpcgen generates are a
  parameter under the locale \<open>xdr_library\<close> (RFC 4506), interpreted by \<open>rfc4506\<close>. The 262148 bytes of
  the array and the length words are kept at their width. Shown are the round trip, and which lengths
  are accepted. Framing and Frame_Reader show once, in the locale \<open>frame_format\<close>, that a reader that gets a
  stream in arbitrary pieces sees the same messages.

  \<^bold>\<open>The ends of the line.\<close> Console_Rpc is console-rpc.c: its private data as a record, one definition
  per callback of the main loop, and \<open>console_step\<close> as the inductive relation of the callbacks that
  GLib may invoke, those of forgotten sources included. Console_Rpc_Rx proves by rule induction what
  the host does with received bytes, Console_Rpc_Tx what it sends. Console is console.c, the object with
  its properties, with the locale \<open>console_class\<close> for what users of a console rely on; both consoles
  interpret it. Console_Raw is console-raw.c, the console without packets that runs over a libvirt stream
  or directly over a pty; Console_Raw_Claims shows that it stays well formed, that a stream keeps the
  order of both directions, and the two defects by which direct input is lost and a stderr stalls.
  Guest_Loop is \<open>eventloop\<close> of init-common.c with
  \<open>run_command\<close>, the packet encoders and all handlers, as a function of what each poll reports; the
  number of reports is the number of iterations, so nothing bounds a run but its own end. Guest_Rx and
  Guest_Tx hold the invariants of its two directions, Guest_Claims the properties: input and output in order,
  nothing lost that was accepted, the handshake, the exit packet, and the two ways to go deaf.
  Rpc_Session puts the RPC console and the guest loop at the two ends of one line: what the terminal gets
  is a prefix of what the command wrote, what the command gets a prefix of what was typed.
  Console_Rpc_Run and Guest_Run are computed runs, used as witnesses.

  \<^bold>\<open>Configuration.\<close> Cstring has the C and GLib string functions, Glib the parts of GLib and libvirt
  the code relies on (key files, addresses, nicks, hash order) as the record \<open>glib\<close> under the locale
  \<open>glib_laws\<close>, interpreted by \<open>glib_ref\<close>. Config_Types has the objects, Config_Opts the option
  parsers, Config_File saving and loading. Config_Claims and Config_Opts_Claims show
  what a saved configuration loads back as, what each option string adds, and the bounds.
  Gobject has the properties of a class: specifications, the two methods, construction, and the locale
  \<open>property_class\<close> of what these promise together. Config_Object, Config_Parts and Context_Object give
  the \<open>class_init\<close>, \<open>get_property\<close> and \<open>set_property\<close> of all classes and interpret the locale for each but
  three; Config_Object_Claims says which properties of a configuration work and which do not, and that
  the constructors and setters agree with the properties.

  \<^bold>\<open>First processes.\<close> Sys is a small language of programs over traces of system calls with a Hoare
  logic: a call's answer may depend on all calls before it. Init_Qemu is init-qemu.c and init-lxc.c;
  Init_Claims proves
  that init never ignores the failure of a call and what length it gives to init_module. Guest_Init is init-common.c outside its loop; Guest_Init_Claims proves
  that privileges are dropped before the command runs, that disk tags reach the configured disks, the
  order of unmounting and how the program ends.

  \<^bold>\<open>Builders.\<close> Domain, Builder, Builder_Initrd: the domain as the list of settings and devices, and the files
  of the state directory. Builder_Devices and Builder_Claims relate what the builder writes with what
  the guest reads; Builder_Effects has the footprint of building and its undoing, Initrd_Claims the
  kernel modules.

  \<^bold>\<open>Contexts and the command line.\<close> Context is context.c with context-interactive.c and
  context-service.c: attach and detach, start and stop, define and undefine, the names of the two
  consoles, and finalize, as programs over the calls of Sys, composed in any order a client may choose
  by the inductive relation \<open>ctx_run\<close>. Context_Claims has a logic \<open>yields\<close> for the calls a program makes,
  and shows that every sandbox that was started is stopped exactly once, what stopping and undefining
  leave in the state directory, and that the consoles are those the builder made. Virt_Sandbox is
  src/bin/virt-sandbox.c; Virt_Sandbox_Claims shows that the configuration is the one asked for, that no
  sandbox outlives the program, and where its exit code comes from.

  \<^bold>\<open>Bounds.\<close> Loops of the code that end by their data are structural or have a measure. The loops
  that may wait forever (poll, the GLib main loop, decompression) take the list of answers of the
  environment; a proposition about such a loop says what holds after any such list. Bounds that are in
  the code are constants of the model: 1024 in the loaders, 4096-byte lines, 50 network parameters,
  \<open>MAX_QUEUED_DATA\<close>.

  \<^bold>\<open>Not modelled.\<close> Messages and debug output, reference counting and finalizers that only free memory,
  the registration of types, getters (they are the fields of the records), main.c (it initialises
  libraries), the tests, bindings and examples, generated code, and libvirt itself. State directories are
  plain paths, as \<open>g_build_filename\<close> gives them for clean components.
\<close>

end
